(* ===== verification/NucPrelude.thy ===== *)
theory NucPrelude
  imports Main "HOL-Library.Word" "HOL-Library.State_Monad"
begin

text \<open>
  The vocabulary every component of the library shares: the fixed-width integers of the C
  sources, the UEFI status codes and the GUID structure, little-endian byte layout, and the
  interaction of firmware code with the services it calls.

  A call to a boot service, a runtime service or a protocol of another driver is an
  \<^emph>\<open>interaction\<close>: the answer comes from an environment, which is a parameter of every
  definition that makes calls, and the call with its answer is appended to a trace.  An
  environment answers from the whole trace so far, so nothing is assumed about it beyond what
  a theorem states.
\<close>

unbundle bit_operations_syntax

type_synonym u8 = "8 word"
type_synonym u16 = "16 word"
type_synonym u32 = "32 word"
type_synonym u64 = "64 word"

named_theorems run_simps \<open>execution of interactive code, one rule per combinator\<close>

section \<open>Status codes\<close>

text \<open>
  An EFI status is zero, a warning (top bit clear) or an error (top bit set); only the last
  kind satisfies the macro EFI\_ERROR.
\<close>

datatype efi_status = EFI_SUCCESS | EFI_WARN nat | EFI_ERR nat

fun EFI_ERROR :: "efi_status \<Rightarrow> bool" where
  "EFI_ERROR (EFI_ERR _) = True"
| "EFI_ERROR _ = False"

abbreviation EFI_INVALID_PARAMETER :: efi_status where "EFI_INVALID_PARAMETER \<equiv> EFI_ERR 2"
abbreviation EFI_UNSUPPORTED :: efi_status where "EFI_UNSUPPORTED \<equiv> EFI_ERR 3"
abbreviation EFI_BAD_BUFFER_SIZE :: efi_status where "EFI_BAD_BUFFER_SIZE \<equiv> EFI_ERR 4"
abbreviation EFI_BUFFER_TOO_SMALL :: efi_status where "EFI_BUFFER_TOO_SMALL \<equiv> EFI_ERR 5"
abbreviation EFI_NOT_READY :: efi_status where "EFI_NOT_READY \<equiv> EFI_ERR 6"
abbreviation EFI_DEVICE_ERROR :: efi_status where "EFI_DEVICE_ERROR \<equiv> EFI_ERR 7"
abbreviation EFI_OUT_OF_RESOURCES :: efi_status where "EFI_OUT_OF_RESOURCES \<equiv> EFI_ERR 9"
abbreviation EFI_NO_MEDIA :: efi_status where "EFI_NO_MEDIA \<equiv> EFI_ERR 12"
abbreviation EFI_NOT_FOUND :: efi_status where "EFI_NOT_FOUND \<equiv> EFI_ERR 14"
abbreviation EFI_TIMEOUT :: efi_status where "EFI_TIMEOUT \<equiv> EFI_ERR 18"
abbreviation EFI_ALREADY_STARTED :: efi_status where "EFI_ALREADY_STARTED \<equiv> EFI_ERR 20"
abbreviation EFI_WARN_DELETE_FAILURE :: efi_status where "EFI_WARN_DELETE_FAILURE \<equiv> EFI_WARN 2"

lemma EFI_ERROR_iff: "EFI_ERROR s \<longleftrightarrow> (\<exists>c. s = EFI_ERR c)"
  by (cases s) auto

lemma EFI_ERROR_not_success [dest]: "EFI_ERROR s \<Longrightarrow> s \<noteq> EFI_SUCCESS"
  by (cases s) auto

section \<open>GUIDs and little-endian layout\<close>

record efi_guid =
  Data1 :: u32
  Data2 :: u16
  Data3 :: u16
  Data4 :: "u8 list"

definition le16 :: "u16 \<Rightarrow> u8 list" where
  "le16 w = [ucast w, ucast (drop_bit 8 w)]"

definition le32 :: "u32 \<Rightarrow> u8 list" where
  "le32 w = [ucast w, ucast (drop_bit 8 w), ucast (drop_bit 16 w), ucast (drop_bit 24 w)]"

definition guid_bytes :: "efi_guid \<Rightarrow> u8 list" where
  "guid_bytes g = le32 (Data1 g) @ le16 (Data2 g) @ le16 (Data3 g) @ Data4 g"

definition from_le16 :: "u8 \<Rightarrow> u8 \<Rightarrow> u16" where
  "from_le16 a b = ucast a OR push_bit 8 (ucast b)"

definition from_le32 :: "u8 \<Rightarrow> u8 \<Rightarrow> u8 \<Rightarrow> u8 \<Rightarrow> u32" where
  "from_le32 a b c d =
     ucast a OR push_bit 8 (ucast b) OR push_bit 16 (ucast c) OR push_bit 24 (ucast d)"

text \<open>A byte read through a pointer into a buffer; None is a read past its end.\<close>

definition byte_at :: "'a list \<Rightarrow> nat \<Rightarrow> 'a option" where
  "byte_at buf i = (if i < length buf then Some (buf ! i) else None)"

lemma byte_at_in [simp]: "i < length buf \<Longrightarrow> byte_at buf i = Some (buf ! i)"
  by (simp add: byte_at_def)

lemma length_le32 [simp]: "length (le32 w) = 4"
  by (simp add: le32_def)

lemma length_le16 [simp]: "length (le16 w) = 2"
  by (simp add: le16_def)

lemma from_le16_le16 [simp]: "from_le16 (ucast w) (ucast (drop_bit 8 w)) = w"
  unfolding from_le16_def by (rule bit_word_eqI) (auto simp: bit_simps)

lemma from_le32_le32 [simp]:
  "from_le32 (ucast w) (ucast (drop_bit 8 w)) (ucast (drop_bit 16 w)) (ucast (drop_bit 24 w)) = w"
proof (rule bit_word_eqI)
  fix n :: nat
  assume "n < LENGTH(32)"
  then consider "n < 8" | "8 \<le> n" "n < 16" | "16 \<le> n" "n < 24" | "24 \<le> n" "n < 32"
    by fastforce
  then show "bit (from_le32 (ucast w) (ucast (drop_bit 8 w)) (ucast (drop_bit 16 w))
      (ucast (drop_bit 24 w))) n = bit w n"
    by cases (auto simp: from_le32_def bit_simps)
qed

lemma bit_u8_ge [simp]: "8 \<le> n \<Longrightarrow> \<not> bit (a :: u8) n"
  using bit_imp_le_length [of a n] by auto

lemma unat_ucast_up [simp]:
  "unat (ucast (w :: u16) :: u32) = unat w"
  "unat (ucast (b :: u8) :: u32) = unat b"
  using unsigned_less [of w, where ?'a = nat] unsigned_less [of b, where ?'a = nat]
  by (simp_all add: unsigned_ucast_eq take_bit_nat_eq_self)

lemma sint_small: "unat (w :: u32) < 2 ^ 31 \<Longrightarrow> sint w = int (unat w)"
proof -
  assume "unat w < 2 ^ 31"
  then have "int (unat w) < int (2 ^ 31)"
    by (simp only: of_nat_less_iff)
  then show ?thesis
    using signed_take_bit_int_eq_self [of 31 "uint w"] unsigned_greater_eq [of w, where ?'a = int]
    by (simp add: sint_uint)
qed

lemma take_Suc_drop: "i < length xs \<Longrightarrow> take (Suc n) (drop i xs) = xs ! i # take n (drop (Suc i) xs)"
  by (simp flip: Cons_nth_drop_Suc)

lemma peel_left: "xs @ e # ys = p @ m \<Longrightarrow> e \<notin> set p \<Longrightarrow> \<exists>u. xs = p @ u \<and> m = u @ e # ys"
proof (induction p arbitrary: xs)
  case (Cons a p)
  then show ?case by (cases xs) auto
qed auto

lemma peel_right: "u @ e # ys = m @ q \<Longrightarrow> e \<notin> set q \<Longrightarrow> \<exists>v. m = u @ e # v"
proof (induction u arbitrary: m)
  case Nil
  then show ?case by (cases m) auto
next
  case (Cons a u)
  then show ?case by (cases m) auto
qed

lemma le16_from_le16: "le16 (from_le16 a b) = [a, b]"
  unfolding le16_def from_le16_def
  by (auto intro!: bit_word_eqI simp: bit_simps)

lemma le32_from_le32: "le32 (from_le32 a b c d) = [a, b, c, d]"
  unfolding le32_def from_le32_def
  by (auto intro!: bit_word_eqI simp: bit_simps)

lemma from_le16_eq_iff: "from_le16 a b = w \<longleftrightarrow> [a, b] = le16 w"
  using le16_from_le16 [of a b] by (auto simp: le16_def)

lemma from_le32_eq_iff: "from_le32 a b c d = w \<longleftrightarrow> [a, b, c, d] = le32 w"
  using le32_from_le32 [of a b c d] by (auto simp: le32_def)

section \<open>Interaction with the environment\<close>

type_synonym ('e, 'a) prog = "('e list, 'a) state"

definition ask :: "('e list \<Rightarrow> 'r) \<Rightarrow> ('r \<Rightarrow> 'e) \<Rightarrow> ('e, 'r) prog" where
  "ask answer event = State (\<lambda>t. (answer t, t @ [event (answer t)]))"

definition tell :: "'e \<Rightarrow> ('e, unit) prog" where
  "tell e = State (\<lambda>t. ((), t @ [e]))"

lemma run_ask [simp, run_simps]: "run_state (ask f e) t = (f t, t @ [e (f t)])"
  by (simp add: ask_def)

lemma run_tell [simp, run_simps]: "run_state (tell e) t = ((), t @ [e])"
  by (simp add: tell_def)

text \<open>
  \<^term>\<open>yields m Q\<close>: in whatever trace \<^term>\<open>m\<close> is run and whatever it is answered, it ends,
  only appends to the trace, and \<^term>\<open>Q\<close> holds of its result and of the events it appended.
\<close>

definition yields :: "('e, 'a) prog \<Rightarrow> ('a \<Rightarrow> 'e list \<Rightarrow> bool) \<Rightarrow> bool" where
  "yields m Q \<longleftrightarrow> (\<forall>t. \<exists>r es. run_state m t = (r, t @ es) \<and> Q r es)"

named_theorems yields_intros \<open>one introduction rule per combinator\<close>

lemma yieldsD:
  assumes "yields m Q"
  obtains r es where "run_state m t = (r, t @ es)" "Q r es"
  using assms unfolding yields_def by blast

lemma yields_run: "yields m Q \<Longrightarrow> run_state m t = (r, t @ es) \<Longrightarrow> Q r es"
  unfolding yields_def by (metis prod.inject same_append_eq)

lemma yields_return [yields_intros]: "Q r [] \<Longrightarrow> yields (State_Monad.return r) Q"
  by (simp add: yields_def)

lemma yields_ask [yields_intros]: "(\<And>r. Q r [ev r]) \<Longrightarrow> yields (ask f ev) Q"
  by (simp add: yields_def)

lemma yields_tell [yields_intros]: "Q () [e] \<Longrightarrow> yields (tell e) Q"
  by (simp add: yields_def)

lemma yields_bind:
  assumes "yields m P" and "\<And>r es. P r es \<Longrightarrow> yields (f r) (\<lambda>r' es'. Q r' (es @ es'))"
  shows "yields (State_Monad.bind m f) Q"
proof (unfold yields_def, rule allI)
  fix t
  obtain r es where m: "run_state m t = (r, t @ es)" "P r es"
    using assms(1) by (rule yieldsD)
  obtain r' es' where "run_state (f r) (t @ es) = (r', (t @ es) @ es')" "Q r' (es @ es')"
    using assms(2) [OF m(2)] by (rule yieldsD)
  with m show "\<exists>r es. run_state (State_Monad.bind m f) t = (r, t @ es) \<and> Q r es"
    by (auto intro!: exI [of _ "es @ es'"])
qed

lemma yields_ask_bind [yields_intros]:
  assumes "\<And>r. yields (f r) (\<lambda>r' es. Q r' (ev r # es))"
  shows "yields (State_Monad.bind (ask g ev) f) Q"
  using assms by (intro yields_bind [where P = "\<lambda>r es. es = [ev r]"]) (auto intro: yields_ask)

lemma yields_tell_bind [yields_intros]:
  assumes "yields (f ()) (\<lambda>r' es. Q r' (e # es))"
  shows "yields (State_Monad.bind (tell e) f) Q"
  using assms by (intro yields_bind [where P = "\<lambda>r es. es = [e]"]) (auto intro: yields_tell)

lemma yields_weaken: "yields m P \<Longrightarrow> (\<And>r es. P r es \<Longrightarrow> Q r es) \<Longrightarrow> yields m Q"
  unfolding yields_def by metis

lemma yields_conj: "yields m P \<Longrightarrow> yields m Q \<Longrightarrow> yields m (\<lambda>r es. P r es \<and> Q r es)"
  unfolding yields_def by (metis prod.inject same_append_eq)

lemma yields_if [yields_intros]:
  "(b \<Longrightarrow> yields m Q) \<Longrightarrow> (\<not> b \<Longrightarrow> yields n Q) \<Longrightarrow> yields (if b then m else n) Q"
  by simp

lemma yields_option [yields_intros]:
  "(x = None \<Longrightarrow> yields m Q) \<Longrightarrow> (\<And>y. x = Some y \<Longrightarrow> yields (f y) Q) \<Longrightarrow>
   yields (case x of None \<Rightarrow> m | Some y \<Rightarrow> f y) Q"
  by (cases x) auto

lemma yields_prod [yields_intros]:
  "(\<And>a b. x = (a, b) \<Longrightarrow> yields (f a b) Q) \<Longrightarrow> yields (case x of (a, b) \<Rightarrow> f a b) Q"
  by (cases x) auto

lemma yields_let [yields_intros]: "yields (f x) Q \<Longrightarrow> yields (let y = x in f y) Q"
  by simp

text \<open>A step whose answers are known to satisfy a property, or to be constant.\<close>

lemma yields_ask_from:
  assumes "\<And>t. P (f t)" "\<And>r. P r \<Longrightarrow> yields (k r) (\<lambda>r' es. Q r' (ev r # es))"
  shows "yields (State_Monad.bind (ask f ev) k) Q"
  unfolding yields_def
proof
  fix t
  obtain r es where "run_state (k (f t)) (t @ [ev (f t)]) = (r, (t @ [ev (f t)]) @ es)" "Q r (ev (f t) # es)"
    by (rule yieldsD [OF assms(2) [OF assms(1)]])
  then show "\<exists>r es. run_state (State_Monad.bind (ask f ev) k) t = (r, t @ es) \<and> Q r es"
    by auto
qed

lemma yields_ask_const:
  "(\<And>t. f t = v) \<Longrightarrow> yields (k v) (\<lambda>r es. Q r (ev v # es)) \<Longrightarrow> yields (State_Monad.bind (ask f ev) k) Q"
  by (rule yields_ask_from [where P = "\<lambda>r. r = v"]) auto

text \<open>A compound first step, taken apart before its parts are known.\<close>

named_theorems yields_flat \<open>one rule per combinator in the first position of a bind\<close>

lemma yields_bind_if [yields_flat]:
  "(b \<Longrightarrow> yields (State_Monad.bind m f) Q) \<Longrightarrow> (\<not> b \<Longrightarrow> yields (State_Monad.bind n f) Q) \<Longrightarrow>
   yields (State_Monad.bind (if b then m else n) f) Q"
  by simp

lemma yields_bind_option [yields_flat]:
  "(x = None \<Longrightarrow> yields (State_Monad.bind m f) Q) \<Longrightarrow> (\<And>y. x = Some y \<Longrightarrow> yields (State_Monad.bind (g y) f) Q) \<Longrightarrow>
   yields (State_Monad.bind (case x of None \<Rightarrow> m | Some y \<Rightarrow> g y) f) Q"
  by (cases x) auto

lemma yields_bind_prod [yields_flat]:
  "(\<And>a b. x = (a, b) \<Longrightarrow> yields (State_Monad.bind (g a b) f) Q) \<Longrightarrow> yields (State_Monad.bind (case x of (a, b) \<Rightarrow> g a b) f) Q"
  by (cases x) auto

lemma yields_bind_return [yields_flat]: "yields (f r) Q \<Longrightarrow> yields (State_Monad.bind (State_Monad.return r) f) Q"
  by (simp add: yields_def)

lemma yields_bind_bind [yields_flat]:
  "yields (State_Monad.bind m (\<lambda>r. State_Monad.bind (g r) f)) Q \<Longrightarrow> yields (State_Monad.bind (State_Monad.bind m g) f) Q"
  by (simp add: yields_def split: prod.splits)

text \<open>
  Local justification: every event of a trace stands in the relation \<^term>\<open>J\<close> to the event
  immediately before it (None at the beginning).
\<close>

fun justified :: "('e option \<Rightarrow> 'e \<Rightarrow> bool) \<Rightarrow> 'e option \<Rightarrow> 'e list \<Rightarrow> bool" where
  "justified J p [] = True"
| "justified J p (e # es) = (J p e \<and> justified J (Some e) es)"

lemma justified_mono:
  assumes "\<And>p e. J None e \<Longrightarrow> J p e"
  shows "justified J None es \<Longrightarrow> justified J p es"
  using assms by (cases es) auto

lemma justified_append:
  assumes "\<And>p e. J None e \<Longrightarrow> J p e"
  shows "justified J p xs \<Longrightarrow> justified J None ys \<Longrightarrow> justified J p (xs @ ys)"
  by (induction xs arbitrary: p) (auto intro: justified_mono assms)

lemma justified_free: "(\<And>p e. e \<in> set es \<Longrightarrow> J p e) \<Longrightarrow> justified J p es"
  by (induction es arbitrary: p) auto

lemma justifiedD: "justified J p (before @ e # after) \<Longrightarrow>
   J (if before = [] then p else Some (last before)) e"
  by (induction before arbitrary: p) (auto split: if_splits)

end
