(* ===== verification/CapsuleParse.thy ===== *)
theory CapsuleParse
  imports NucPrelude
begin

text \<open>
  NucCapsuleParse.c: the capsule-header and file-name logic that decides which bytes of the
  drop box are handed to the firmware-update service.  The bytes come from removable media, so
  every read of the buffer is checked here: a read outside the buffer has the value None, and
  the theorems show that it never happens.  Lengths and offsets are natural numbers: the only
  sums the code forms are an offset below 64 KiB plus a header size below 4 KiB, far from the
  wrap-around of a 64-bit UINTN.
\<close>

section \<open>Definitions\<close>

definition mFmpCapsuleGuid :: efi_guid where
  "mFmpCapsuleGuid = \<lparr>Data1 = 0x6dcbd5ed, Data2 = 0xe82d, Data3 = 0x4c44,
     Data4 = [0xbd, 0xa1, 0x71, 0x94, 0x19, 0x9a, 0xd9, 0x2a]\<rparr>"

definition CAPSULE_OFF_GUID :: nat where "CAPSULE_OFF_GUID = 0"
definition CAPSULE_OFF_HEADER_SIZE :: nat where "CAPSULE_OFF_HEADER_SIZE = 16"
definition CAPSULE_OFF_FLAGS :: nat where "CAPSULE_OFF_FLAGS = 20"
definition CAPSULE_OFF_IMAGE_SIZE :: nat where "CAPSULE_OFF_IMAGE_SIZE = 24"
definition CAPSULE_MIN_HEADER :: nat where "CAPSULE_MIN_HEADER = 28"
definition FMP_PAYLOAD_SIGNATURE :: u32 where "FMP_PAYLOAD_SIGNATURE = 0x3153534D"
definition FMP_PAYLOAD_MIN_HEADER :: nat where "FMP_PAYLOAD_MIN_HEADER = 16"
definition FMP_PAYLOAD_MAX_HEADER :: nat where "FMP_PAYLOAD_MAX_HEADER = 4096"
definition FMP_PAYLOAD_SEARCH_LIMIT :: nat where "FMP_PAYLOAD_SEARCH_LIMIT = 64 * 1024"
definition CAPSULE_FLAGS_PERSIST_ACROSS_RESET :: u32 where
  "CAPSULE_FLAGS_PERSIST_ACROSS_RESET = 0x00010000"

lemmas capsule_consts =
  CAPSULE_OFF_GUID_def CAPSULE_OFF_HEADER_SIZE_def CAPSULE_OFF_FLAGS_def
  CAPSULE_OFF_IMAGE_SIZE_def CAPSULE_MIN_HEADER_def FMP_PAYLOAD_SIGNATURE_def
  FMP_PAYLOAD_MIN_HEADER_def FMP_PAYLOAD_MAX_HEADER_def FMP_PAYLOAD_SEARCH_LIMIT_def
  CAPSULE_FLAGS_PERSIST_ACROSS_RESET_def

definition ReadLe32 :: "u8 list \<Rightarrow> nat \<Rightarrow> u32 option" where
  "ReadLe32 buf p = do {
     a \<leftarrow> byte_at buf p;
     b \<leftarrow> byte_at buf (p + 1);
     c \<leftarrow> byte_at buf (p + 2);
     d \<leftarrow> byte_at buf (p + 3);
     Some (ucast a OR push_bit 8 (ucast b) OR push_bit 16 (ucast c) OR push_bit 24 (ucast d))
   }"

fun data4_equal :: "u8 list \<Rightarrow> u8 list \<Rightarrow> nat \<Rightarrow> nat \<Rightarrow> bool" where
  "data4_equal xs ys i 0 = True"
| "data4_equal xs ys i (Suc n) = (if xs ! i \<noteq> ys ! i then False else data4_equal xs ys (Suc i) n)"

fun NucCapsuleIsFmpCapsule :: "efi_guid option \<Rightarrow> bool" where
  "NucCapsuleIsFmpCapsule None = False"
| "NucCapsuleIsFmpCapsule (Some Guid) =
     (if Data1 Guid \<noteq> Data1 mFmpCapsuleGuid \<or> Data2 Guid \<noteq> Data2 mFmpCapsuleGuid \<or>
         Data3 Guid \<noteq> Data3 mFmpCapsuleGuid
      then False
      else data4_equal (Data4 Guid) (Data4 mFmpCapsuleGuid) 0 8)"

fun read_bytes :: "u8 list \<Rightarrow> nat \<Rightarrow> nat \<Rightarrow> u8 list option" where
  "read_bytes buf p 0 = Some []"
| "read_bytes buf p (Suc n) = do {
     b \<leftarrow> byte_at buf p;
     bs \<leftarrow> read_bytes buf (Suc p) n;
     Some (b # bs)
   }"

definition read_guid :: "u8 list \<Rightarrow> efi_guid option" where
  "read_guid Buf = do {
     d1 \<leftarrow> ReadLe32 Buf CAPSULE_OFF_GUID;
     b4 \<leftarrow> byte_at Buf 4;
     b5 \<leftarrow> byte_at Buf 5;
     b6 \<leftarrow> byte_at Buf 6;
     b7 \<leftarrow> byte_at Buf 7;
     d4 \<leftarrow> read_bytes Buf 8 8;
     Some \<lparr>Data1 = d1, Data2 = ucast b4 OR push_bit 8 (ucast b5),
           Data3 = ucast b6 OR push_bit 8 (ucast b7), Data4 = d4\<rparr>
   }"

text \<open>
  The status, and what is written through the two out parameters (None: they are left alone).
  The booleans say whether the out pointers are non-NULL; a NULL buffer is None.
\<close>

definition NucCapsuleValidateHeader ::
  "u8 list option \<Rightarrow> nat \<Rightarrow> bool \<Rightarrow> bool \<Rightarrow> (efi_status \<times> (nat \<times> u32) option) option" where
  "NucCapsuleValidateHeader BufPtr Len ImageSize Flags =
     (case BufPtr of
        None \<Rightarrow> Some (EFI_INVALID_PARAMETER, None)
      | Some Buf \<Rightarrow>
        if \<not> ImageSize \<or> \<not> Flags then Some (EFI_INVALID_PARAMETER, None)
        else if Len < CAPSULE_MIN_HEADER then Some (EFI_BAD_BUFFER_SIZE, None)
        else do {
          Guid \<leftarrow> read_guid Buf;
          if \<not> NucCapsuleIsFmpCapsule (Some Guid) then Some (EFI_UNSUPPORTED, None)
          else do {
            HeaderSize \<leftarrow> ReadLe32 Buf CAPSULE_OFF_HEADER_SIZE;
            CapsuleFlags \<leftarrow> ReadLe32 Buf CAPSULE_OFF_FLAGS;
            CapsuleImageSize \<leftarrow> ReadLe32 Buf CAPSULE_OFF_IMAGE_SIZE;
            if CapsuleFlags AND CAPSULE_FLAGS_PERSIST_ACROSS_RESET \<noteq> 0
            then Some (EFI_UNSUPPORTED, None)
            else if unat HeaderSize < CAPSULE_MIN_HEADER \<or> Len < unat HeaderSize
            then Some (EFI_BAD_BUFFER_SIZE, None)
            else if CapsuleImageSize < HeaderSize \<or> Len < unat CapsuleImageSize
            then Some (EFI_BAD_BUFFER_SIZE, None)
            else Some (EFI_SUCCESS, Some (unat CapsuleImageSize, CapsuleFlags))
          }
        })"

text \<open>The search loop, from \<^term>\<open>Offset\<close> on: FALSE is Some None, TRUE carries the version.\<close>

function payload_scan :: "u8 list \<Rightarrow> nat \<Rightarrow> nat \<Rightarrow> nat \<Rightarrow> u32 option option" where
  "payload_scan Buf Len Limit Offset =
     (if Limit < Offset + FMP_PAYLOAD_MIN_HEADER then Some None
      else do {
        sig \<leftarrow> ReadLe32 Buf Offset;
        if sig \<noteq> FMP_PAYLOAD_SIGNATURE then payload_scan Buf Len Limit (Offset + 1)
        else do {
          HeaderSize \<leftarrow> ReadLe32 Buf (Offset + 4);
          if unat HeaderSize < FMP_PAYLOAD_MIN_HEADER \<or> FMP_PAYLOAD_MAX_HEADER \<le> unat HeaderSize
             \<or> Len \<le> Offset + unat HeaderSize
          then payload_scan Buf Len Limit (Offset + 1)
          else do {
            v \<leftarrow> ReadLe32 Buf (Offset + 8);
            Some (Some v)
          }
        }
      })"
  by pat_completeness auto
termination
  by (relation "measure (\<lambda>(_, _, Limit, Offset). Limit - Offset)")
    (auto simp: FMP_PAYLOAD_MIN_HEADER_def)

declare payload_scan.simps [simp del]

definition NucCapsuleGetPayloadVersion :: "u8 list option \<Rightarrow> nat \<Rightarrow> bool \<Rightarrow> u32 option option" where
  "NucCapsuleGetPayloadVersion BufPtr Len FwVersion =
     (case BufPtr of
        None \<Rightarrow> Some None
      | Some Buf \<Rightarrow>
        if \<not> FwVersion \<or> Len < FMP_PAYLOAD_MIN_HEADER then Some None
        else payload_scan Buf Len
          (if Len < FMP_PAYLOAD_SEARCH_LIMIT then Len else FMP_PAYLOAD_SEARCH_LIMIT) 0)"

text \<open>The CHAR16 literal of the extension, and the characters the code compares with.\<close>

definition Ext :: "u16 list" where
  "Ext = [0x2e, 0x63, 0x61, 0x70]"

fun StrLen :: "u16 list \<Rightarrow> nat option" where
  "StrLen [] = None"
| "StrLen (c # cs) = (if c = 0 then Some 0 else map_option Suc (StrLen cs))"

definition lower16 :: "u16 \<Rightarrow> u16" where
  "lower16 C = (if 0x41 \<le> C \<and> C \<le> 0x5a then C + (0x61 - 0x41) else C)"

fun suffix_loop :: "u16 list \<Rightarrow> nat \<Rightarrow> nat \<Rightarrow> nat \<Rightarrow> bool option" where
  "suffix_loop Name Len Index 0 = Some True"
| "suffix_loop Name Len Index (Suc n) = do {
     C \<leftarrow> byte_at Name (Len - 4 + Index);
     if lower16 C \<noteq> Ext ! Index then Some False else suffix_loop Name Len (Suc Index) n
   }"

definition NucCapsuleIsCandidateFile :: "u16 list option \<Rightarrow> bool option" where
  "NucCapsuleIsCandidateFile NamePtr =
     (case NamePtr of
        None \<Rightarrow> Some False
      | Some Name \<Rightarrow> do {
          Len \<leftarrow> StrLen Name;
          if Len = 1 \<and> Name ! 0 = 0x2e then Some False
          else if Len = 2 \<and> Name ! 0 = 0x2e \<and> Name ! 1 = 0x2e then Some False
          else if Len < 4 then Some False
          else suffix_loop Name Len 0 4
        })"

section \<open>Reads inside the buffer\<close>

definition u32_at :: "u8 list \<Rightarrow> nat \<Rightarrow> u32" where
  "u32_at buf p = from_le32 (buf ! p) (buf ! (p + 1)) (buf ! (p + 2)) (buf ! (p + 3))"

lemma ReadLe32_in [simp]: "p + 4 \<le> length buf \<Longrightarrow> ReadLe32 buf p = Some (u32_at buf p)"
  by (simp add: ReadLe32_def u32_at_def from_le32_def)

lemma read_bytes_in [simp]: "p + n \<le> length buf \<Longrightarrow> read_bytes buf p n = Some (take n (drop p buf))"
  by (induction buf p n rule: read_bytes.induct) (auto simp: take_Suc_drop)

lemma data4_equal_iff:
  "i + n \<le> length xs \<Longrightarrow> i + n \<le> length ys \<Longrightarrow>
   data4_equal xs ys i n \<longleftrightarrow> take n (drop i xs) = take n (drop i ys)"
  by (induction xs ys i n rule: data4_equal.induct) (auto simp: take_Suc_drop)

lemma StrLen_nul [simp]: "0 \<notin> set s \<Longrightarrow> StrLen (s @ 0 # rest) = Some (length s)"
  by (induction s) auto

lemma suffix_loop_in:
  "Len - 4 + Index + n \<le> length Name \<Longrightarrow> Index + n \<le> 4 \<Longrightarrow>
   suffix_loop Name Len Index n =
     Some (map lower16 (take n (drop (Len - 4 + Index) Name)) = take n (drop Index Ext))"
proof (induction n arbitrary: Index)
  case (Suc n)
  let ?i = "Len - 4 + Index"
  have i: "?i < length Name" "Index < length Ext"
    using Suc.prems by (auto simp: Ext_def)
  have "suffix_loop Name Len (Suc Index) n =
      Some (map lower16 (take n (drop (Suc ?i) Name)) = take n (drop (Suc Index) Ext))"
    using Suc.IH [of "Suc Index"] Suc.prems by simp
  with i show ?case
    by (simp add: take_Suc_drop)
qed simp

section \<open>Header validation\<close>

text \<open>What the driver promises to accept, stated on the bytes of the file.\<close>

definition capsule_ok :: "u8 list \<Rightarrow> nat \<Rightarrow> bool" where
  "capsule_ok Buf Len \<longleftrightarrow>
     28 \<le> Len \<and> take 16 Buf = guid_bytes mFmpCapsuleGuid \<and>
     \<not> bit (u32_at Buf 20) 16 \<and>
     28 \<le> unat (u32_at Buf 16) \<and> u32_at Buf 16 \<le> u32_at Buf 24 \<and> unat (u32_at Buf 24) \<le> Len"

lemma length_guid_mFmp: "length (Data4 mFmpCapsuleGuid) = 8"
  by (simp add: mFmpCapsuleGuid_def)

lemma take16_split:
  assumes "16 \<le> length Buf"
  shows "take 16 Buf = [Buf ! 0, Buf ! 1, Buf ! 2, Buf ! 3] @ [Buf ! 4, Buf ! 5] @ [Buf ! 6, Buf ! 7]
           @ take 8 (drop 8 Buf)"
proof (rule nth_equalityI)
  show "length (take 16 Buf) = length ([Buf ! 0, Buf ! 1, Buf ! 2, Buf ! 3] @ [Buf ! 4, Buf ! 5]
      @ [Buf ! 6, Buf ! 7] @ take 8 (drop 8 Buf))"
    using assms by simp
  fix i assume "i < length (take 16 Buf)"
  with assms show "take 16 Buf ! i = ([Buf ! 0, Buf ! 1, Buf ! 2, Buf ! 3] @ [Buf ! 4, Buf ! 5]
      @ [Buf ! 6, Buf ! 7] @ take 8 (drop 8 Buf)) ! i"
    by (auto simp: nth_append nth_Cons numeral_eq_Suc split: nat.splits)
qed

lemma read_guid_in:
  assumes "16 \<le> length Buf"
  shows "\<exists>Guid. read_guid Buf = Some Guid \<and>
    (NucCapsuleIsFmpCapsule (Some Guid) \<longleftrightarrow> take 16 Buf = guid_bytes mFmpCapsuleGuid)"
proof -
  let ?g = "\<lparr>Data1 = u32_at Buf 0, Data2 = from_le16 (Buf ! 4) (Buf ! 5),
              Data3 = from_le16 (Buf ! 6) (Buf ! 7), Data4 = take 8 (drop 8 Buf)\<rparr>"
  have "read_guid Buf = Some ?g"
    using assms by (simp add: read_guid_def CAPSULE_OFF_GUID_def from_le16_def)
  moreover have "NucCapsuleIsFmpCapsule (Some ?g) \<longleftrightarrow>
      [Buf ! 0, Buf ! 1, Buf ! 2, Buf ! 3] = le32 (Data1 mFmpCapsuleGuid) \<and>
      [Buf ! 4, Buf ! 5] = le16 (Data2 mFmpCapsuleGuid) \<and>
      [Buf ! 6, Buf ! 7] = le16 (Data3 mFmpCapsuleGuid) \<and>
      take 8 (drop 8 Buf) = Data4 mFmpCapsuleGuid"
    using assms
    by (simp only: NucCapsuleIsFmpCapsule.simps efi_guid.simps u32_at_def add_0
        from_le32_eq_iff from_le16_eq_iff) (auto simp: data4_equal_iff length_guid_mFmp)
  moreover have "take 16 Buf = guid_bytes mFmpCapsuleGuid \<longleftrightarrow>
      [Buf ! 0, Buf ! 1, Buf ! 2, Buf ! 3] = le32 (Data1 mFmpCapsuleGuid) \<and>
      [Buf ! 4, Buf ! 5] = le16 (Data2 mFmpCapsuleGuid) \<and>
      [Buf ! 6, Buf ! 7] = le16 (Data3 mFmpCapsuleGuid) \<and>
      take 8 (drop 8 Buf) = Data4 mFmpCapsuleGuid"
    unfolding take16_split [OF assms] guid_bytes_def
    by (subst append_eq_append_conv, simp)+ simp
  ultimately show ?thesis by blast
qed

lemma persist_flag_bit: "f AND CAPSULE_FLAGS_PERSIST_ACROSS_RESET \<noteq> 0 \<longleftrightarrow> bit f 16"
  using and_exp_eq_0_iff_not_bit [of f 16]
  by (simp add: CAPSULE_FLAGS_PERSIST_ACROSS_RESET_def)

lemma validate_header_eq:
  assumes "Len \<le> length Buf"
  shows "NucCapsuleValidateHeader (Some Buf) Len True True =
    Some (if capsule_ok Buf Len then (EFI_SUCCESS, Some (unat (u32_at Buf 24), u32_at Buf 20))
          else if 28 \<le> Len \<and> (take 16 Buf \<noteq> guid_bytes mFmpCapsuleGuid \<or> bit (u32_at Buf 20) 16)
          then (EFI_UNSUPPORTED, None)
          else (EFI_BAD_BUFFER_SIZE, None))"
proof (cases "28 \<le> Len")
  case True
  with assms obtain Guid where "read_guid Buf = Some Guid"
    "NucCapsuleIsFmpCapsule (Some Guid) \<longleftrightarrow> take 16 Buf = guid_bytes mFmpCapsuleGuid"
    using read_guid_in [of Buf] by auto
  with True assms show ?thesis
    by (auto simp: NucCapsuleValidateHeader_def capsule_ok_def persist_flag_bit not_less word_le_nat_alt
        word_less_nat_alt
        CAPSULE_MIN_HEADER_def CAPSULE_OFF_HEADER_SIZE_def CAPSULE_OFF_FLAGS_def
        CAPSULE_OFF_IMAGE_SIZE_def simp del: NucCapsuleIsFmpCapsule.simps)
qed (simp add: NucCapsuleValidateHeader_def capsule_ok_def CAPSULE_MIN_HEADER_def)

lemma validate_header_total:
  "\<exists>s outs. NucCapsuleValidateHeader (Some c) (length c) True True = Some (s, outs) \<and>
     (EFI_ERROR s \<or> capsule_ok c (length c))"
  by (simp add: validate_header_eq)

text \<open>
  C14: Header validation, as coded, succeeds exactly for an FMP capsule without the persist flag whose sizes
  fit, whatever its other flags, and then reports its size and flags; it answers EFI\_UNSUPPORTED for any other
  GUID and for the persist flag, EFI\_BAD\_BUFFER\_SIZE for a truncated header or sizes that do not fit, writes the
  out parameters only on success, and never reads past the buffer.  The comment in NucCapsuleParse.h is
  narrower: it promises success for flagless capsules and EFI\_UNSUPPORTED for the persist flag only.
\<close>

theorem validate_header_spec:
  assumes "Len \<le> length Buf"
  shows "NucCapsuleValidateHeader (Some Buf) Len True True =
    Some (if capsule_ok Buf Len then (EFI_SUCCESS, Some (unat (u32_at Buf 24), u32_at Buf 20))
          else if 28 \<le> Len \<and> (take 16 Buf \<noteq> guid_bytes mFmpCapsuleGuid \<or> bit (u32_at Buf 20) 16)
          then (EFI_UNSUPPORTED, None)
          else (EFI_BAD_BUFFER_SIZE, None))"
  using assms by (rule validate_header_eq)

text \<open>A header as the capsule generator writes it.\<close>

definition mk_header :: "efi_guid \<Rightarrow> u32 \<Rightarrow> u32 \<Rightarrow> u32 \<Rightarrow> u8 list" where
  "mk_header g hs fl im = guid_bytes g @ le32 hs @ le32 fl @ le32 im"

lemma u32_at_le32: "length pre = p \<Longrightarrow> u32_at (pre @ le32 w @ post) p = w"
  by (auto simp: u32_at_def le32_def nth_append)

lemma mk_header_fields:
  assumes "length (Data4 g) = 8"
  shows "length (mk_header g hs fl im) = 28"
    and "u32_at (mk_header g hs fl im @ body) 16 = hs"
    and "u32_at (mk_header g hs fl im @ body) 20 = fl"
    and "u32_at (mk_header g hs fl im @ body) 24 = im"
    and "take 16 (mk_header g hs fl im @ body) = guid_bytes g"
  using assms u32_at_le32 [of "guid_bytes g" 16 hs "le32 fl @ le32 im @ body"]
    u32_at_le32 [of "guid_bytes g @ le32 hs" 20 fl "le32 im @ body"]
    u32_at_le32 [of "guid_bytes g @ le32 hs @ le32 fl" 24 im body]
  by (auto simp: mk_header_def guid_bytes_def)

theorem validate_header_spec_witness:
  "NucCapsuleValidateHeader (Some (mk_header mFmpCapsuleGuid 32 0 64 @ replicate 36 0)) 64 True True
     = Some (EFI_SUCCESS, Some (64, 0)) \<and>
   NucCapsuleValidateHeader (Some (mk_header mFmpCapsuleGuid 32 0x10000 64 @ replicate 36 0)) 64
     True True = Some (EFI_UNSUPPORTED, None)"
  using validate_header_spec [of 64 "mk_header mFmpCapsuleGuid 32 0 64 @ replicate 36 0"]
    validate_header_spec [of 64 "mk_header mFmpCapsuleGuid 32 0x10000 64 @ replicate 36 0"]
  by (simp only: mk_header_fields [OF length_guid_mFmp] capsule_ok_def length_append) simp

section \<open>The payload version\<close>

definition payload_here :: "u8 list \<Rightarrow> nat \<Rightarrow> nat \<Rightarrow> bool" where
  "payload_here Buf Len p \<longleftrightarrow> u32_at Buf p = FMP_PAYLOAD_SIGNATURE \<and>
     16 \<le> unat (u32_at Buf (p + 4)) \<and> unat (u32_at Buf (p + 4)) < 4096 \<and>
     p + unat (u32_at Buf (p + 4)) < Len"

lemma payload_scan_find:
  assumes "Limit \<le> length Buf"
  shows "payload_scan Buf Len Limit p =
    Some (map_option (\<lambda>q. u32_at Buf (q + 8)) (find (payload_here Buf Len) [p..<Limit - 15]))"
proof (induction "Limit - p" arbitrary: p rule: less_induct)
  case less
  show ?case
  proof (cases "Limit < p + 16")
    case False
    then have upt: "[p..<Limit - 15] = p # [p + 1..<Limit - 15]"
      by (simp add: upt_rec)
    have "payload_scan Buf Len Limit (p + 1) = Some (map_option (\<lambda>q. u32_at Buf (q + 8))
        (find (payload_here Buf Len) [p + 1..<Limit - 15]))"
      using False by (intro less) simp
    moreover have "ReadLe32 Buf p = Some (u32_at Buf p)"
      "ReadLe32 Buf (p + 4) = Some (u32_at Buf (p + 4))"
      "ReadLe32 Buf (p + 8) = Some (u32_at Buf (p + 8))"
      using False assms by simp_all
    ultimately show ?thesis
      unfolding upt payload_scan.simps [of Buf Len Limit p] find.simps payload_here_def
      using False
      by (simp add: FMP_PAYLOAD_MIN_HEADER_def FMP_PAYLOAD_MAX_HEADER_def not_less not_le del: upt.simps)
  qed (simp add: payload_scan.simps FMP_PAYLOAD_MIN_HEADER_def)
qed

lemma payload_version_eq:
  assumes "Len \<le> length Buf"
  shows "NucCapsuleGetPayloadVersion (Some Buf) Len True =
    Some (map_option (\<lambda>p. u32_at Buf (p + 8))
      (find (payload_here Buf Len) [0..<min Len 65536 - 15]))"
  using assms payload_scan_find [of "min Len 65536" Buf Len 0]
  by (auto simp: NucCapsuleGetPayloadVersion_def FMP_PAYLOAD_SEARCH_LIMIT_def
      FMP_PAYLOAD_MIN_HEADER_def min_def)

text \<open>
  C22: the version handed to the loop breaker is that of the first plausible FMP payload header
  within the first 64 KiB; there is none exactly when no offset has one, and the search never
  reads past the buffer.
\<close>

theorem payload_version_spec:
  assumes "Len \<le> length Buf"
  shows "NucCapsuleGetPayloadVersion (Some Buf) Len True =
    Some (map_option (\<lambda>p. u32_at Buf (p + 8))
      (find (payload_here Buf Len) [0..<min Len 65536 - 15]))"
  using assms by (rule payload_version_eq)

theorem payload_version_spec_witness:
  "NucCapsuleGetPayloadVersion
     (Some ([0xAA, 0xAA] @ le32 0x3153534D @ le32 16 @ le32 7 @ le32 1 @ [0])) 19 True = Some (Some 7)"
  using payload_version_spec [of 19 "[0xAA, 0xAA] @ le32 0x3153534D @ le32 16 @ le32 7 @ le32 1 @ [0]"]
  by (simp add: payload_here_def u32_at_def from_le32_def le32_def FMP_PAYLOAD_SIGNATURE_def upt_rec)

section \<open>Candidate file names\<close>

lemma StrLen_total: "\<exists>k \<le> length n. StrLen (n @ [0]) = Some k"
  by (induction n) auto

lemma candidate_file_total: "\<exists>b. NucCapsuleIsCandidateFile (Some (n @ [0])) = Some b"
proof -
  obtain k where k: "StrLen (n @ [0]) = Some k" "k \<le> length n"
    using StrLen_total [of n] by blast
  show ?thesis
    using k suffix_loop_in [of k 0 4 "n @ [0]"]
    by (cases "k < 4") (simp_all add: NucCapsuleIsCandidateFile_def exI [of Not False])
qed

lemma candidate_file_eq:
  assumes "0 \<notin> set s"
  shows "NucCapsuleIsCandidateFile (Some (s @ 0 # rest)) =
    Some (4 \<le> length s \<and> map lower16 (drop (length s - 4) s) = Ext)"
  using assms suffix_loop_in [of "length s" 0 4 "s @ 0 # rest"]
  by (auto simp: NucCapsuleIsCandidateFile_def Ext_def nth_append)

lemma lower16_letter: "lower16 c = 0x2e \<longleftrightarrow> c = 0x2e" "lower16 c = 0x63 \<longleftrightarrow> c = 0x63 \<or> c = 0x43"
  "lower16 c = 0x61 \<longleftrightarrow> c = 0x61 \<or> c = 0x41" "lower16 c = 0x70 \<longleftrightarrow> c = 0x70 \<or> c = 0x50"
  by (auto simp: lower16_def word_le_nat_alt word_unat_eq_iff unat_word_ariths)

lemma lower16_suffix:
  "map lower16 x = Ext \<longleftrightarrow> (\<exists>c a q. x = [0x2e, c, a, q] \<and> c \<in> {0x63, 0x43} \<and> a \<in> {0x61, 0x41} \<and> q \<in> {0x70, 0x50})"
  by (auto simp: Ext_def map_eq_Cons_conv lower16_letter)

text \<open>
  C37: A NUL-terminated file name is a candidate exactly when it has at least four characters and the last
  four are a dot and the letters of \<open>cap\<close>, each in either case; the dot entries never are.
\<close>

theorem candidate_file_spec:
  assumes "0 \<notin> set s"
  shows "NucCapsuleIsCandidateFile (Some (s @ 0 # rest)) =
    Some (\<exists>p c a q. s = p @ [0x2e, c, a, q] \<and> c \<in> {0x63, 0x43} \<and> a \<in> {0x61, 0x41} \<and> q \<in> {0x70, 0x50})"
proof -
  have "4 \<le> length s \<and> map lower16 (drop (length s - 4) s) = Ext \<longleftrightarrow> (\<exists>p x. s = p @ x \<and> map lower16 x = Ext)"
  proof (intro iffI; elim exE conjE)
    fix p x
    assume "s = p @ x" "map lower16 x = Ext"
    moreover from this(2) have "length x = 4"
      using length_map [of lower16 x] by (simp add: Ext_def)
    ultimately show "4 \<le> length s \<and> map lower16 (drop (length s - 4) s) = Ext" by simp
  qed (metis append_take_drop_id)
  also have "\<dots> \<longleftrightarrow> (\<exists>p c a q. s = p @ [0x2e, c, a, q] \<and> c \<in> {0x63, 0x43} \<and> a \<in> {0x61, 0x41} \<and> q \<in> {0x70, 0x50})"
    unfolding lower16_suffix by blast
  finally show ?thesis
    using candidate_file_eq [OF assms] by simp
qed

theorem candidate_file_spec_witness:
  "NucCapsuleIsCandidateFile (Some ([0x46, 0x57, 0x2E, 0x43, 0x41, 0x50] @ 0 # [])) = Some True \<and>
   NucCapsuleIsCandidateFile (Some ([0x63, 0x61, 0x70] @ 0 # [])) = Some False"
  using candidate_file_spec [of "[0x46, 0x57, 0x2E, 0x43, 0x41, 0x50]" "[]"]
    candidate_file_spec [of "[0x63, 0x61, 0x70]" "[]"]
  by simp

end
