(* ===== verification/CapsuleOnDisk.thy ===== *)
theory CapsuleOnDisk
  imports CapsuleParse
begin

text \<open>
  NucCapsuleOnDiskLib.c: the ReadyToBoot scan that applies the firmware capsules staged in
  \<open>EFI/UpdateCapsule\<close> of the attached volumes and cold-resets into them.

  Boot services, runtime services, the file system, the FMP instance and the pool allocator are
  the environment.  The record \<^emph>\<open>cod_env\<close> has one answer function per service; every call is
  appended to the trace with the part of the answer the code uses.  Console output (Print,
  DEBUG) is not part of the trace.  The one static variable, mNucCodScanDone, is passed
  explicitly.
\<close>

section \<open>The environment\<close>

type_synonym handle = nat
type_synonym fhandle = nat

datatype cod_var = OsIndications | OsIndicationsSupported

datatype cod_protocol = Usb2Hc | UsbIo | SimpleFileSystem | Fmp

datatype pool = CapsuleBuffer | HandleBuffer | InfoBuffer | NameBuffer | VersionNameBuffer | EntryBuffer

record fmp_info =
  DescriptorVersion :: u32
  DescriptorCount :: u8
  ImageTypeId :: efi_guid
  LastAttemptStatus :: u32
  LastAttemptVersion :: u32
  RunningVersion :: u32
  PackageVersionName :: bool

record file_info =
  fi_Attribute :: u64
  fi_FileSize :: u64
  fi_FileName :: "u16 list"

text \<open>
  One enumeration of a directory is the list of the answers of the successive calls; when the
  list is exhausted the next call sets NoFile.
\<close>

record dir_read =
  dr_Status :: efi_status
  dr_Info :: "file_info option"

text \<open>
  The events.  ReadDirectory stands for one enumeration by FileHandleFindFirstFile and
  FileHandleFindNextFile, with the answers; its flag says that the caller searches, that is, stops at the
  first staged entry.  Fault stands for a read outside a buffer.  A descriptor carries whether a package version
  name came with it.
\<close>

datatype cod_event =
    GetVariable cod_var efi_status u64
  | SetVariable cod_var u32 u64
  | LocateHandleBuffer cod_protocol efi_status "handle list"
  | HandleProtocol handle cod_protocol efi_status
  | ConnectController handle bool
  | UsbGetInterfaceDescriptor handle efi_status u8
  | OpenVolume handle efi_status fhandle
  | OpenFile fhandle "u16 list" u64 efi_status fhandle
  | ReadDirectory fhandle bool "dir_read list"
  | GetSize fhandle efi_status u64
  | AllocatePool pool bool
  | FreePool pool
  | ReadFile fhandle efi_status "u8 list"
  | GetImageInfoSize handle efi_status
  | GetImageInfo handle efi_status fmp_info
  | UpdateCapsule "u8 list" efi_status
  | DeleteFile fhandle efi_status
  | CloseFile fhandle
  | Stall nat
  | ResetSystemCold
  | Fault

type_synonym cod_trace = "cod_event list"

record cod_env =
  e_GetVariable :: "cod_trace \<Rightarrow> cod_var \<Rightarrow> efi_status \<times> u64"
  e_LocateHandleBuffer :: "cod_trace \<Rightarrow> cod_protocol \<Rightarrow> efi_status \<times> handle list"
  e_HandleProtocol :: "cod_trace \<Rightarrow> handle \<Rightarrow> cod_protocol \<Rightarrow> efi_status"
  e_UsbGetInterfaceDescriptor :: "cod_trace \<Rightarrow> handle \<Rightarrow> efi_status \<times> u8"
  e_OpenVolume :: "cod_trace \<Rightarrow> handle \<Rightarrow> efi_status \<times> fhandle"
  e_OpenFile :: "cod_trace \<Rightarrow> fhandle \<Rightarrow> u16 list \<Rightarrow> u64 \<Rightarrow> efi_status \<times> fhandle"
  e_ReadDirectory :: "cod_trace \<Rightarrow> fhandle \<Rightarrow> dir_read list"
  e_GetSize :: "cod_trace \<Rightarrow> fhandle \<Rightarrow> efi_status \<times> u64"
  e_AllocatePool :: "cod_trace \<Rightarrow> pool \<Rightarrow> nat \<Rightarrow> bool"
  e_ReadFile :: "cod_trace \<Rightarrow> fhandle \<Rightarrow> nat \<Rightarrow> efi_status \<times> u8 list"
  e_GetImageInfoSize :: "cod_trace \<Rightarrow> handle \<Rightarrow> efi_status \<times> nat"
  e_GetImageInfo :: "cod_trace \<Rightarrow> handle \<Rightarrow> efi_status \<times> fmp_info"
  e_UpdateCapsule :: "cod_trace \<Rightarrow> u8 list \<Rightarrow> efi_status"
  e_DeleteFile :: "cod_trace \<Rightarrow> fhandle \<Rightarrow> efi_status"

type_synonym 'a cod = "(cod_event, 'a) prog"

definition getVariable :: "cod_env \<Rightarrow> cod_var \<Rightarrow> (efi_status \<times> u64) cod" where
  "getVariable E v = ask (\<lambda>t. e_GetVariable E t v) (\<lambda>(s, d). GetVariable v s d)"

definition locateHandleBuffer :: "cod_env \<Rightarrow> cod_protocol \<Rightarrow> (efi_status \<times> handle list) cod" where
  "locateHandleBuffer E p =
     ask (\<lambda>t. e_LocateHandleBuffer E t p) (\<lambda>(s, hs). LocateHandleBuffer p s hs)"

definition handleProtocol :: "cod_env \<Rightarrow> handle \<Rightarrow> cod_protocol \<Rightarrow> efi_status cod" where
  "handleProtocol E h p = ask (\<lambda>t. e_HandleProtocol E t h p) (HandleProtocol h p)"

definition usbGetInterfaceDescriptor :: "cod_env \<Rightarrow> handle \<Rightarrow> (efi_status \<times> u8) cod" where
  "usbGetInterfaceDescriptor E h =
     ask (\<lambda>t. e_UsbGetInterfaceDescriptor E t h) (\<lambda>(s, c). UsbGetInterfaceDescriptor h s c)"

definition openVolume :: "cod_env \<Rightarrow> handle \<Rightarrow> (efi_status \<times> fhandle) cod" where
  "openVolume E h = ask (\<lambda>t. e_OpenVolume E t h) (\<lambda>(s, f). OpenVolume h s f)"

definition openFile :: "cod_env \<Rightarrow> fhandle \<Rightarrow> u16 list \<Rightarrow> u64 \<Rightarrow> (efi_status \<times> fhandle) cod" where
  "openFile E d n m = ask (\<lambda>t. e_OpenFile E t d n m) (\<lambda>(s, f). OpenFile d n m s f)"

definition readDirectory :: "cod_env \<Rightarrow> fhandle \<Rightarrow> bool \<Rightarrow> dir_read list cod" where
  "readDirectory E d Search = ask (\<lambda>t. e_ReadDirectory E t d) (ReadDirectory d Search)"

definition fileHandleGetSize :: "cod_env \<Rightarrow> fhandle \<Rightarrow> (efi_status \<times> u64) cod" where
  "fileHandleGetSize E f = ask (\<lambda>t. e_GetSize E t f) (\<lambda>(s, n). GetSize f s n)"

definition allocatePool :: "cod_env \<Rightarrow> pool \<Rightarrow> nat \<Rightarrow> bool cod" where
  "allocatePool E p n = ask (\<lambda>t. e_AllocatePool E t p n) (AllocatePool p)"

definition fileHandleRead :: "cod_env \<Rightarrow> fhandle \<Rightarrow> nat \<Rightarrow> (efi_status \<times> u8 list) cod" where
  "fileHandleRead E f n = ask (\<lambda>t. e_ReadFile E t f n) (\<lambda>(s, bs). ReadFile f s bs)"

definition getImageInfoSize :: "cod_env \<Rightarrow> handle \<Rightarrow> (efi_status \<times> nat) cod" where
  "getImageInfoSize E h = ask (\<lambda>t. e_GetImageInfoSize E t h) (\<lambda>(s, _). GetImageInfoSize h s)"

definition getImageInfo :: "cod_env \<Rightarrow> handle \<Rightarrow> (efi_status \<times> fmp_info) cod" where
  "getImageInfo E h = ask (\<lambda>t. e_GetImageInfo E t h) (\<lambda>(s, i). GetImageInfo h s i)"

definition updateCapsule :: "cod_env \<Rightarrow> u8 list \<Rightarrow> efi_status cod" where
  "updateCapsule E c = ask (\<lambda>t. e_UpdateCapsule E t c) (UpdateCapsule c)"

definition fileHandleDelete :: "cod_env \<Rightarrow> fhandle \<Rightarrow> efi_status cod" where
  "fileHandleDelete E f = ask (\<lambda>t. e_DeleteFile E t f) (DeleteFile f)"

lemmas cod_services =
  getVariable_def locateHandleBuffer_def handleProtocol_def usbGetInterfaceDescriptor_def
  openVolume_def openFile_def readDirectory_def fileHandleGetSize_def allocatePool_def
  fileHandleRead_def getImageInfoSize_def getImageInfo_def updateCapsule_def fileHandleDelete_def

section \<open>Operations\<close>

text \<open>The literal \<open>\EFI\UpdateCapsule\<close>.\<close>

definition CAPSULE_DIR_NAME :: "u16 list" where
  "CAPSULE_DIR_NAME = [0x5c, 0x45, 0x46, 0x49, 0x5c, 0x55, 0x70, 0x64, 0x61, 0x74, 0x65,
     0x43, 0x61, 0x70, 0x73, 0x75, 0x6c, 0x65]"

definition MAX_CAPSULE_BYTES :: nat where "MAX_CAPSULE_BYTES = 0x08000000"
definition MAX_CAPSULES :: nat where "MAX_CAPSULES = 8"
definition SUMMARY_STALL_US :: nat where "SUMMARY_STALL_US = 5 * 1000 * 1000"
definition FILE_CAPSULE_DELIVERY_SUPPORTED :: u64 where "FILE_CAPSULE_DELIVERY_SUPPORTED = 0x4"
definition USB_MASS_STORE_CLASS :: u8 where "USB_MASS_STORE_CLASS = 0x08"
definition EFI_FILE_MODE_READ :: u64 where "EFI_FILE_MODE_READ = 1"
definition EFI_FILE_MODE_WRITE :: u64 where "EFI_FILE_MODE_WRITE = 2"
definition EFI_FILE_DIRECTORY :: u64 where "EFI_FILE_DIRECTORY = 0x10"
definition EFI_VARIABLE_NON_VOLATILE :: u32 where "EFI_VARIABLE_NON_VOLATILE = 1"
definition EFI_VARIABLE_BOOTSERVICE_ACCESS :: u32 where "EFI_VARIABLE_BOOTSERVICE_ACCESS = 2"
definition EFI_VARIABLE_RUNTIME_ACCESS :: u32 where "EFI_VARIABLE_RUNTIME_ACCESS = 4"

definition mNucCapsuleFmpImageTypeId :: efi_guid where
  "mNucCapsuleFmpImageTypeId = \<lparr>Data1 = 0xd25f89e1, Data2 = 0x94ec, Data3 = 0x4533,
     Data4 = [0x80, 0xb9, 0x7f, 0x88, 0x55, 0xce, 0x0a, 0x94]\<rparr>"

definition AdvertiseFileCapsuleDelivery :: "cod_env \<Rightarrow> unit cod" where
  "AdvertiseFileCapsuleDelivery E = do {
     (Status, Data) \<leftarrow> getVariable E OsIndicationsSupported;
     let Supported = (if EFI_ERROR Status then 0 else Data);
     if EFI_ERROR Status \<and> Status \<noteq> EFI_NOT_FOUND then State_Monad.return ()
     else if Supported AND FILE_CAPSULE_DELIVERY_SUPPORTED \<noteq> 0 then State_Monad.return ()
     else tell (SetVariable OsIndicationsSupported
       (EFI_VARIABLE_BOOTSERVICE_ACCESS OR EFI_VARIABLE_RUNTIME_ACCESS)
       (Supported OR FILE_CAPSULE_DELIVERY_SUPPORTED))
   }"

definition ClearFileCapsuleIndication :: "cod_env \<Rightarrow> unit cod" where
  "ClearFileCapsuleIndication E = do {
     (Status, Data) \<leftarrow> getVariable E OsIndications;
     if EFI_ERROR Status \<or> Data AND FILE_CAPSULE_DELIVERY_SUPPORTED = 0 then State_Monad.return ()
     else tell (SetVariable OsIndications
       (EFI_VARIABLE_NON_VOLATILE OR EFI_VARIABLE_BOOTSERVICE_ACCESS OR EFI_VARIABLE_RUNTIME_ACCESS)
       (Data AND NOT FILE_CAPSULE_DELIVERY_SUPPORTED))
   }"

fun connect_host_controllers :: "handle list \<Rightarrow> unit cod" where
  "connect_host_controllers [] = State_Monad.return ()"
| "connect_host_controllers (h # hs) = do {
     tell (ConnectController h False);
     connect_host_controllers hs
   }"

fun connect_mass_storage :: "cod_env \<Rightarrow> handle list \<Rightarrow> unit cod" where
  "connect_mass_storage E [] = State_Monad.return ()"
| "connect_mass_storage E (h # hs) = do {
     Status \<leftarrow> handleProtocol E h UsbIo;
     if EFI_ERROR Status then connect_mass_storage E hs
     else do {
       (Status, InterfaceClass) \<leftarrow> usbGetInterfaceDescriptor E h;
       if EFI_ERROR Status \<or> InterfaceClass \<noteq> USB_MASS_STORE_CLASS then connect_mass_storage E hs
       else do {
         tell (ConnectController h True);
         connect_mass_storage E hs
       }
     }
   }"

definition ConnectUsbMassStorage :: "cod_env \<Rightarrow> unit cod" where
  "ConnectUsbMassStorage E = do {
     (Status, Handles) \<leftarrow> locateHandleBuffer E Usb2Hc;
     (if EFI_ERROR Status then State_Monad.return ()
      else do { connect_host_controllers Handles; tell (FreePool HandleBuffer) });
     (Status, Handles) \<leftarrow> locateHandleBuffer E UsbIo;
     if EFI_ERROR Status then State_Monad.return ()
     else do { connect_mass_storage E Handles; tell (FreePool HandleBuffer) }
   }"

definition OpenVolumeRoot :: "cod_env \<Rightarrow> handle \<Rightarrow> fhandle option cod" where
  "OpenVolumeRoot E FsHandle = do {
     Status \<leftarrow> handleProtocol E FsHandle SimpleFileSystem;
     if EFI_ERROR Status then State_Monad.return None
     else do {
       (Status, Root) \<leftarrow> openVolume E FsHandle;
       State_Monad.return (if EFI_ERROR Status then None else Some Root)
     }
   }"

text \<open>
  The condition both enumerations test on a directory entry.  The name field of a directory
  entry is the characters before its terminating NUL.
\<close>

definition staged_entry :: "file_info \<Rightarrow> bool option" where
  "staged_entry Info =
     (if fi_Attribute Info AND EFI_FILE_DIRECTORY \<noteq> 0 then Some False
      else if fi_FileSize Info = 0 then Some False
      else NucCapsuleIsCandidateFile (Some (fi_FileName Info @ [0])))"

fun find_staged :: "dir_read list \<Rightarrow> bool option" where
  "find_staged [] = Some False"
| "find_staged (r # rs) =
     (if EFI_ERROR (dr_Status r) then Some False
      else case dr_Info r of
             None \<Rightarrow> Some False
           | Some Info \<Rightarrow> (case staged_entry Info of
                 None \<Rightarrow> None
               | Some Found \<Rightarrow> if Found then Some True else find_staged rs))"

text \<open>
  The entry buffer of an enumeration.  FileHandleFindFirstFile allocates it and gives it back when it fails;
  FileHandleFindNextFile gives it back when it reaches the end of the directory, and only then.  A search
  asks for one more entry after the one it stops at, as the third expression of the for loop is evaluated before
  its condition.
\<close>

fun entry_left :: "bool \<Rightarrow> bool \<Rightarrow> dir_read list \<Rightarrow> bool" where
  "entry_left Search Held [] = False"
| "entry_left Search Held (r # rs) =
     (if EFI_ERROR (dr_Status r) then Held
      else case dr_Info r of
          None \<Rightarrow> False
        | Some Info \<Rightarrow> if Search \<and> staged_entry Info = Some True then rs \<noteq> [] else entry_left Search True rs)"

definition entry_buffer :: "bool \<Rightarrow> dir_read list \<Rightarrow> unit cod" where
  "entry_buffer Search Reads =
     (case Reads of
        [] \<Rightarrow> State_Monad.return ()
      | r # _ \<Rightarrow>
          if EFI_ERROR (dr_Status r) \<or> dr_Info r = None then State_Monad.return ()
          else do {
            tell (AllocatePool EntryBuffer True);
            if entry_left Search False Reads then State_Monad.return () else tell (FreePool EntryBuffer)
          })"

definition DropBoxHasCapsules :: "cod_env \<Rightarrow> fhandle \<Rightarrow> bool cod" where
  "DropBoxHasCapsules E Root = do {
     (Status, Dir) \<leftarrow> openFile E Root CAPSULE_DIR_NAME EFI_FILE_MODE_READ;
     if EFI_ERROR Status then State_Monad.return False
     else do {
       Reads \<leftarrow> readDirectory E Dir True;
       entry_buffer True Reads;
       case find_staged Reads of
         None \<Rightarrow> do { tell Fault; State_Monad.return False }
       | Some Found \<Rightarrow> do { tell (CloseFile Dir); State_Monad.return Found }
     }
   }"

definition LastAttemptStatusName :: "u32 \<Rightarrow> string" where
  "LastAttemptStatusName s =
     (if s = 0 then ''success''
      else if s = 1 then ''unsuccessful''
      else if s = 2 then ''insufficient resources''
      else if s = 3 then ''incorrect version''
      else if s = 4 then ''invalid image format''
      else if s = 5 then ''authentication error (capsule not signed with the certificate this firmware trusts)''
      else if s = 6 then ''AC power not connected''
      else if s = 7 then ''insufficient battery''
      else ''vendor/device specific'')"

text \<open>The test on a descriptor: this platform's image, with a meaningful last-attempt record.\<close>

definition platform_fmp :: "efi_status \<Rightarrow> fmp_info \<Rightarrow> bool" where
  "platform_fmp Status Info \<longleftrightarrow> \<not> EFI_ERROR Status \<and> 0 < DescriptorCount Info \<and>
     ImageTypeId Info = mNucCapsuleFmpImageTypeId \<and> 3 \<le> DescriptorVersion Info"

fun fmp_loop :: "cod_env \<Rightarrow> handle list \<Rightarrow> fmp_info option cod" where
  "fmp_loop E [] = State_Monad.return None"
| "fmp_loop E (h # hs) = do {
     Status \<leftarrow> handleProtocol E h Fmp;
     if EFI_ERROR Status then fmp_loop E hs
     else do {
       (Status, InfoSize) \<leftarrow> getImageInfoSize E h;
       if Status \<noteq> EFI_BUFFER_TOO_SMALL then fmp_loop E hs
       else do {
         Ok \<leftarrow> allocatePool E InfoBuffer InfoSize;
         if \<not> Ok then fmp_loop E hs
         else do {
           (Status, Info) \<leftarrow> getImageInfo E h;
           (if PackageVersionName Info then tell (FreePool VersionNameBuffer) else State_Monad.return ());
           tell (FreePool InfoBuffer);
           if platform_fmp Status Info then State_Monad.return (Some Info) else fmp_loop E hs
         }
       }
     }
   }"

text \<open>
  FALSE is None; otherwise the descriptor whose fields are copied to the out parameters.
\<close>

definition GetFmpLastAttemptStatus :: "cod_env \<Rightarrow> fmp_info option cod" where
  "GetFmpLastAttemptStatus E = do {
     (Status, Handles) \<leftarrow> locateHandleBuffer E Fmp;
     if EFI_ERROR Status then State_Monad.return None
     else do {
       Found \<leftarrow> fmp_loop E Handles;
       tell (FreePool HandleBuffer);
       State_Monad.return Found
     }
   }"

definition ReportLastAttempt :: "cod_env \<Rightarrow> unit cod" where
  "ReportLastAttempt E = do { _ \<leftarrow> GetFmpLastAttemptStatus E; State_Monad.return () }"

subsection \<open>ApplyOneCapsule, in the order of its stages\<close>

definition apply_open :: "cod_env \<Rightarrow> fhandle \<Rightarrow> u16 list \<Rightarrow> (fhandle \<times> bool) option cod" where
  "apply_open E Dir Name = do {
     (Status, File) \<leftarrow> openFile E Dir Name (EFI_FILE_MODE_READ OR EFI_FILE_MODE_WRITE);
     if \<not> EFI_ERROR Status then State_Monad.return (Some (File, True))
     else do {
       (Status, File) \<leftarrow> openFile E Dir Name EFI_FILE_MODE_READ;
       State_Monad.return (if EFI_ERROR Status then None else Some (File, False))
     }
   }"

definition apply_load :: "cod_env \<Rightarrow> fhandle \<Rightarrow> u8 list option cod" where
  "apply_load E File = do {
     (Status, FileSize) \<leftarrow> fileHandleGetSize E File;
     if EFI_ERROR Status \<or> FileSize = 0 \<or> MAX_CAPSULE_BYTES < unat FileSize
     then do { tell (CloseFile File); State_Monad.return None }
     else do {
       Ok \<leftarrow> allocatePool E CapsuleBuffer (unat FileSize);
       if \<not> Ok then do { tell (CloseFile File); State_Monad.return None }
       else do {
         (Status, Capsule) \<leftarrow> fileHandleRead E File (unat FileSize);
         if EFI_ERROR Status \<or> length Capsule \<noteq> unat FileSize
         then do { tell (FreePool CapsuleBuffer); tell (CloseFile File); State_Monad.return None }
         else case NucCapsuleValidateHeader (Some Capsule) (length Capsule) True True of
           None \<Rightarrow> do { tell Fault; State_Monad.return None }
         | Some (Status, _) \<Rightarrow>
             if EFI_ERROR Status
             then do { tell (FreePool CapsuleBuffer); tell (CloseFile File); State_Monad.return None }
             else State_Monad.return (Some Capsule)
       }
     }
   }"

text \<open>
  The last stage, after UpdateCapsule was accepted: what the FMP recorded decides, and then the
  deletion of the file.
\<close>

definition apply_confirm :: "cod_env \<Rightarrow> fhandle \<Rightarrow> bool \<Rightarrow> fmp_info option \<Rightarrow> bool cod" where
  "apply_confirm E File CanDelete Before = do {
     After \<leftarrow> GetFmpLastAttemptStatus E;
     case After of
       None \<Rightarrow> do { tell (CloseFile File); State_Monad.return False }
     | Some A \<Rightarrow>
         if LastAttemptStatus A \<noteq> 0 then do { tell (CloseFile File); State_Monad.return False }
         else if LastAttemptVersion A = 0 then do { tell (CloseFile File); State_Monad.return False }
         else if (case Before of
                    None \<Rightarrow> False
                  | Some B \<Rightarrow> LastAttemptVersion A = LastAttemptVersion B \<and>
                      LastAttemptStatus A = LastAttemptStatus B)
         then do { tell (CloseFile File); State_Monad.return False }
         else if \<not> CanDelete then do { tell (CloseFile File); State_Monad.return False }
         else do {
           Status \<leftarrow> fileHandleDelete E File;
           State_Monad.return (Status = EFI_SUCCESS)
         }
   }"

definition apply_update :: "cod_env \<Rightarrow> fhandle \<Rightarrow> bool \<Rightarrow> u8 list \<Rightarrow> bool cod" where
  "apply_update E File CanDelete Capsule =
     (case NucCapsuleGetPayloadVersion (Some Capsule) (length Capsule) True of
        None \<Rightarrow> do { tell Fault; State_Monad.return False }
      | Some CapsuleVersion \<Rightarrow> do {
          Before \<leftarrow> GetFmpLastAttemptStatus E;
          if (case (CapsuleVersion, Before) of
                (Some v, Some B) \<Rightarrow> v = RunningVersion B
              | _ \<Rightarrow> False)
          then do {
            (if CanDelete then do { _ \<leftarrow> fileHandleDelete E File; State_Monad.return () }
             else tell (CloseFile File));
            tell (FreePool CapsuleBuffer);
            State_Monad.return False
          }
          else do {
            Status \<leftarrow> updateCapsule E Capsule;
            tell (FreePool CapsuleBuffer);
            if EFI_ERROR Status
            then do { ReportLastAttempt E; tell (CloseFile File); State_Monad.return False }
            else apply_confirm E File CanDelete Before
          }
        })"

definition ApplyOneCapsule :: "cod_env \<Rightarrow> fhandle \<Rightarrow> u16 list \<Rightarrow> bool cod" where
  "ApplyOneCapsule E Dir Name = do {
     Opened \<leftarrow> apply_open E Dir Name;
     case Opened of
       None \<Rightarrow> State_Monad.return False
     | Some (File, CanDelete) \<Rightarrow> do {
         Loaded \<leftarrow> apply_load E File;
         case Loaded of
           None \<Rightarrow> State_Monad.return False
         | Some Capsule \<Rightarrow> apply_update E File CanDelete Capsule
       }
   }"

subsection \<open>One volume, and the ReadyToBoot scan\<close>

fun collect_names :: "cod_env \<Rightarrow> dir_read list \<Rightarrow> u16 list list \<Rightarrow> u16 list list cod" where
  "collect_names E [] Names = State_Monad.return Names"
| "collect_names E (r # rs) Names =
     (if EFI_ERROR (dr_Status r) then State_Monad.return Names
      else case dr_Info r of
        None \<Rightarrow> State_Monad.return Names
      | Some Info \<Rightarrow> (case staged_entry Info of
          None \<Rightarrow> do { tell Fault; State_Monad.return Names }
        | Some False \<Rightarrow> collect_names E rs Names
        | Some True \<Rightarrow>
            if length Names < MAX_CAPSULES then do {
              let Name = takeWhile (\<lambda>c. c \<noteq> 0) (fi_FileName Info);
              Ok \<leftarrow> allocatePool E NameBuffer (2 * (length Name + 1));
              collect_names E rs (if Ok then Names @ [Name] else Names)
            }
            else collect_names E rs Names))"

fun apply_names :: "cod_env \<Rightarrow> fhandle \<Rightarrow> u16 list list \<Rightarrow> nat \<times> nat \<Rightarrow> (nat \<times> nat) cod" where
  "apply_names E Dir [] Counts = State_Monad.return Counts"
| "apply_names E Dir (Name # Names) Counts = do {
     Ok \<leftarrow> ApplyOneCapsule E Dir Name;
     tell (FreePool NameBuffer);
     apply_names E Dir Names
       (if Ok then (Suc (fst Counts), snd Counts) else (fst Counts, Suc (snd Counts)))
   }"

definition ProcessDropBox :: "cod_env \<Rightarrow> fhandle \<Rightarrow> nat \<times> nat \<Rightarrow> (nat \<times> nat) cod" where
  "ProcessDropBox E Root Counts = do {
     (Status, Dir) \<leftarrow> openFile E Root CAPSULE_DIR_NAME EFI_FILE_MODE_READ;
     if EFI_ERROR Status then State_Monad.return Counts
     else do {
       Reads \<leftarrow> readDirectory E Dir False;
       entry_buffer False Reads;
       Names \<leftarrow> collect_names E Reads [];
       Counts' \<leftarrow> apply_names E Dir Names Counts;
       tell (CloseFile Dir);
       State_Monad.return Counts'
     }
   }"

fun any_staged :: "cod_env \<Rightarrow> handle list \<Rightarrow> bool cod" where
  "any_staged E [] = State_Monad.return False"
| "any_staged E (h # hs) = do {
     Opened \<leftarrow> OpenVolumeRoot E h;
     case Opened of
       None \<Rightarrow> any_staged E hs
     | Some Root \<Rightarrow> do {
         AnyStaged \<leftarrow> DropBoxHasCapsules E Root;
         tell (CloseFile Root);
         if AnyStaged then State_Monad.return True else any_staged E hs
       }
   }"

fun process_volumes :: "cod_env \<Rightarrow> handle list \<Rightarrow> nat \<times> nat \<Rightarrow> (nat \<times> nat) cod" where
  "process_volumes E [] Counts = State_Monad.return Counts"
| "process_volumes E (h # hs) Counts = do {
     Opened \<leftarrow> OpenVolumeRoot E h;
     case Opened of
       None \<Rightarrow> process_volumes E hs Counts
     | Some Root \<Rightarrow> do {
         Counts' \<leftarrow> ProcessDropBox E Root Counts;
         tell (CloseFile Root);
         process_volumes E hs Counts'
       }
   }"

text \<open>The notification function; the argument and the result are mNucCodScanDone.\<close>

definition OnReadyToBoot :: "cod_env \<Rightarrow> bool \<Rightarrow> bool cod" where
  "OnReadyToBoot E ScanDone =
     (if ScanDone then State_Monad.return True
      else do {
        AdvertiseFileCapsuleDelivery E;
        ConnectUsbMassStorage E;
        (Status, Handles) \<leftarrow> locateHandleBuffer E SimpleFileSystem;
        if EFI_ERROR Status then do { ClearFileCapsuleIndication E; State_Monad.return True }
        else do {
          AnyStaged \<leftarrow> any_staged E Handles;
          if \<not> AnyStaged
          then do { ClearFileCapsuleIndication E; tell (FreePool HandleBuffer); State_Monad.return True }
          else do {
            (Applied, Failed) \<leftarrow> process_volumes E Handles (0, 0);
            tell (FreePool HandleBuffer);
            ClearFileCapsuleIndication E;
            (if 0 < Applied then do { tell (Stall SUMMARY_STALL_US); tell ResetSystemCold }
             else State_Monad.return ());
            (if 0 < Failed then tell (Stall SUMMARY_STALL_US) else State_Monad.return ());
            State_Monad.return True
          }
        }
      })"

text \<open>Registration never fails the load, whatever CreateEventEx answers.\<close>

definition NucCapsuleOnDiskLibConstructor :: "efi_status \<Rightarrow> efi_status" where
  "NucCapsuleOnDiskLibConstructor CreateEventStatus = EFI_SUCCESS"

section \<open>Reading a trace\<close>

text \<open>The calls that change the machine, and the fault.\<close>

fun is_effect :: "cod_event \<Rightarrow> bool" where
  "is_effect (SetVariable _ _ _) = True"
| "is_effect (ConnectController _ _) = True"
| "is_effect (UpdateCapsule _ _) = True"
| "is_effect (DeleteFile _ _) = True"
| "is_effect (Stall _) = True"
| "is_effect ResetSystemCold = True"
| "is_effect Fault = True"
| "is_effect _ = False"

abbreviation effects :: "cod_trace \<Rightarrow> cod_trace" where
  "effects es \<equiv> filter is_effect es"

text \<open>File handles and pool allocations held at the end of a trace.\<close>

fun file_delta :: "fhandle \<Rightarrow> cod_event \<Rightarrow> int" where
  "file_delta f (OpenVolume _ s g) = (if g = f \<and> \<not> EFI_ERROR s then 1 else 0)"
| "file_delta f (OpenFile _ _ _ s g) = (if g = f \<and> \<not> EFI_ERROR s then 1 else 0)"
| "file_delta f (DeleteFile g _) = (if g = f then - 1 else 0)"
| "file_delta f (CloseFile g) = (if g = f then - 1 else 0)"
| "file_delta f _ = 0"

fun pool_delta :: "pool \<Rightarrow> cod_event \<Rightarrow> int" where
  "pool_delta p (AllocatePool q ok) = (if q = p \<and> ok then 1 else 0)"
| "pool_delta p (LocateHandleBuffer _ s _) = (if p = HandleBuffer \<and> \<not> EFI_ERROR s then 1 else 0)"
| "pool_delta p (GetImageInfo _ _ i) = (if p = VersionNameBuffer \<and> PackageVersionName i then 1 else 0)"
| "pool_delta p (FreePool q) = (if q = p then - 1 else 0)"
| "pool_delta p _ = 0"

definition files_held :: "cod_trace \<Rightarrow> fhandle \<Rightarrow> int" where
  "files_held es f = sum_list (map (file_delta f) es)"

definition pool_held :: "cod_trace \<Rightarrow> pool \<Rightarrow> int" where
  "pool_held es p = sum_list (map (pool_delta p) es)"

text \<open>
  An enumeration that leaves its entry buffer behind: reading fails after the first entry, or a search stops
  at an entry that is not the last answer.
\<close>

definition passed_entry :: "bool \<Rightarrow> dir_read \<Rightarrow> bool" where
  "passed_entry Search x \<longleftrightarrow>
     \<not> EFI_ERROR (dr_Status x) \<and> (\<exists>I. dr_Info x = Some I \<and> \<not> (Search \<and> staged_entry I = Some True))"

definition found_entry :: "bool \<Rightarrow> dir_read \<Rightarrow> bool" where
  "found_entry Search x \<longleftrightarrow> Search \<and> (\<exists>I. dr_Info x = Some I \<and> staged_entry I = Some True)"

definition left_open :: "bool \<Rightarrow> dir_read list \<Rightarrow> bool" where
  "left_open Search rs \<longleftrightarrow> (\<exists>pre r post. rs = pre @ r # post \<and> (\<forall>x \<in> set pre. passed_entry Search x) \<and>
     (if EFI_ERROR (dr_Status r) then pre \<noteq> [] else found_entry Search r \<and> post \<noteq> []))"

fun left_early :: "cod_event \<Rightarrow> bool" where
  "left_early (ReadDirectory _ Search rs) = left_open Search rs"
| "left_early _ = False"

text \<open>The pool allocations held beyond the entry buffers left behind.\<close>

definition excess_delta :: "pool \<Rightarrow> cod_event \<Rightarrow> int" where
  [simp]: "excess_delta p e = pool_delta p e - (if p = EntryBuffer \<and> left_early e then 1 else 0)"

definition pool_excess :: "cod_trace \<Rightarrow> pool \<Rightarrow> int" where
  "pool_excess es p = sum_list (map (excess_delta p) es)"

lemma files_held_simps [simp]:
  "files_held [] f = 0"
  "files_held (e # es) f = file_delta f e + files_held es f"
  "files_held (es @ es') f = files_held es f + files_held es' f"
  by (simp_all add: files_held_def)

lemma pool_excess_simps [simp]:
  "pool_excess [] p = 0"
  "pool_excess (e # es) p = excess_delta p e + pool_excess es p"
  "pool_excess (es @ es') p = pool_excess es p + pool_excess es' p"
  by (simp_all add: pool_excess_def del: excess_delta_def)

lemma pool_excess_eq:
  "pool_held es p = pool_excess es p + (if p = EntryBuffer then int (length (filter left_early es)) else 0)"
  by (induction es) (simp_all add: pool_held_def pool_excess_def)

lemma split_first:
  "(\<exists>pre x post. r # rs = pre @ x # post \<and> (\<forall>y \<in> set pre. G y) \<and> C pre x post) \<longleftrightarrow>
     C [] r rs \<or> (G r \<and> (\<exists>pre x post. rs = pre @ x # post \<and> (\<forall>y \<in> set pre. G y) \<and> C (r # pre) x post))"
  (is "?L \<longleftrightarrow> ?R")
proof
  assume ?L
  then obtain pre x post where "r # rs = pre @ x # post" "\<forall>y \<in> set pre. G y" "C pre x post"
    by blast
  then show ?R
    by (cases pre) auto
next
  assume ?R
  then show ?L
  proof
    assume "C [] r rs"
    then show ?L
      by (intro exI [of _ "[]"] exI [of _ r] exI [of _ rs]) simp
  next
    assume "G r \<and> (\<exists>pre x post. rs = pre @ x # post \<and> (\<forall>y \<in> set pre. G y) \<and> C (r # pre) x post)"
    then obtain pre x post where "G r" "rs = pre @ x # post" "\<forall>y \<in> set pre. G y" "C (r # pre) x post"
      by blast
    then show ?L
      by (intro exI [of _ "r # pre"] exI [of _ x] exI [of _ post]) simp
  qed
qed

text \<open>After an entry that was passed, reading on fails, or the enumeration of the rest leaves the buffer.\<close>

definition left_rest :: "bool \<Rightarrow> dir_read list \<Rightarrow> bool" where
  "left_rest Search rs \<longleftrightarrow> (\<exists>pre r post. rs = pre @ r # post \<and> (\<forall>x \<in> set pre. passed_entry Search x) \<and>
     (if EFI_ERROR (dr_Status r) then True else found_entry Search r \<and> post \<noteq> []))"

lemma left_open_Cons:
  "left_open Search (r # rs) \<longleftrightarrow> \<not> EFI_ERROR (dr_Status r) \<and>
     (found_entry Search r \<and> rs \<noteq> [] \<or> passed_entry Search r \<and> left_rest Search rs)"
  unfolding left_open_def split_first left_rest_def by (simp add: passed_entry_def [of _ r])

lemma left_rest_Cons:
  "left_rest Search (r # rs) \<longleftrightarrow> EFI_ERROR (dr_Status r) \<or> found_entry Search r \<and> rs \<noteq> [] \<or>
     passed_entry Search r \<and> left_rest Search rs"
  unfolding left_rest_def split_first by auto

lemma entry_left_rest: "entry_left Search True rs = left_rest Search rs"
proof (induction rs)
  case (Cons r rs)
  then show ?case
    by (auto simp: left_rest_Cons passed_entry_def found_entry_def split: option.splits)
qed (simp add: left_rest_def)

lemma entry_left_iff: "entry_left Search False rs = left_open Search rs"
  by (cases rs) (auto simp: left_open_Cons entry_left_rest passed_entry_def found_entry_def split: option.splits,
    simp add: left_open_def)

definition balanced :: "cod_trace \<Rightarrow> bool" where
  "balanced es \<longleftrightarrow> (\<forall>f. files_held es f = 0) \<and> (\<forall>p. pool_excess es p = 0)"

definition quiet :: "cod_trace \<Rightarrow> bool" where
  "quiet es \<longleftrightarrow> effects es = [] \<and> balanced es"

text \<open>The descriptor a stretch of trace reads from this platform's FMP: the first accepted one.\<close>

fun fmp_record :: "cod_trace \<Rightarrow> fmp_info option" where
  "fmp_record [] = None"
| "fmp_record (e # es) = (case e of
     GetImageInfo h s i \<Rightarrow> if platform_fmp s i then Some i else fmp_record es
   | _ \<Rightarrow> fmp_record es)"

lemma fmp_record_append:
  "fmp_record (es @ es') = (case fmp_record es of None \<Rightarrow> fmp_record es' | Some i \<Rightarrow> Some i)"
  by (induction es) (auto split: cod_event.split)

lemma fmp_loop_yields: "yields (fmp_loop E hs) (\<lambda>r es. r = fmp_record es \<and> quiet es)"
proof (induction hs)
  case (Cons h hs)
  note weaken = yields_weaken [OF Cons.IH]
  show ?case
    by (auto simp: cod_services quiet_def balanced_def intro!: yields_intros weaken)
qed (auto intro!: yields_intros simp: quiet_def balanced_def)

definition snapshot_taken :: "cod_trace \<Rightarrow> bool" where
  "snapshot_taken es \<longleftrightarrow> (\<exists>s hs. LocateHandleBuffer Fmp s hs \<in> set es)"

lemma GetFmp_yields:
  "yields (GetFmpLastAttemptStatus E) (\<lambda>r es. r = fmp_record es \<and> quiet es \<and> snapshot_taken es)"
  unfolding GetFmpLastAttemptStatus_def locateHandleBuffer_def
  by (auto simp: quiet_def balanced_def snapshot_taken_def fmp_record_append split: option.splits
      intro!: yields_intros yields_bind [OF fmp_loop_yields]) blast

section \<open>The protocol of one capsule\<close>

text \<open>The version gate: a capsule whose version is known and is the running one does not pass.\<close>

definition gate_passed :: "u8 list \<Rightarrow> fmp_info option \<Rightarrow> bool" where
  "gate_passed c Before \<longleftrightarrow>
     (\<forall>v B. NucCapsuleGetPayloadVersion (Some c) (length c) True = Some (Some v) \<longrightarrow>
        Before = Some B \<longrightarrow> v \<noteq> RunningVersion B)"

text \<open>
  What the code takes as proof of an apply: a successful, non-default last-attempt record that differs from
  the earlier one, if that could be read.
\<close>

definition proven :: "fmp_info option \<Rightarrow> fmp_info option \<Rightarrow> bool" where
  "proven Before After \<longleftrightarrow>
     (\<exists>A. After = Some A \<and> LastAttemptStatus A = 0 \<and> LastAttemptVersion A \<noteq> 0 \<and>
        (\<forall>B. Before = Some B \<longrightarrow> \<not> (LastAttemptVersion A = LastAttemptVersion B \<and>
           LastAttemptStatus A = LastAttemptStatus B)))"

definition MODE_RW :: u64 where
  "MODE_RW = EFI_FILE_MODE_READ OR EFI_FILE_MODE_WRITE"

text \<open>
  The interactions one capsule file may have, with the answer ApplyOneCapsule gives: nothing
  happened; the capsule is already running and the file was removed; the capsule was submitted
  but is not proven applied, or could not be deleted; it was submitted, proven and deleted.
\<close>

inductive apply_protocol :: "fhandle \<Rightarrow> u16 list \<Rightarrow> bool \<Rightarrow> cod_trace \<Rightarrow> bool" for Dir Name where
  refused: "quiet es \<Longrightarrow> apply_protocol Dir Name False es"
| already_running:
    "es = load @ ReadFile File sr c # rest \<Longrightarrow> balanced es \<Longrightarrow> effects es = [DeleteFile File s] \<Longrightarrow>
     OpenFile Dir Name MODE_RW so File \<in> set load \<Longrightarrow> \<not> EFI_ERROR so \<Longrightarrow>
     \<not> gate_passed c (fmp_record rest) \<Longrightarrow> apply_protocol Dir Name False es"
| not_applied:
    "es = load @ ReadFile File sr c # pre @ UpdateCapsule c s # post \<Longrightarrow> balanced es \<Longrightarrow>
     effects load = [] \<Longrightarrow> effects pre = [] \<Longrightarrow> capsule_ok c (length c) \<Longrightarrow>
     snapshot_taken pre \<Longrightarrow> gate_passed c (fmp_record pre) \<Longrightarrow>
     effects post = [] \<or> (\<exists>sd. sd \<noteq> EFI_SUCCESS \<and> effects post = [DeleteFile File sd]) \<Longrightarrow>
     apply_protocol Dir Name False es"
| applied:
    "es = load @ ReadFile File sr c # pre @ UpdateCapsule c s # post @ [DeleteFile File EFI_SUCCESS] \<Longrightarrow>
     balanced es \<Longrightarrow> effects load = [] \<Longrightarrow> effects pre = [] \<Longrightarrow>
     OpenFile Dir Name MODE_RW so File \<in> set load \<Longrightarrow> \<not> EFI_ERROR so \<Longrightarrow>
     capsule_ok c (length c) \<Longrightarrow> snapshot_taken pre \<Longrightarrow> gate_passed c (fmp_record pre) \<Longrightarrow>
     \<not> EFI_ERROR s \<Longrightarrow> effects post = [] \<Longrightarrow> proven (fmp_record pre) (fmp_record post) \<Longrightarrow>
     apply_protocol Dir Name True es"

lemma apply_open_yields:
  "yields (apply_open E Dir Name) (\<lambda>r es. effects es = [] \<and> fmp_record es = None \<and>
     (\<forall>p. pool_excess es p = 0) \<and>
     (case r of None \<Rightarrow> (\<forall>f. files_held es f = 0)
      | Some (File, CanDelete) \<Rightarrow> (\<forall>f. files_held es f = (if f = File then 1 else 0)) \<and>
          (CanDelete \<longrightarrow> (\<exists>so. \<not> EFI_ERROR so \<and> OpenFile Dir Name MODE_RW so File \<in> set es))))"
  unfolding apply_open_def openFile_def MODE_RW_def by (auto intro!: yields_intros)

lemma apply_load_yields:
  "yields (apply_load E File) (\<lambda>r es. effects es = [] \<and> fmp_record es = None \<and>
     (case r of None \<Rightarrow> (\<forall>f. files_held es f = (if f = File then - 1 else 0)) \<and> (\<forall>p. pool_excess es p = 0)
      | Some c \<Rightarrow> (\<forall>f. files_held es f = 0) \<and> (\<forall>p. pool_excess es p = (if p = CapsuleBuffer then 1 else 0)) \<and>
          capsule_ok c (length c) \<and> (\<exists>load sr. es = load @ [ReadFile File sr c])))"
proof -
  have total: "length c = n \<Longrightarrow> NucCapsuleValidateHeader (Some c) n True True \<noteq> None"
    "NucCapsuleValidateHeader (Some c) n True True = Some (s, o') \<Longrightarrow> length c = n \<Longrightarrow>
       \<not> EFI_ERROR s \<Longrightarrow> capsule_ok c n" for c n s o'
    using validate_header_total [of c] by auto
  show ?thesis
    unfolding apply_load_def fileHandleGetSize_def allocatePool_def fileHandleRead_def
    by (auto intro!: yields_intros dest: total(2) simp: total(1))
qed

lemma apply_confirm_yields:
  "yields (apply_confirm E File CanDelete Before) (\<lambda>r es.
     (\<forall>f. files_held es f = (if f = File then - 1 else 0)) \<and> (\<forall>p. pool_excess es p = 0) \<and>
     (if r then CanDelete \<and> (\<exists>post. es = post @ [DeleteFile File EFI_SUCCESS] \<and> effects post = [] \<and>
         proven Before (fmp_record post))
      else effects es = [] \<or> (\<exists>sd. sd \<noteq> EFI_SUCCESS \<and> effects es = [DeleteFile File sd])))"
  unfolding apply_confirm_def fileHandleDelete_def
  by (auto intro!: yields_intros yields_bind [OF GetFmp_yields]
      simp: quiet_def balanced_def proven_def split: option.splits)

text \<open>The three ways the stage after loading may go.\<close>

definition update_outcome :: "fhandle \<Rightarrow> bool \<Rightarrow> u8 list \<Rightarrow> bool \<Rightarrow> cod_trace \<Rightarrow> bool" where
  "update_outcome File CanDelete c r es \<longleftrightarrow>
     (\<not> r \<and> effects es = []) \<or>
     (\<not> r \<and> CanDelete \<and> \<not> gate_passed c (fmp_record es) \<and> (\<exists>s. effects es = [DeleteFile File s])) \<or>
     (\<exists>pre s post. es = pre @ UpdateCapsule c s # post \<and> effects pre = [] \<and> snapshot_taken pre \<and>
        gate_passed c (fmp_record pre) \<and>
        (if r then CanDelete \<and> \<not> EFI_ERROR s \<and> (\<exists>mid. post = mid @ [DeleteFile File EFI_SUCCESS] \<and>
             effects mid = [] \<and> proven (fmp_record pre) (fmp_record mid))
         else effects post = [] \<or>
           (\<exists>sd. sd \<noteq> EFI_SUCCESS \<and> effects post = [DeleteFile File sd])))"

lemma ReportLastAttempt_yields: "yields (ReportLastAttempt E) (\<lambda>r es. quiet es)"
  unfolding ReportLastAttempt_def
  by (auto intro!: yields_intros yields_bind [OF GetFmp_yields])

lemma submit_yields:
  assumes "gate_passed Capsule Before" "Before = fmp_record pre" "quiet pre" "snapshot_taken pre"
  shows "yields (do { Status \<leftarrow> updateCapsule E Capsule;
      tell (FreePool CapsuleBuffer);
      if EFI_ERROR Status
      then do { ReportLastAttempt E; tell (CloseFile File); State_Monad.return False }
      else apply_confirm E File CanDelete Before })
    (\<lambda>r es. (\<forall>f. files_held es f = (if f = File then - 1 else 0)) \<and>
       (\<forall>p. pool_excess es p = (if p = CapsuleBuffer then - 1 else 0)) \<and>
       update_outcome File CanDelete Capsule r (pre @ es))"
  unfolding updateCapsule_def
proof (intro yields_intros, goal_cases)
  case (1 s)
  show ?case
    by (rule yields_bind [OF ReportLastAttempt_yields], intro yields_intros)
      (use assms in \<open>auto simp: update_outcome_def quiet_def balanced_def intro!: exI [of _ pre]\<close>)
next
  case (2 s)
  show ?case
    by (rule yields_weaken [OF apply_confirm_yields])
      (use assms 2 in \<open>auto simp: update_outcome_def quiet_def balanced_def intro!: exI [of _ pre]
        split: if_splits\<close>)
qed

lemma apply_update_yields:
  "yields (apply_update E File CanDelete Capsule) (\<lambda>r es.
     (\<forall>f. files_held es f = (if f = File then - 1 else 0)) \<and> (\<forall>p. pool_excess es p = (if p = CapsuleBuffer then - 1 else 0)) \<and>
     update_outcome File CanDelete Capsule r es)"
proof -
  obtain v where v: "NucCapsuleGetPayloadVersion (Some Capsule) (length Capsule) True = Some v"
    by (simp add: payload_version_eq)
  show ?thesis
    unfolding apply_update_def v option.case
  proof (rule yields_bind [OF GetFmp_yields], rule yields_if, goal_cases)
    case (1 Before pre)
    then have "\<not> gate_passed Capsule Before" "Before = fmp_record pre" "quiet pre" "snapshot_taken pre"
      using v by (auto simp: gate_passed_def split: option.splits)
    then show ?case
      unfolding fileHandleDelete_def update_outcome_def
      by (auto intro!: yields_intros simp: quiet_def balanced_def fmp_record_append split: option.splits)
  next
    case (2 Before pre)
    then have "gate_passed Capsule Before" "Before = fmp_record pre" "quiet pre" "snapshot_taken pre"
      using v by (auto simp: gate_passed_def split: option.splits)
    then show ?case
      by (intro yields_weaken [OF submit_yields]) (auto simp: quiet_def balanced_def)
  qed
qed

lemma outcome_protocol:
  assumes out: "update_outcome File CanDelete c r es" and load: "effects load = []"
    and bal: "balanced (load @ ReadFile File sr c # es)" and ok: "capsule_ok c (length c)"
    and opened: "CanDelete \<longrightarrow> (\<exists>so. \<not> EFI_ERROR so \<and> OpenFile Dir Name MODE_RW so File \<in> set load)"
  shows "apply_protocol Dir Name r (load @ ReadFile File sr c # es)"
proof -
  consider (a) "\<not> r" "effects es = []"
    | (b) s where "\<not> r" "CanDelete" "\<not> gate_passed c (fmp_record es)" "effects es = [DeleteFile File s]"
    | (c) pre s post where "\<not> r" "es = pre @ UpdateCapsule c s # post" "effects pre = []"
        "snapshot_taken pre" "gate_passed c (fmp_record pre)"
        "effects post = [] \<or> (\<exists>sd. sd \<noteq> EFI_SUCCESS \<and> effects post = [DeleteFile File sd])"
    | (d) pre s mid where "r" "CanDelete" "es = pre @ UpdateCapsule c s # mid @ [DeleteFile File EFI_SUCCESS]"
        "effects pre = []" "snapshot_taken pre" "gate_passed c (fmp_record pre)" "\<not> EFI_ERROR s"
        "effects mid = []" "proven (fmp_record pre) (fmp_record mid)"
    using out unfolding update_outcome_def by (auto split: if_splits)
  then show ?thesis
  proof cases
    case a
    with load bal show ?thesis by (auto intro: apply_protocol.refused simp: quiet_def)
  next
    case b
    with opened obtain so where "\<not> EFI_ERROR so" "OpenFile Dir Name MODE_RW so File \<in> set load" by auto
    with b load bal have "apply_protocol Dir Name False (load @ ReadFile File sr c # es)"
      by (intro apply_protocol.already_running [OF refl]) auto
    with b show ?thesis by simp
  next
    case c
    with load bal ok have "apply_protocol Dir Name False (load @ ReadFile File sr c # es)"
      by (intro apply_protocol.not_applied [where pre = pre and s = s and post = post]) auto
    with c show ?thesis by simp
  next
    case d
    with opened obtain so where "\<not> EFI_ERROR so" "OpenFile Dir Name MODE_RW so File \<in> set load" by auto
    with d load bal ok have "apply_protocol Dir Name True (load @ ReadFile File sr c # es)"
      by (intro apply_protocol.applied [where load = load and pre = pre and s = s and post = mid
            and so = so]) auto
    with d show ?thesis by simp
  qed
qed

lemma ApplyOneCapsule_yields: "yields (ApplyOneCapsule E Dir Name) (apply_protocol Dir Name)"
  unfolding ApplyOneCapsule_def
proof (rule yields_bind [OF apply_open_yields], rule yields_option, goal_cases)
  case (1 r es)
  then show ?case
    by (auto intro!: yields_intros apply_protocol.refused simp: quiet_def balanced_def)
next
  case opened: (2 r es opened)
  obtain File CanDelete where o': "opened = (File, CanDelete)" by (cases opened)
  show ?case
    unfolding o' prod.case
  proof (rule yields_bind [OF apply_load_yields], rule yields_option, goal_cases)
    case (1 l es')
    with opened o' show ?case
      by (auto intro!: yields_intros apply_protocol.refused simp: quiet_def balanced_def)
  next
    case loaded: (2 l es' c)
    then obtain l' sr where l': "es' = l' @ [ReadFile File sr c]" by auto
    show ?case
    proof (rule yields_weaken [OF apply_update_yields], goal_cases)
      case (1 ok es'')
      with opened loaded have "apply_protocol Dir Name ok ((es @ l') @ ReadFile File sr c # es'')"
        by (intro outcome_protocol [where CanDelete = CanDelete]) (auto simp: o' l' balanced_def)
      then show ?case by (simp add: l')
    qed
  qed
qed

section \<open>The scan as a sequence of capsules\<close>

text \<open>
  \<^term>\<open>scan a f es\<close>: the events of processing any number of capsules, of which \<^term>\<open>a\<close> were
  applied and \<^term>\<open>f\<close> were not, with nothing but queries and releases in between.
\<close>

inductive scan :: "nat \<Rightarrow> nat \<Rightarrow> cod_trace \<Rightarrow> bool" where
  scan_idle: "effects es = [] \<Longrightarrow> scan 0 0 es"
| scan_applied: "apply_protocol Dir Name True es \<Longrightarrow> scan 1 0 es"
| scan_failed: "apply_protocol Dir Name False es \<Longrightarrow> scan 0 1 es"
| scan_append: "scan a f es \<Longrightarrow> scan a' f' es' \<Longrightarrow> scan (a + a') (f + f') (es @ es')"

lemma scan_idle_append: "scan a f es \<Longrightarrow> effects q = [] \<Longrightarrow> scan a f (es @ q)"
  using scan_append [of a f es 0 0 q] by (simp add: scan_idle)

lemma scan_idle_prepend: "effects q = [] \<Longrightarrow> scan a f es \<Longrightarrow> scan a f (q @ es)"
  using scan_append [of 0 0 q a f es] by (simp add: scan_idle)

text \<open>Each part of a scan that applied something holds a complete applied capsule.\<close>

lemma scan_has_applied:
  "scan a f es \<Longrightarrow> 0 < a \<Longrightarrow> \<exists>p Dir Name mid q. es = p @ mid @ q \<and> apply_protocol Dir Name True mid"
proof (induction rule: scan.induct)
  case (scan_applied Dir Name es)
  then show ?case by (metis append_Nil append_Nil2)
next
  case (scan_append a f es a' f' es')
  then consider "0 < a" | "0 < a'" by auto
  then show ?case
    using scan_append.IH by cases (metis append.assoc)+
qed auto

text \<open>The machine-changing calls of one capsule: at most one submission, then at most one delete.\<close>

lemma apply_protocol_effects:
  assumes "apply_protocol Dir Name r es"
  obtains "effects es = []" | f s where "effects es = [DeleteFile f s]"
    | c s where "effects es = [UpdateCapsule c s]"
    | c s f s' where "effects es = [UpdateCapsule c s, DeleteFile f s']"
  using assms by cases (auto simp: quiet_def)

fun is_update :: "cod_event \<Rightarrow> bool" where
  "is_update (UpdateCapsule _ _) = True"
| "is_update _ = False"

lemma is_update_effect: "is_update e \<Longrightarrow> is_effect e"
  by (cases e) auto

lemma update_notin: "UpdateCapsule c s \<notin> set (effects es) \<Longrightarrow> UpdateCapsule c s \<notin> set es"
  by simp

lemma updates_effects: "filter is_update es = filter is_update (effects es)"
  by (induction es) (auto simp: is_update_effect)

lemma scan_effects:
  "scan a f es \<Longrightarrow> \<forall>e \<in> set (effects es). is_update e \<or> (\<exists>f s. e = DeleteFile f s)"
  by (induction rule: scan.induct) (auto elim!: apply_protocol_effects simp del: set_filter)

lemma scan_submissions: "scan a f es \<Longrightarrow> length (filter is_update es) \<le> a + f"
proof (subst updates_effects, induction rule: scan.induct)
  case (scan_applied Dir Name es)
  then show ?case by (elim apply_protocol_effects) (simp_all del: filter_filter)
next
  case (scan_failed Dir Name es)
  then show ?case by (elim apply_protocol_effects) (simp_all del: filter_filter)
qed (simp_all del: filter_filter)

text \<open>Where a trace submits a capsule, the capsule was validated and had passed the gate.\<close>

definition submitted_well :: "cod_trace \<Rightarrow> u8 list \<Rightarrow> bool" where
  "submitted_well before c \<longleftrightarrow> capsule_ok c (length c) \<and>
     (\<exists>p File sr pre. before = p @ ReadFile File sr c # pre \<and> snapshot_taken pre \<and>
        gate_passed c (fmp_record pre))"

lemma submitted_well_append: "submitted_well b c \<Longrightarrow> submitted_well (p @ b) c"
  unfolding submitted_well_def by (metis append.assoc)

lemma update_unique_split:
  assumes "pre @ UpdateCapsule c s # post = before @ UpdateCapsule c' s' # after"
    and "UpdateCapsule c' s' \<notin> set pre" "UpdateCapsule c' s' \<notin> set post"
  shows "pre = before \<and> c = c'"
  using assms by (auto simp: append_eq_append_conv2 append_eq_Cons_conv Cons_eq_append_conv)

lemma apply_protocol_submitted:
  assumes "apply_protocol Dir Name r es" "es = before @ UpdateCapsule c s # after"
  shows "submitted_well before c"
  using assms(1)
proof cases
  case refused
  with assms(2) show ?thesis by (auto simp: quiet_def)
next
  case already_running
  moreover from assms(2) have "UpdateCapsule c s \<in> set (effects es)" by simp
  ultimately show ?thesis by (simp del: set_filter)
next
  case (not_applied load f sr c0 pre s0 post)
  then have "UpdateCapsule c s \<notin> set (load @ ReadFile f sr c0 # pre)" "UpdateCapsule c s \<notin> set post"
    using update_notin [of c s load] update_notin [of c s pre] update_notin [of c s post]
    by (auto simp del: set_filter)
  moreover have "(load @ ReadFile f sr c0 # pre) @ UpdateCapsule c0 s0 # post
      = before @ UpdateCapsule c s # after"
    using not_applied(2) assms(2) by simp
  ultimately have "load @ ReadFile f sr c0 # pre = before \<and> c0 = c"
    using update_unique_split by blast
  with not_applied show ?thesis
    unfolding submitted_well_def by blast
next
  case (applied load f sr c0 pre s0 post so)
  then have "UpdateCapsule c s \<notin> set (load @ ReadFile f sr c0 # pre)"
    "UpdateCapsule c s \<notin> set (post @ [DeleteFile f EFI_SUCCESS])"
    using update_notin [of c s load] update_notin [of c s pre] update_notin [of c s post]
    by (auto simp del: set_filter)
  moreover have "(load @ ReadFile f sr c0 # pre) @ UpdateCapsule c0 s0 # post @ [DeleteFile f EFI_SUCCESS]
      = before @ UpdateCapsule c s # after"
    using applied(2) assms(2) by simp
  ultimately have "load @ ReadFile f sr c0 # pre = before \<and> c0 = c"
    using update_unique_split by blast
  with applied show ?thesis
    unfolding submitted_well_def by blast
qed

lemma scan_submitted:
  "scan a f es \<Longrightarrow> es = before @ UpdateCapsule c s # after \<Longrightarrow> submitted_well before c"
proof (induction arbitrary: before after rule: scan.induct)
  case (scan_append a f es a' f' es')
  from scan_append.prems consider
      (l) q where "es = before @ UpdateCapsule c s # q"
    | (r) q where "before = es @ q" "es' = q @ UpdateCapsule c s # after"
    by (auto simp: append_eq_append_conv2 append_eq_Cons_conv Cons_eq_append_conv)
  then show ?case
    by cases (auto intro: scan_append.IH submitted_well_append)
qed (auto dest: apply_protocol_submitted)

section \<open>Volumes\<close>

lemma staged_entry_total: "\<exists>b. staged_entry Info = Some b"
  using candidate_file_total by (auto simp: staged_entry_def)

lemma find_staged_total: "\<exists>b. find_staged rs = Some b"
proof (induction rs)
  case (Cons r rs)
  show ?case
  proof (cases "dr_Info r")
    case (Some Info)
    obtain b where "staged_entry Info = Some b" using staged_entry_total by blast
    with Some Cons show ?thesis by auto
  qed auto
qed auto

text \<open>One enumeration with its entry buffer.\<close>

lemma yields_enumerate:
  assumes "\<And>Reads es. quiet es \<Longrightarrow> yields (k Reads) (\<lambda>r es'. Q r (es @ es'))"
  shows "yields (do { Reads \<leftarrow> readDirectory E Dir Search; _ \<leftarrow> entry_buffer Search Reads; k Reads }) Q"
proof -
  have "yields (entry_buffer Search Reads) (\<lambda>_ es. quiet (ReadDirectory Dir Search Reads # es))" for Reads
    by (cases Reads) (auto simp: entry_buffer_def quiet_def balanced_def entry_left_iff left_open_Cons passed_entry_def found_entry_def
        simp del: entry_left.simps intro!: yields_intros, simp_all add: left_open_def)
  then show ?thesis
    unfolding readDirectory_def
    by (intro yields_ask_bind) (rule yields_bind, assumption, use assms in \<open>fastforce\<close>)
qed

text \<open>The name list never outgrows its array, and every name in it was allocated.\<close>

lemma collect_names_yields:
  "length Names \<le> MAX_CAPSULES \<Longrightarrow>
   yields (collect_names E rs Names) (\<lambda>Names' es. effects es = [] \<and> (\<forall>f. files_held es f = 0) \<and>
     length Names' \<le> MAX_CAPSULES \<and>
     (\<forall>p. pool_excess es p = (if p = NameBuffer then int (length Names') - int (length Names) else 0)))"
proof (induction rs arbitrary: Names)
  case (Cons r rs)
  show ?case
  proof (cases "dr_Info r")
    case (Some Info)
    obtain b where "staged_entry Info = Some b" using staged_entry_total by blast
    with Some Cons.prems show ?thesis
      by (cases b) (auto simp: allocatePool_def intro!: yields_intros yields_weaken [OF Cons.IH])
  qed (use Cons.prems in \<open>auto intro!: yields_intros\<close>)
qed (auto intro!: yields_intros)

lemma apply_names_yields:
  "yields (apply_names E Dir Names Counts) (\<lambda>Counts' es. \<exists>a f. scan a f es \<and> a + f = length Names \<and>
     Counts' = (fst Counts + a, snd Counts + f) \<and> (\<forall>f. files_held es f = 0) \<and>
     (\<forall>p. pool_excess es p = (if p = NameBuffer then - int (length Names) else 0)))"
proof (induction Names arbitrary: Counts)
  case Nil
  show ?case by (auto intro!: yields_intros scan_idle)
next
  case (Cons Name Names)
  have "yields (apply_names E Dir (Name # Names) Counts) (\<lambda>Counts' es.
      \<exists>r es1 es2 a f. es = es1 @ FreePool NameBuffer # es2 \<and> apply_protocol Dir Name r es1 \<and>
        scan a f es2 \<and> a + f = length Names \<and> (\<forall>f. files_held es2 f = 0) \<and>
        Counts' = (if r then (fst Counts + 1 + a, snd Counts + f) else (fst Counts + a, snd Counts + 1 + f)) \<and>
        (\<forall>p. pool_excess es2 p = (if p = NameBuffer then - int (length Names) else 0)))"
    unfolding apply_names.simps
  proof (rule yields_bind [OF ApplyOneCapsule_yields], rule yields_tell_bind,
      rule yields_weaken [OF Cons.IH], goal_cases)
    case (1 r es1 Counts' es2)
    then obtain a f where "scan a f es2" "a + f = length Names" "(\<forall>f. files_held es2 f = 0)"
      "Counts' = (fst (if r then (Suc (fst Counts), snd Counts) else (fst Counts, Suc (snd Counts))) + a,
         snd (if r then (Suc (fst Counts), snd Counts) else (fst Counts, Suc (snd Counts))) + f)"
      "\<forall>p. pool_excess es2 p = (if p = NameBuffer then - int (length Names) else 0)"
      by blast
    with 1(1) show ?case
      by (intro exI [of _ r] exI [of _ es1] exI [of _ es2] exI [of _ a] exI [of _ f]) auto
  qed
  then show ?case
  proof (rule yields_weaken, goal_cases)
    case (1 Counts' es)
    then obtain r es1 es2 a f where d: "es = es1 @ FreePool NameBuffer # es2"
      "apply_protocol Dir Name r es1" "scan a f es2" "a + f = length Names" "(\<forall>f. files_held es2 f = 0)"
      "Counts' = (if r then (fst Counts + 1 + a, snd Counts + f) else (fst Counts + a, snd Counts + 1 + f))"
      "\<forall>p. pool_excess es2 p = (if p = NameBuffer then - int (length Names) else 0)"
      by blast
    let ?a = "if r then 1 else 0 :: nat" let ?f = "if r then 0 else 1 :: nat"
    have "scan ?a ?f es1"
      using d(2) by (cases r) (auto intro: scan_applied scan_failed simp flip: One_nat_def)
    moreover have "scan a f (FreePool NameBuffer # es2)"
      using scan_idle_prepend [of "[FreePool NameBuffer]"] d(3) by simp
    ultimately have "scan (?a + a) (?f + f) es"
      unfolding d(1) by (rule scan_append)
    moreover have "balanced es1"
      using d(2) by cases (auto simp: quiet_def)
    ultimately show ?case
      using d by (intro exI [of _ "?a + a"] exI [of _ "?f + f"]) (auto simp: balanced_def)
  qed
qed

lemma ProcessDropBox_yields:
  "yields (ProcessDropBox E Root Counts) (\<lambda>Counts' es. \<exists>a f. scan a f es \<and> a + f \<le> MAX_CAPSULES \<and>
     Counts' = (fst Counts + a, snd Counts + f) \<and> balanced es)"
  unfolding ProcessDropBox_def openFile_def
proof (intro yields_ask_bind yields_prod yields_if yields_enumerate, goal_cases)
  case (1 r Status Dir)
  then show ?case
    by (auto intro!: yields_intros exI [of _ "0::nat"] scan_idle simp: balanced_def)
next
  case opened: (2 r Status Dir Reads es0)
  let ?pre = "(case r of (s, x) \<Rightarrow> OpenFile Root CAPSULE_DIR_NAME EFI_FILE_MODE_READ s x) # es0"
  show ?case
  proof (rule yields_bind [OF collect_names_yields], goal_cases)
    case names: (2 Names es)
    show ?case
    proof (rule yields_bind [OF apply_names_yields], intro yields_tell_bind yields_return, goal_cases)
      case (1 Counts' es')
      then obtain a f where d: "scan a f es'" "a + f = length Names"
        "Counts' = (fst Counts + a, snd Counts + f)" "\<forall>f. files_held es' f = 0"
        "\<forall>p. pool_excess es' p = (if p = NameBuffer then - int (length Names) else 0)"
        by blast
      have "scan a f ((?pre @ es) @ es' @ [CloseFile Dir])"
        using names opened by (intro scan_idle_prepend scan_idle_append d(1)) (auto simp: quiet_def)
      with d names opened show ?case
        by (intro exI [of _ a] exI [of _ f]) (auto simp: balanced_def quiet_def)
    qed
  qed simp
qed

lemma OpenVolumeRoot_yields:
  "yields (OpenVolumeRoot E h) (\<lambda>r es. effects es = [] \<and> (\<forall>p. pool_excess es p = 0) \<and>
     (\<forall>f. files_held es f = (if r = Some f then 1 else 0)))"
  unfolding OpenVolumeRoot_def handleProtocol_def openVolume_def by (auto intro!: yields_intros split: if_splits)

lemma DropBoxHasCapsules_yields: "yields (DropBoxHasCapsules E Root) (\<lambda>r es. quiet es)"
proof -
  have total: "find_staged rs = None \<longleftrightarrow> False" for rs
    using find_staged_total [of rs] by auto
  show ?thesis
    unfolding DropBoxHasCapsules_def openFile_def
    by (auto intro!: yields_enumerate yields_intros simp: quiet_def balanced_def total)
qed

lemma any_staged_yields: "yields (any_staged E hs) (\<lambda>r es. quiet es)"
proof (induction hs)
  case (Cons h hs)
  show ?case
    by (auto intro!: yields_intros yields_bind [OF OpenVolumeRoot_yields]
        yields_bind [OF DropBoxHasCapsules_yields] yields_weaken [OF Cons.IH]
        simp: quiet_def balanced_def)
qed (auto intro!: yields_intros simp: quiet_def balanced_def)

lemma process_volumes_yields:
  "yields (process_volumes E hs Counts) (\<lambda>Counts' es. \<exists>a f. scan a f es \<and>
     a + f \<le> MAX_CAPSULES * length hs \<and> Counts' = (fst Counts + a, snd Counts + f) \<and> balanced es)"
proof (induction hs arbitrary: Counts)
  case Nil
  show ?case by (auto intro!: yields_intros scan_idle simp: balanced_def)
next
  case (Cons h hs)
  show ?case
    unfolding process_volumes.simps
  proof (rule yields_bind [OF OpenVolumeRoot_yields], rule yields_option, goal_cases)
    case (1 r es)
    then show ?case
      by (intro yields_weaken [OF Cons.IH]) (force intro: scan_idle_prepend simp: balanced_def)
  next
    case opened: (2 r es Root)
    show ?case
    proof (rule yields_bind [OF ProcessDropBox_yields], rule yields_tell_bind,
        rule yields_weaken [OF Cons.IH], goal_cases)
      case (1 c1 es1 c2 es2)
      then obtain a f a' f' where d: "scan a f es1" "a + f \<le> MAX_CAPSULES" "balanced es1"
        "c1 = (fst Counts + a, snd Counts + f)" "scan a' f' es2" "balanced es2"
        "a' + f' \<le> MAX_CAPSULES * length hs" "c2 = (fst c1 + a', snd c1 + f')"
        by blast
      have "scan (a + a') (f + f') ((es @ es1 @ [CloseFile Root]) @ es2)"
        using opened by (intro scan_append scan_idle_prepend scan_idle_append d) auto
      with d opened show ?case
        by (intro exI [of _ "a + a'"] exI [of _ "f + f'"]) (auto simp: balanced_def)
    qed
  qed
qed

section \<open>The ReadyToBoot notification\<close>

fun boot_config :: "cod_event \<Rightarrow> bool" where
  "boot_config (SetVariable _ _ _) = True"
| "boot_config (ConnectController _ _) = True"
| "boot_config _ = False"

text \<open>
  What must immediately precede a configuration call: a recursive connect follows the read of
  that interface's descriptor, with the mass-storage class; a write of an OS-indication variable
  follows the read of the same variable and changes exactly the file-capsule bit of the value
  read (zero for a variable that does not exist).
\<close>

fun cod_step :: "cod_event option \<Rightarrow> cod_event \<Rightarrow> bool" where
  "cod_step p (ConnectController h True) = (case p of
     Some (UsbGetInterfaceDescriptor h' s c) \<Rightarrow> h' = h \<and> \<not> EFI_ERROR s \<and> c = USB_MASS_STORE_CLASS
   | _ \<Rightarrow> False)"
| "cod_step p (SetVariable v a d) = (case p of
     Some (GetVariable v' s d') \<Rightarrow> v' = v \<and> (case v of
         OsIndications \<Rightarrow> \<not> EFI_ERROR s \<and> bit d' 2 \<and> d = unset_bit 2 d'
       | OsIndicationsSupported \<Rightarrow> if EFI_ERROR s then s = EFI_NOT_FOUND \<and> d = 4
           else \<not> bit d' 2 \<and> d = set_bit 2 d')
   | _ \<Rightarrow> False)"
| "cod_step p _ = True"

lemma cod_step_mono: "cod_step None e \<Longrightarrow> cod_step p e"
  by (cases "(None :: cod_event option, e)" rule: cod_step.cases) auto

lemmas cod_justified_append = justified_append [of cod_step, OF cod_step_mono]

lemma cod_justified_quiet: "\<forall>e \<in> set (effects es). \<not> boot_config e \<Longrightarrow> justified cod_step p es"
proof (rule justified_free)
  fix q e assume "\<forall>e \<in> set (effects es). \<not> boot_config e" "e \<in> set es"
  then show "cod_step q e"
    by (cases "(q, e)" rule: cod_step.cases) auto
qed

definition configures :: "cod_trace \<Rightarrow> bool" where
  "configures es \<longleftrightarrow> balanced es \<and> (\<forall>e \<in> set (effects es). boot_config e) \<and> justified cod_step None es"

lemma capsule_bit: "w AND FILE_CAPSULE_DELIVERY_SUPPORTED = 0 \<longleftrightarrow> \<not> bit w 2"
  "w OR FILE_CAPSULE_DELIVERY_SUPPORTED = set_bit 2 w"
  "w AND NOT FILE_CAPSULE_DELIVERY_SUPPORTED = unset_bit 2 w"
  using and_exp_eq_0_iff_not_bit [of w 2]
  by (simp_all add: FILE_CAPSULE_DELIVERY_SUPPORTED_def set_bit_eq_or unset_bit_eq_and_not push_bit_eq_mult)

lemma Advertise_yields: "yields (AdvertiseFileCapsuleDelivery E) (\<lambda>r. configures)"
  unfolding AdvertiseFileCapsuleDelivery_def getVariable_def capsule_bit
  by (auto intro!: yields_intros simp: configures_def balanced_def set_bit_eq_or split: if_splits)

lemma Clear_yields: "yields (ClearFileCapsuleIndication E) (\<lambda>r. configures)"
  unfolding ClearFileCapsuleIndication_def getVariable_def capsule_bit
  by (auto intro!: yields_intros simp: configures_def balanced_def)

lemma configures_append: "configures es \<Longrightarrow> configures es' \<Longrightarrow> configures (es @ es')"
  by (auto simp: configures_def balanced_def intro: cod_justified_append)

lemma connect_host_controllers_yields: "yields (connect_host_controllers hs) (\<lambda>r. configures)"
proof (induction hs)
  case (Cons h hs)
  have "configures [ConnectController h False]" by (simp add: configures_def balanced_def)
  then show ?case
    using configures_append by (auto intro!: yields_intros yields_weaken [OF Cons.IH] dest: configures_append)
qed (auto intro!: yields_intros simp: configures_def balanced_def)

lemma connect_mass_storage_yields: "yields (connect_mass_storage E hs) (\<lambda>r. configures)"
proof (induction hs)
  case (Cons h hs)
  have idle: "configures (e # es)" if "configures es" "\<not> is_effect e" "\<forall>f. file_delta f e = 0"
    "\<forall>p. excess_delta p e = 0" for e es
    using configures_append [of "[e]" es] that cod_justified_quiet [of "[e]" None]
    by (auto simp: configures_def balanced_def)
  have "configures [UsbGetInterfaceDescriptor h s USB_MASS_STORE_CLASS, ConnectController h True]"
    if "\<not> EFI_ERROR s" for s
    using that by (simp add: configures_def balanced_def)
  note found = configures_append [OF this, simplified]
  show ?case
    unfolding connect_mass_storage.simps handleProtocol_def usbGetInterfaceDescriptor_def
    by (auto intro!: yields_intros yields_weaken [OF Cons.IH] idle [of _ "HandleProtocol h UsbIo s" for s]
        intro: idle found)
qed (auto intro!: yields_intros simp: configures_def balanced_def)

text \<open>A search bracketed by the allocation and the release of its handle buffer.\<close>

lemma configures_bracket:
  assumes "configures es" "\<not> EFI_ERROR s"
  shows "configures (LocateHandleBuffer p s hs # es @ [FreePool HandleBuffer])"
proof -
  have "justified cod_step None ([LocateHandleBuffer p s hs] @ es @ [FreePool HandleBuffer])"
    using assms by (intro cod_justified_append) (auto simp: configures_def)
  with assms show ?thesis
    by (auto simp: configures_def balanced_def)
qed

lemma configures_failed: "EFI_ERROR s \<Longrightarrow> configures [LocateHandleBuffer p s hs]"
  by (simp add: configures_def balanced_def)

lemma Connect_yields: "yields (ConnectUsbMassStorage E) (\<lambda>r. configures)"
proof -
  have pass: "yields (do { (Status, Handles) \<leftarrow> locateHandleBuffer E p;
      if EFI_ERROR Status then State_Monad.return ()
      else do { f Handles; tell (FreePool HandleBuffer) } }) (\<lambda>r. configures)"
    if "\<And>hs. yields (f hs) (\<lambda>r. configures)" for p and f :: "handle list \<Rightarrow> unit cod"
    unfolding locateHandleBuffer_def
    by (auto intro!: yields_intros yields_bind [OF that] configures_bracket configures_failed)
  have "yields (do { (do { (Status, Handles) \<leftarrow> locateHandleBuffer E Usb2Hc;
      if EFI_ERROR Status then State_Monad.return ()
      else do { connect_host_controllers Handles; tell (FreePool HandleBuffer) } });
      (Status, Handles) \<leftarrow> locateHandleBuffer E UsbIo;
      if EFI_ERROR Status then State_Monad.return ()
      else do { connect_mass_storage E Handles; tell (FreePool HandleBuffer) } }) (\<lambda>r. configures)"
    by (rule yields_bind [OF pass [OF connect_host_controllers_yields]],
        rule yields_weaken [OF pass [OF connect_mass_storage_yields]]) (rule configures_append)
  then show ?thesis
    by (simp add: ConnectUsbMassStorage_def case_prod_unfold)
qed

definition summary :: "nat \<Rightarrow> nat \<Rightarrow> cod_trace" where
  "summary a f = (if 0 < a then [Stall SUMMARY_STALL_US, ResetSystemCold] else []) @
     (if 0 < f then [Stall SUMMARY_STALL_US] else [])"

text \<open>One pass: configuration calls, then at most one scan, closed by its summary.\<close>

definition boot_pass :: "cod_trace \<Rightarrow> bool" where
  "boot_pass es \<longleftrightarrow> (\<forall>e \<in> set (effects es). boot_config e) \<or>
     (\<exists>pre sc post a f s hs. es = pre @ sc @ post @ summary a f \<and>
        (\<forall>e \<in> set (effects (pre @ post)). boot_config e) \<and> scan a f sc \<and>
        LocateHandleBuffer SimpleFileSystem s hs \<in> set pre \<and> a + f \<le> MAX_CAPSULES * length hs)"

lemma scan_quiet_config: "scan a f es \<Longrightarrow> e \<in> set (effects es) \<Longrightarrow> \<not> boot_config e"
  using scan_effects [of a f es] by (cases e) fastforce+

lemma scan_justified: "scan a f es \<Longrightarrow> justified cod_step None es"
  by (rule cod_justified_quiet) (auto dest: scan_quiet_config)

lemma process_tail_yields:
  "yields (do { (Applied, Failed) \<leftarrow> process_volumes E hs (0, 0);
      tell (FreePool HandleBuffer);
      ClearFileCapsuleIndication E;
      (if 0 < Applied then do { tell (Stall SUMMARY_STALL_US); tell ResetSystemCold }
       else State_Monad.return ());
      (if 0 < Failed then tell (Stall SUMMARY_STALL_US) else State_Monad.return ());
      State_Monad.return True })
    (\<lambda>r es. r \<and> (\<exists>sc post a f. es = sc @ FreePool HandleBuffer # post @ summary a f \<and> scan a f sc \<and>
       a + f \<le> MAX_CAPSULES * length hs \<and> balanced sc \<and> configures post))"
proof (rule yields_bind [OF process_volumes_yields], rule yields_prod, rule yields_tell_bind,
    rule yields_bind [OF Clear_yields], goal_cases)
  case (1 c sc Applied Failed u post)
  then obtain a f where d: "scan a f sc" "a + f \<le> MAX_CAPSULES * length hs" "balanced sc"
    "Applied = a" "Failed = f" by auto
  have "yields (do {
      (if 0 < a then do { tell (Stall SUMMARY_STALL_US); tell ResetSystemCold }
       else State_Monad.return ());
      (if 0 < f then tell (Stall SUMMARY_STALL_US) else State_Monad.return ());
      State_Monad.return True }) (\<lambda>r es. r \<and> es = summary a f)"
    by (auto intro!: yields_intros simp: summary_def)
  then show ?case
    unfolding d(4,5) by (rule yields_weaken) (use d 1 in auto)
qed

lemma quiet_configures: "quiet es \<Longrightarrow> configures es"
  by (auto simp: quiet_def configures_def intro: cod_justified_quiet)

lemma configures_pass: "configures es \<Longrightarrow> balanced es \<and> justified cod_step None es \<and> boot_pass es"
  by (auto simp: configures_def boot_pass_def)

lemma scanned_pass:
  assumes "configures cfg" "\<not> EFI_ERROR s" "quiet q" "scan a f sc" "a + f \<le> MAX_CAPSULES * length hs"
    "balanced sc" "configures post"
    and that: "es = cfg @ LocateHandleBuffer SimpleFileSystem s hs # q @ sc
      @ FreePool HandleBuffer # post @ summary a f"
  shows "balanced es \<and> justified cod_step None es \<and> boot_pass es"
proof -
  have es: "es = (cfg @ [LocateHandleBuffer SimpleFileSystem s hs] @ q) @ sc
      @ ([FreePool HandleBuffer] @ post) @ summary a f"
    using that by simp
  have cfg: "\<forall>e \<in> set (effects ((cfg @ [LocateHandleBuffer SimpleFileSystem s hs] @ q)
      @ [FreePool HandleBuffer] @ post)). boot_config e"
    using assms by (auto simp: configures_def quiet_def filter_empty_conv)
  have "boot_pass es"
    unfolding boot_pass_def using assms cfg
    by (intro disjI2 exI [of _ "cfg @ [LocateHandleBuffer SimpleFileSystem s hs] @ q"] exI [of _ sc]
        exI [of _ "[FreePool HandleBuffer] @ post"] exI [of _ a] exI [of _ f] exI [of _ s] exI [of _ hs]
        conjI) (use es in auto)
  moreover have "justified cod_step None es"
    unfolding es using assms
    by (intro cod_justified_append scan_justified [OF assms(4)])
      (auto simp: configures_def quiet_def summary_def intro: cod_justified_quiet)
  moreover have "balanced es"
    unfolding es using assms
    by (auto simp: balanced_def configures_def quiet_def summary_def)
  ultimately show ?thesis by blast
qed

lemma OnReadyToBoot_yields:
  "yields (OnReadyToBoot E ScanDone) (\<lambda>r es. r \<and> (ScanDone \<longrightarrow> es = []) \<and> balanced es \<and>
     justified cod_step None es \<and> boot_pass es)"
proof (cases ScanDone)
  case True
  then show ?thesis
    by (auto simp: OnReadyToBoot_def boot_pass_def balanced_def intro!: yields_intros)
next
  case False
  have "yields (OnReadyToBoot E False) (\<lambda>r es. r \<and> balanced es \<and> justified cod_step None es \<and> boot_pass es)"
    unfolding OnReadyToBoot_def locateHandleBuffer_def if_False
  proof (rule yields_bind [OF Advertise_yields], rule yields_bind [OF Connect_yields],
      intro yields_ask_bind yields_prod yields_if, goal_cases)
    case (1 u c1 u' c2 lr s hs)
    then have "configures (c1 @ c2 @ [LocateHandleBuffer SimpleFileSystem s hs] @ post)"
      if "configures post" for post
      using that by (intro configures_append configures_failed)
    note done' = configures_pass [OF this]
    show ?case
      by (intro yields_bind [OF Clear_yields] yields_return) (use 1 in \<open>simp add: done' [simplified]\<close>)
  next
    case outer: (2 u c1 u' c2 lr s hs)
    note cfg = configures_append [OF outer(1,2)]
    show ?case
    proof (rule yields_bind [OF any_staged_yields], rule yields_if, goal_cases)
      case (1 r q)
      have "configures (c1 @ c2 @ LocateHandleBuffer SimpleFileSystem s hs # q @ post @ [FreePool HandleBuffer])"
        if "configures post" for post
        using configures_bracket [OF configures_append [OF quiet_configures [OF 1(1)] that], of s] outer
        by (auto intro!: configures_append)
      note done' = configures_pass [OF this]
      show ?case
        by (intro yields_bind [OF Clear_yields] yields_tell_bind yields_return)
          (use outer in \<open>simp add: done'\<close>)
    next
      case inner: (2 r q)
      show ?case
      proof (rule yields_weaken [OF process_tail_yields], goal_cases)
        case (1 ok es)
        then obtain sc post a f where d: "ok" "es = sc @ FreePool HandleBuffer # post @ summary a f"
          "scan a f sc" "a + f \<le> MAX_CAPSULES * length hs" "balanced sc" "configures post"
          by blast
        from scanned_pass [OF cfg outer(4) inner(1) d(3-6) refl] d(1,2) outer(3) show ?case
          by simp
      qed
    qed
  qed
  with False show ?thesis by simp
qed

end
