(* ===== verification/CapsuleSafety.thy ===== *)
theory CapsuleSafety
  imports CapsuleOnDisk
begin

text \<open>
  The safety properties of the capsule scanner, over every environment: what precedes a cold
  reset, what reaches UpdateCapsule, what is deleted, which variables and controllers are touched,
  and which handles and buffers are released.  The concrete environment below runs the scanner on one staged
  capsule; the theorems are instantiated with it.
\<close>

section \<open>A concrete environment\<close>

text \<open>
  One USB interface, one volume, one file \<open>f.cap\<close> of version 2 over a running version 1.  With
  \<^term>\<open>snapshot\<close> the FMP can be read before the update and records a fresh attempt; without
  it the first read fails for lack of memory and the record never changes.
\<close>

definition demo_capsule :: "u8 list" where
  "demo_capsule = mk_header mFmpCapsuleGuid 28 0 45 @ le32 FMP_PAYLOAD_SIGNATURE @ le32 16 @ le32 2 @ le32 1 @ [0]"

definition demo_env :: "bool \<Rightarrow> cod_env" where
  "demo_env snapshot = \<lparr>
     e_GetVariable = \<lambda>t v. (EFI_NOT_FOUND, 0),
     e_LocateHandleBuffer = \<lambda>t p. (case p of
         Usb2Hc \<Rightarrow> (EFI_NOT_FOUND, []) | UsbIo \<Rightarrow> (EFI_SUCCESS, [5])
       | SimpleFileSystem \<Rightarrow> (EFI_SUCCESS, [7]) | Fmp \<Rightarrow> (EFI_SUCCESS, [9])),
     e_HandleProtocol = \<lambda>t h p. EFI_SUCCESS,
     e_UsbGetInterfaceDescriptor = \<lambda>t h. (EFI_SUCCESS, 8),
     e_OpenVolume = \<lambda>t h. (EFI_SUCCESS, 1),
     e_OpenFile = \<lambda>t d n m. (EFI_SUCCESS, if n = CAPSULE_DIR_NAME then 2 else 3),
     e_ReadDirectory = \<lambda>t d. [\<lparr>dr_Status = EFI_SUCCESS, dr_Info = Some \<lparr>fi_Attribute = 0x20,
        fi_FileSize = 45, fi_FileName = [0x66, 0x2e, 0x63, 0x61, 0x70]\<rparr>\<rparr>],
     e_GetSize = \<lambda>t f. (EFI_SUCCESS, 45),
     e_AllocatePool = \<lambda>t p n. p \<noteq> InfoBuffer \<or> snapshot \<or> list_ex is_update t,
     e_ReadFile = \<lambda>t f n. (EFI_SUCCESS, demo_capsule),
     e_GetImageInfoSize = \<lambda>t h. (EFI_BUFFER_TOO_SMALL, 100),
     e_GetImageInfo = \<lambda>t h. (EFI_SUCCESS, \<lparr>DescriptorVersion = 4, DescriptorCount = 1,
        ImageTypeId = mNucCapsuleFmpImageTypeId, LastAttemptStatus = 0,
        LastAttemptVersion = (if snapshot \<and> \<not> list_ex is_update t then 0 else 2),
        RunningVersion = 1, PackageVersionName = True\<rparr>),
     e_UpdateCapsule = \<lambda>t c. EFI_SUCCESS,
     e_DeleteFile = \<lambda>t f. EFI_SUCCESS\<rparr>"

lemma demo_len: "length demo_capsule = 45"
  by (simp add: demo_capsule_def mk_header_fields [OF length_guid_mFmp])

lemma demo_capsule_ok: "capsule_ok demo_capsule 45"
  unfolding demo_capsule_def capsule_ok_def
  by (simp only: mk_header_fields [OF length_guid_mFmp]) simp

lemma demo_valid: "NucCapsuleValidateHeader (Some demo_capsule) 45 True True = Some (EFI_SUCCESS, Some (45, 0))"
  using validate_header_eq [of 45 demo_capsule] demo_capsule_ok unfolding demo_len
  by (simp add: demo_capsule_def mk_header_fields [OF length_guid_mFmp])

lemma demo_here: "payload_here demo_capsule 45 28"
  using u32_at_le32 [of "mk_header mFmpCapsuleGuid 28 0 45" 28 FMP_PAYLOAD_SIGNATURE]
   u32_at_le32 [of "mk_header mFmpCapsuleGuid 28 0 45 @ le32 FMP_PAYLOAD_SIGNATURE" 32 16]
  by (simp add: payload_here_def demo_capsule_def mk_header_fields [OF length_guid_mFmp] )

lemma demo_capsule_find: "find (payload_here demo_capsule 45) [0..<30] = Some 28"
  unfolding demo_capsule_def mk_header_def guid_bytes_def mFmpCapsuleGuid_def
  by (simp add: upt_rec payload_here_def u32_at_def from_le32_def le32_def le16_def FMP_PAYLOAD_SIGNATURE_def)


lemma demo_version: "NucCapsuleGetPayloadVersion (Some demo_capsule) 45 True = Some (Some 2)"
  using u32_at_le32 [of "mk_header mFmpCapsuleGuid 28 0 45 @ le32 FMP_PAYLOAD_SIGNATURE @ le32 16" 36 2]
    payload_version_eq [of 45 demo_capsule]
  by (simp add: demo_len demo_capsule_find) (simp add: demo_capsule_def mk_header_fields [OF length_guid_mFmp])

lemma demo_name: "NucCapsuleIsCandidateFile (Some [0x66, 0x2e, 0x63, 0x61, 0x70, 0]) = Some True"
  using candidate_file_eq [of "[0x66, 0x2e, 0x63, 0x61, 0x70]" "[]"] by (simp add: Ext_def lower16_def)

lemmas demo_facts = demo_len demo_valid demo_version demo_name

lemmas demo_run =
  ApplyOneCapsule_def apply_open_def apply_load_def apply_update_def apply_confirm_def
  GetFmpLastAttemptStatus_def cod_services demo_env_def demo_facts CAPSULE_DIR_NAME_def
  platform_fmp_def MAX_CAPSULE_BYTES_def OnReadyToBoot_def AdvertiseFileCapsuleDelivery_def
  ConnectUsbMassStorage_def ClearFileCapsuleIndication_def OpenVolumeRoot_def DropBoxHasCapsules_def
  ProcessDropBox_def entry_buffer_def staged_entry_def EFI_FILE_DIRECTORY_def MAX_CAPSULES_def USB_MASS_STORE_CLASS_def
  FILE_CAPSULE_DELIVERY_SUPPORTED_def

lemma demo_resets: "ResetSystemCold \<in> set (snd (run_state (OnReadyToBoot (demo_env True) False) []))"
  by (simp add: demo_run)

section \<open>Consequences of a pass\<close>

lemma OnReadyToBoot_pass:
  assumes "run_state (OnReadyToBoot E d) t = (r, t @ es)"
  shows "r" "d \<longrightarrow> es = []" "balanced es" "justified cod_step None es" "boot_pass es"
  using yields_run [OF OnReadyToBoot_yields assms] by auto

lemma notin_by_effects: "is_effect e \<Longrightarrow> e \<notin> set (effects es) \<Longrightarrow> e \<notin> set es"
  by simp

lemma config_no:
  assumes "\<forall>e \<in> set (effects es). boot_config e" "is_effect e" "\<not> boot_config e"
  shows "e \<notin> set es"
  using assms by auto

lemma scan_no:
  assumes "scan a f es" "is_effect e" "\<not> is_update e" "\<forall>f s. e \<noteq> DeleteFile f s"
  shows "e \<notin> set es"
  using scan_effects [OF assms(1)] assms(2-) by auto

text \<open>A machine-changing call that is not configuration places the trace in a scan.\<close>

lemma boot_pass_scan:
  assumes "boot_pass es" "e \<in> set es" "is_effect e" "\<not> boot_config e"
  obtains pre sc post a f where "es = pre @ sc @ post @ summary a f" "scan a f sc"
    "e \<notin> set pre" "e \<notin> set post"
proof -
  have "\<not> (\<forall>e \<in> set (effects es). boot_config e)"
    using assms by auto
  then obtain pre sc post a f where es: "es = pre @ sc @ post @ summary a f" "scan a f sc"
    and cfg: "\<forall>e \<in> set (effects (pre @ post)). boot_config e"
    using assms(1) unfolding boot_pass_def by blast
  from config_no [OF cfg assms(3,4)] es that show thesis
    by simp
qed

section \<open>Properties\<close>

text \<open>
  C4: whatever the services answer, the handling of one capsule file ends and its interactions
  follow the protocol: TRUE only for a capsule that was validated, passed the version gate, was
  accepted by UpdateCapsule, is then reported by the FMP as a success (a changed one, if the record could be
  read before) and is deleted.
\<close>

theorem apply_refines_protocol:
  "\<exists>r es. run_state (ApplyOneCapsule E Dir Name) t = (r, t @ es) \<and> apply_protocol Dir Name r es"
  using ApplyOneCapsule_yields by (rule yieldsD) blast

text \<open>
  C3: the machine is cold-reset only after a capsule was validated, accepted by UpdateCapsule and
  then deleted with EFI\_SUCCESS, all in the same pass and before the reset, where after the submission the
  platform's FMP reported success for a non-zero version.  Whenever the FMP could be read before the submission, that
  record differs from the one before.  When it could not be read, the code does not compare, and a record
  that was there before is accepted, although the comment at the head of the file asks for a changed record.
\<close>

theorem reset_only_after_proven_apply:
  assumes "run_state (OnReadyToBoot E d) t = (r, t @ es)" and "ResetSystemCold \<in> set es"
  shows "\<exists>p0 p1 c s mid File q A.
    es = p0 @ p1 @ UpdateCapsule c s # mid @ DeleteFile File EFI_SUCCESS # q \<and>
    ResetSystemCold \<in> set q \<and> ResetSystemCold \<notin> set (p0 @ p1 @ mid) \<and>
    capsule_ok c (length c) \<and> snapshot_taken p1 \<and> gate_passed c (fmp_record p1) \<and>
    \<not> EFI_ERROR s \<and> fmp_record mid = Some A \<and> LastAttemptStatus A = 0 \<and> LastAttemptVersion A \<noteq> 0 \<and>
    (case fmp_record p1 of
       None \<Rightarrow> True
     | Some B \<Rightarrow> (LastAttemptVersion A, LastAttemptStatus A) \<noteq> (LastAttemptVersion B, LastAttemptStatus B))"
proof -
  obtain pre sc post a f where es: "es = pre @ sc @ post @ summary a f" and "scan a f sc"
    and no: "ResetSystemCold \<notin> set pre" "ResetSystemCold \<notin> set post"
    by (rule boot_pass_scan [OF OnReadyToBoot_pass(5) [OF assms(1)] assms(2)]) auto
  have no': "ResetSystemCold \<notin> set sc"
    using scan_no [OF \<open>scan a f sc\<close>, of ResetSystemCold] by simp
  have sum: "ResetSystemCold \<in> set (summary a f)"
    using assms(2) no no' unfolding es by simp
  then have "0 < a"
    by (auto simp: summary_def split: if_splits)
  from scan_has_applied [OF \<open>scan a f sc\<close> this] obtain p Dir Name m q where
    sc: "sc = p @ m @ q" and "apply_protocol Dir Name True m"
    by blast
  from this(2) show ?thesis
  proof cases
    case (applied load File sr c pre' s mid so)
    let ?p0 = "pre @ p @ load @ [ReadFile File sr c]" and ?q = "q @ post @ summary a f"
    have "es = ?p0 @ pre' @ UpdateCapsule c s # mid @ DeleteFile File EFI_SUCCESS # ?q"
      by (simp add: es sc applied(1))
    moreover have "ResetSystemCold \<notin> set (?p0 @ pre' @ mid)"
      using no no' by (simp add: sc applied(1))
    moreover have "ResetSystemCold \<in> set ?q"
      using sum by simp
    moreover obtain A where "fmp_record mid = Some A" "LastAttemptStatus A = 0" "LastAttemptVersion A \<noteq> 0"
      "case fmp_record pre' of None \<Rightarrow> True
       | Some B \<Rightarrow> (LastAttemptVersion A, LastAttemptStatus A) \<noteq> (LastAttemptVersion B, LastAttemptStatus B)"
      using applied(12) unfolding proven_def by (auto split: option.splits)
    ultimately show ?thesis
      using applied by blast
  qed simp_all
qed

theorem reset_only_after_proven_apply_witness:
  "\<exists>p0 p1 c s mid File q A.
    snd (run_state (OnReadyToBoot (demo_env True) False) []) =
      p0 @ p1 @ UpdateCapsule c s # mid @ DeleteFile File EFI_SUCCESS # q \<and>
    ResetSystemCold \<in> set q \<and> fmp_record mid = Some A \<and> LastAttemptStatus A = 0 \<and> LastAttemptVersion A \<noteq> 0"
proof -
  have "run_state (OnReadyToBoot (demo_env True) False) [] =
      (fst (run_state (OnReadyToBoot (demo_env True) False) []),
       [] @ snd (run_state (OnReadyToBoot (demo_env True) False) []))"
    by simp
  from reset_only_after_proven_apply [OF this demo_resets] show ?thesis
    by blast
qed

text \<open>
  C19: in every pass, only bytes of a validated FMP capsule without the persist flag reach
  UpdateCapsule, and only after the running version was looked up and differs from theirs
  (whenever both are known).
\<close>

theorem submitted_only_when_checked:
  assumes "run_state (OnReadyToBoot E d) t = (r, t @ before @ UpdateCapsule c s # after)"
  shows "capsule_ok c (length c) \<and>
    (\<exists>p File sr pre. before = p @ ReadFile File sr c # pre \<and> snapshot_taken pre \<and>
       gate_passed c (fmp_record pre))"
proof -
  let ?es = "before @ UpdateCapsule c s # after"
  obtain pre sc post a f where es: "?es = pre @ sc @ post @ summary a f" and "scan a f sc"
    and "UpdateCapsule c s \<notin> set pre" "UpdateCapsule c s \<notin> set post"
    by (rule boot_pass_scan [OF OnReadyToBoot_pass(5) [OF assms], of "UpdateCapsule c s"]) auto
  then have "UpdateCapsule c s \<notin> set pre" "UpdateCapsule c s \<notin> set (post @ summary a f)"
    by (auto simp: summary_def)
  moreover from peel_left [OF es this(1)] obtain q where
    q: "before = pre @ q" "q @ UpdateCapsule c s # after = sc @ post @ summary a f"
    by auto
  ultimately obtain q' where "sc = q @ UpdateCapsule c s # q'"
    using peel_right [OF q(2)] by blast
  with \<open>scan a f sc\<close> have "submitted_well before c"
    unfolding q(1) by (intro submitted_well_append scan_submitted)
  then show ?thesis
    unfolding submitted_well_def .
qed

lemma demo_submits:
  obtains before after where "run_state (OnReadyToBoot (demo_env True) False) [] =
     (True, [] @ before @ UpdateCapsule demo_capsule EFI_SUCCESS # after)"
proof -
  let ?run = "run_state (OnReadyToBoot (demo_env True) False) []"
  have "fst (run_state (OnReadyToBoot (demo_env True) False) [])"
    "UpdateCapsule demo_capsule EFI_SUCCESS \<in> set (snd (run_state (OnReadyToBoot (demo_env True) False) []))"
    by (simp_all add: demo_run)
  moreover from split_list [OF this(2)] obtain before after where
    "snd ?run = before @ UpdateCapsule demo_capsule EFI_SUCCESS # after"
    by blast
  ultimately have "?run = (True, [] @ before @ UpdateCapsule demo_capsule EFI_SUCCESS # after)"
    unfolding prod_eq_iff by simp
  then show thesis by (rule that)
qed

theorem submitted_only_when_checked_witness:
  "\<exists>before after. snd (run_state (OnReadyToBoot (demo_env True) False) []) =
      before @ UpdateCapsule demo_capsule EFI_SUCCESS # after \<and>
    capsule_ok demo_capsule (length demo_capsule) \<and>
    (\<exists>p File sr pre. before = p @ ReadFile File sr demo_capsule # pre \<and> snapshot_taken pre \<and>
       gate_passed demo_capsule (fmp_record pre))"
proof -
  obtain before after where run: "run_state (OnReadyToBoot (demo_env True) False) [] =
      (True, [] @ before @ UpdateCapsule demo_capsule EFI_SUCCESS # after)"
    by (rule demo_submits)
  have "snd (run_state (OnReadyToBoot (demo_env True) False) []) =
      before @ UpdateCapsule demo_capsule EFI_SUCCESS # after"
    unfolding run by simp
  with submitted_only_when_checked [OF run] show ?thesis
    by blast
qed

text \<open>
  C21: every pass closes each file handle as often as it was opened and frees every pool buffer it acquired: the
  capsule, the handle lists, the descriptors with their version names, and the copied file names.  The one
  exception is the entry buffer of a directory enumeration, which stays allocated for exactly those
  enumerations that fail after the first entry or stop at a staged entry before the end.  The pass never reads outside a
  buffer, and touches the rest of the machine only as justified
  by the call just before: a recursive connect by a mass-storage descriptor of that interface, an
  OS-indication write by a read of that variable, of which it changes only the capsule bit.
\<close>

theorem pass_is_clean:
  "\<exists>es. run_state (OnReadyToBoot E d) t = (True, t @ es) \<and> (\<forall>f. files_held es f = 0) \<and>
     (\<forall>p. pool_held es p = (if p = EntryBuffer then int (length (filter left_early es)) else 0)) \<and> Fault \<notin> set es \<and> justified cod_step None es"
proof -
  obtain r es where run: "run_state (OnReadyToBoot E d) t = (r, t @ es)"
    using OnReadyToBoot_yields by (rule yieldsD)
  note pass = OnReadyToBoot_pass [OF run]
  have "Fault \<notin> set es"
  proof
    assume "Fault \<in> set es"
    then obtain pre sc post a f where "es = pre @ sc @ post @ summary a f" "scan a f sc"
      "Fault \<notin> set pre" "Fault \<notin> set post"
      by (rule boot_pass_scan [OF pass(5)]) auto
    moreover from this(2) have "Fault \<notin> set sc"
      by (rule scan_no) auto
    ultimately show False
      using \<open>Fault \<in> set es\<close> by (auto simp: summary_def split: if_splits)
  qed
  with run pass show ?thesis
    by (auto simp: balanced_def pool_excess_eq)
qed

text \<open>
  C20: a capsule that is not reported as applied is removed from the volume only when its own
  payload version is the running one; in every other case the file stays staged.
\<close>

theorem unapplied_stays_staged:
  assumes "run_state (ApplyOneCapsule E Dir Name) t = (False, t @ es)"
    and "DeleteFile File EFI_SUCCESS \<in> set es"
  shows "\<exists>load sr c rest v B. es = load @ ReadFile File sr c # rest \<and>
    NucCapsuleGetPayloadVersion (Some c) (length c) True = Some (Some v) \<and>
    fmp_record rest = Some B \<and> RunningVersion B = v \<and> filter is_update es = []"
proof -
  have eff: "DeleteFile File EFI_SUCCESS \<in> set (effects es)"
    using assms(2) by simp
  from yields_run [OF ApplyOneCapsule_yields assms(1)] show ?thesis
  proof cases
    case refused
    with eff show ?thesis by (simp add: quiet_def del: set_filter)
  next
    case (already_running load f sr c rest s so)
    have "f = File"
      using eff unfolding already_running(3) by simp
    moreover have "filter is_update es = []"
      unfolding updates_effects [of es] already_running(3) by simp
    moreover obtain v B where "NucCapsuleGetPayloadVersion (Some c) (length c) True = Some (Some v)"
      "fmp_record rest = Some B" "RunningVersion B = v"
      using already_running(6) by (auto simp: gate_passed_def)
    ultimately show ?thesis
      using already_running(1) by blast
  next
    case (not_applied load f sr c pre s post)
    then show ?thesis
      using eff by (auto simp del: set_filter)
  qed simp
qed

text \<open>The same environment on a machine that already runs version 2.\<close>

definition demo_env_current :: cod_env where
  "demo_env_current = (demo_env True)\<lparr>e_GetImageInfo := \<lambda>t h. (EFI_SUCCESS, \<lparr>DescriptorVersion = 4,
     DescriptorCount = 1, ImageTypeId = mNucCapsuleFmpImageTypeId, LastAttemptStatus = 0,
     LastAttemptVersion = 2, RunningVersion = 2, PackageVersionName = True\<rparr>)\<rparr>"

lemma demo_current_run:
  "run_state (ApplyOneCapsule demo_env_current 2 [0x66, 0x2e, 0x63, 0x61, 0x70]) [] = (False, [] @
     [OpenFile 2 [0x66, 0x2e, 0x63, 0x61, 0x70] (EFI_FILE_MODE_READ OR EFI_FILE_MODE_WRITE) EFI_SUCCESS 3,
      GetSize 3 EFI_SUCCESS 45, AllocatePool CapsuleBuffer True, ReadFile 3 EFI_SUCCESS demo_capsule,
      LocateHandleBuffer Fmp EFI_SUCCESS [9], HandleProtocol 9 Fmp EFI_SUCCESS,
      GetImageInfoSize 9 EFI_BUFFER_TOO_SMALL, AllocatePool InfoBuffer True,
      GetImageInfo 9 EFI_SUCCESS \<lparr>DescriptorVersion = 4, DescriptorCount = 1,
        ImageTypeId = mNucCapsuleFmpImageTypeId, LastAttemptStatus = 0,
        LastAttemptVersion = 2, RunningVersion = 2, PackageVersionName = True\<rparr>,
      FreePool VersionNameBuffer, FreePool InfoBuffer, FreePool HandleBuffer, DeleteFile 3 EFI_SUCCESS, FreePool CapsuleBuffer])"
  by (simp add: demo_run demo_env_current_def)

theorem unapplied_stays_staged_witness:
  "\<exists>es c v. run_state (ApplyOneCapsule demo_env_current 2 [0x66, 0x2e, 0x63, 0x61, 0x70]) [] = (False, es) \<and>
     NucCapsuleGetPayloadVersion (Some c) (length c) True = Some (Some v) \<and> filter is_update es = []"
  using unapplied_stays_staged [OF demo_current_run, of 3] demo_current_run by auto

text \<open>
  C23: the scan submits at most eight capsules per located volume, whatever the directories hold.
\<close>

theorem submissions_bounded:
  "\<exists>es. run_state (OnReadyToBoot E d) t = (True, t @ es) \<and>
     (filter is_update es = [] \<or>
      (\<exists>s hs. LocateHandleBuffer SimpleFileSystem s hs \<in> set es \<and>
         length (filter is_update es) \<le> 8 * length hs))"
proof -
  obtain r es where run: "run_state (OnReadyToBoot E d) t = (r, t @ es)"
    using OnReadyToBoot_yields by (rule yieldsD)
  note pass = OnReadyToBoot_pass [OF run]
  have config: "filter is_update xs = []" if "\<forall>e \<in> set (effects xs). boot_config e" for xs
    using that by (fastforce simp: filter_empty_conv elim: is_update.elims(2))
  have "filter is_update es = [] \<or> (\<exists>s hs. LocateHandleBuffer SimpleFileSystem s hs \<in> set es \<and>
      length (filter is_update es) \<le> 8 * length hs)"
    using pass(5) unfolding boot_pass_def
  proof (elim disjE exE conjE)
    fix pre sc post a f s hs
    assume es: "es = pre @ sc @ post @ summary a f" "scan a f sc"
      "\<forall>e \<in> set (effects (pre @ post)). boot_config e" "LocateHandleBuffer SimpleFileSystem s hs \<in> set pre"
      "a + f \<le> MAX_CAPSULES * length hs"
    then have "filter is_update es = filter is_update sc"
      using config [of pre] config [of post] by (simp add: summary_def)
    with es scan_submissions [of a f sc] show ?thesis
      by (auto simp: MAX_CAPSULES_def intro!: exI [of _ s] exI [of _ hs])
  qed (simp add: config)
  with run pass(1) show ?thesis by auto
qed

text \<open>
  the scan runs once per boot: a second ReadyToBoot notification interacts with nothing.
\<close>

theorem second_notification_idle:
  "run_state (do { d' \<leftarrow> OnReadyToBoot E d; OnReadyToBoot E d' }) t = run_state (OnReadyToBoot E d) t"
proof -
  obtain r es where "run_state (OnReadyToBoot E d) t = (r, t @ es)" "r"
    using OnReadyToBoot_yields by (rule yieldsD) blast
  then show ?thesis
    by (simp add: OnReadyToBoot_def [of E True])
qed

text \<open>
  the documentation requires the last-attempt record to have changed before an apply is
  reported.  The code skips that test when the record could not be read before the update: here
  the FMP's record is the same at every read, and the capsule is still reported as applied and
  its file deleted.
\<close>

theorem unchanged_record_accepted:
  "(\<forall>t t' h. e_GetImageInfo (demo_env False) t h = e_GetImageInfo (demo_env False) t' h) \<and>
   fst (run_state (ApplyOneCapsule (demo_env False) 2 [0x66, 0x2e, 0x63, 0x61, 0x70]) []) \<and>
   DeleteFile 3 EFI_SUCCESS \<in>
     set (snd (run_state (ApplyOneCapsule (demo_env False) 2 [0x66, 0x2e, 0x63, 0x61, 0x70]) []))"
  by (simp add: demo_run)

end
