(* ===== verification/RxRing.thy ===== *)
theory RxRing
  imports NucPrelude
begin

text \<open>
  The receive ring of the CDC-ACM serial driver (UsbCdcAcmDxe/SerialIo.c and UsbCdcAcmDxe.h): the
  device context, RxCount, RxFree, RxPut and the byte loop of UsbCdcAcmRead.  The contract the
  driver relies on is the locale \<open>bounded_fifo\<close>; the ring is shown to be an instance, so that the
  stream property proved in the locale holds of it.
\<close>

section \<open>The contract of a bounded FIFO\<close>

datatype 'a fifo_op = Put "'a list" | Get nat

text \<open>A run of operations: the bytes delivered by the reads, and the final queue.\<close>

fun fifo_run :: "('a list \<Rightarrow> 'q \<Rightarrow> 'q) \<Rightarrow> (nat \<Rightarrow> 'q \<Rightarrow> 'a list \<times> 'q) \<Rightarrow> 'a fifo_op list \<Rightarrow> 'q \<Rightarrow>
  'a list \<times> 'q" where
  "fifo_run put get [] q = ([], q)"
| "fifo_run put get (Put xs # ops) q = fifo_run put get ops (put xs q)"
| "fifo_run put get (Get n # ops) q =
     (case get n q of (ys, q') \<Rightarrow> case fifo_run put get ops q' of (zs, q'') \<Rightarrow> (ys @ zs, q''))"

fun put_bytes :: "'a fifo_op list \<Rightarrow> 'a list" where
  "put_bytes [] = []"
| "put_bytes (Put xs # ops) = xs @ put_bytes ops"
| "put_bytes (Get n # ops) = put_bytes ops"

text \<open>Every put of a run finds room for all its bytes.\<close>

fun fits :: "('q \<Rightarrow> 'a list) \<Rightarrow> nat \<Rightarrow> ('a list \<Rightarrow> 'q \<Rightarrow> 'q) \<Rightarrow> (nat \<Rightarrow> 'q \<Rightarrow> 'a list \<times> 'q) \<Rightarrow>
  'a fifo_op list \<Rightarrow> 'q \<Rightarrow> bool" where
  "fits contents cap put get [] q = True"
| "fits contents cap put get (Put xs # ops) q =
     (length xs \<le> cap - length (contents q) \<and> fits contents cap put get ops (put xs q))"
| "fits contents cap put get (Get n # ops) q = fits contents cap put get ops (snd (get n q))"

locale bounded_fifo =
  fixes contents :: "'q \<Rightarrow> 'a list"
    and invar :: "'q \<Rightarrow> bool"
    and capacity :: nat
    and put :: "'a list \<Rightarrow> 'q \<Rightarrow> 'q"
    and get :: "nat \<Rightarrow> 'q \<Rightarrow> 'a list \<times> 'q"
  assumes bounded: "invar q \<Longrightarrow> length (contents q) \<le> capacity"
    and put_invar: "invar q \<Longrightarrow> invar (put xs q)"
    and put_contents: "invar q \<Longrightarrow>
      contents (put xs q) = contents q @ take (capacity - length (contents q)) xs"
    and get_invar: "invar q \<Longrightarrow> invar (snd (get n q))"
    and get_result: "invar q \<Longrightarrow> fst (get n q) = take n (contents q)"
    and get_contents: "invar q \<Longrightarrow> contents (snd (get n q)) = drop n (contents q)"
begin

text \<open>A put that fits loses nothing.\<close>

lemma put_fits:
  "invar q \<Longrightarrow> length xs \<le> capacity - length (contents q) \<Longrightarrow> contents (put xs q) = contents q @ xs"
  by (simp add: put_contents)

text \<open>A queue that was empty hands back exactly what was put.\<close>

lemma put_get:
  "invar q \<Longrightarrow> contents q = [] \<Longrightarrow> length xs \<le> capacity \<Longrightarrow> fst (get (length xs) (put xs q)) = xs"
  by (simp add: get_result put_invar put_contents)

text \<open>
  The stream property: over any interleaving of puts that fit and gets, the bytes delivered
  followed by those still held are the initial contents followed by the bytes put.
\<close>

lemma run_exact:
  "invar q \<Longrightarrow> fits contents capacity put get ops q \<Longrightarrow>
   invar (snd (fifo_run put get ops q)) \<and>
   fst (fifo_run put get ops q) @ contents (snd (fifo_run put get ops q)) = contents q @ put_bytes ops"
proof (induction ops arbitrary: q)
  case (Cons op ops)
  show ?case
  proof (cases op)
    case (Put xs)
    with Cons.prems Cons.IH [of "put xs q"] show ?thesis
      by (simp add: put_invar put_fits)
  next
    case (Get n)
    obtain ys q' where g: "get n q = (ys, q')" by (cases "get n q")
    then have "invar q'" "ys = take n (contents q)" "contents q' = drop n (contents q)"
      using Cons.prems(1) get_invar [of q n] get_result [of q n] get_contents [of q n] by simp_all
    with Cons.prems Cons.IH [of q'] Get g show ?thesis
      by (simp add: split_beta flip: append_assoc)
        (metis append_assoc append_take_drop_id)
  qed
qed simp

end

section \<open>The device context and the ring\<close>

definition USB_CDC_ACM_RX_FIFO_SIZE :: nat where "USB_CDC_ACM_RX_FIFO_SIZE = 4096"

record serial_mode =
  ControlMask :: u32
  Timeout :: u32
  BaudRate :: u64
  ReceiveFifoDepth :: u32
  DataBits :: u32
  Parity :: u32
  StopBits :: u32

record acm_dev =
  ControllerHandle :: nat
  DataHandle :: nat
  SerialMode :: serial_mode
  DevicePath :: bool
  ControlInterfaceNumber :: u8
  BulkIn :: u8
  BulkOut :: u8
  BulkInMaxPacket :: nat
  BulkOutMaxPacket :: nat
  PollEvent :: bool
  RxScratch :: bool
  Rx :: "u8 list"
  RxHead :: nat
  RxTail :: nat
  ControlBits :: u32

definition RxCount :: "acm_dev \<Rightarrow> nat" where
  "RxCount Dev =
     (if RxTail Dev \<le> RxHead Dev then RxHead Dev - RxTail Dev
      else USB_CDC_ACM_RX_FIFO_SIZE - RxTail Dev + RxHead Dev)"

definition RxFree :: "acm_dev \<Rightarrow> nat" where
  "RxFree Dev = USB_CDC_ACM_RX_FIFO_SIZE - 1 - RxCount Dev"

fun rx_store :: "u8 list \<Rightarrow> acm_dev \<Rightarrow> acm_dev" where
  "rx_store [] Dev = Dev"
| "rx_store (b # bs) Dev =
     rx_store bs (Dev\<lparr>Rx := (Rx Dev)[RxHead Dev := b],
       RxHead := (RxHead Dev + 1) mod USB_CDC_ACM_RX_FIFO_SIZE\<rparr>)"

definition RxPut :: "u8 list \<Rightarrow> acm_dev \<Rightarrow> acm_dev" where
  "RxPut Data Dev = rx_store (if RxFree Dev < length Data then take (RxFree Dev) Data else Data) Dev"

text \<open>The loop of UsbCdcAcmRead: the bytes copied out, and the device context after it.\<close>

fun rx_take :: "nat \<Rightarrow> acm_dev \<Rightarrow> u8 list \<times> acm_dev" where
  "rx_take 0 Dev = ([], Dev)"
| "rx_take (Suc n) Dev =
     (if 0 < RxCount Dev then
        (case rx_take n (Dev\<lparr>RxTail := (RxTail Dev + 1) mod USB_CDC_ACM_RX_FIFO_SIZE\<rparr>) of
           (bs, Dev') \<Rightarrow> (Rx Dev ! RxTail Dev # bs, Dev'))
      else ([], Dev))"

section \<open>The ring is a bounded FIFO\<close>

definition rx_ok :: "acm_dev \<Rightarrow> bool" where
  "rx_ok Dev \<longleftrightarrow> length (Rx Dev) = USB_CDC_ACM_RX_FIFO_SIZE \<and>
     RxHead Dev < USB_CDC_ACM_RX_FIFO_SIZE \<and> RxTail Dev < USB_CDC_ACM_RX_FIFO_SIZE"

definition rx_bytes :: "acm_dev \<Rightarrow> u8 list" where
  "rx_bytes Dev = map (\<lambda>i. Rx Dev ! ((RxTail Dev + i) mod USB_CDC_ACM_RX_FIFO_SIZE)) [0..<RxCount Dev]"

lemma length_rx_bytes [simp]: "length (rx_bytes Dev) = RxCount Dev"
  by (simp add: rx_bytes_def)

lemma RxCount_mod:
  assumes "rx_ok Dev"
  shows "(RxTail Dev + RxCount Dev) mod USB_CDC_ACM_RX_FIFO_SIZE = RxHead Dev"
    and "RxCount Dev < USB_CDC_ACM_RX_FIFO_SIZE"
  using assms by (auto simp: rx_ok_def RxCount_def)

lemma ring_index_distinct:
  fixes i c n t :: nat
  assumes "i < c" "c < n"
  shows "(t + i) mod n \<noteq> (t + c) mod n"
proof
  assume "(t + i) mod n = (t + c) mod n"
  then have "n dvd (t + c) - (t + i)"
    using assms by (metis add_le_cancel_left less_imp_le mod_eq_dvd_iff_nat)
  with assms show False
    by (auto dest!: dvd_imp_le)
qed

lemma rx_store_step:
  fixes b :: u8
  assumes "rx_ok Dev" "0 < RxFree Dev"
  defines "Dev' \<equiv> Dev\<lparr>Rx := (Rx Dev)[RxHead Dev := b],
    RxHead := (RxHead Dev + 1) mod USB_CDC_ACM_RX_FIFO_SIZE\<rparr>"
  shows "rx_ok Dev'" "RxCount Dev' = RxCount Dev + 1" "rx_bytes Dev' = rx_bytes Dev @ [b]"
proof -
  let ?N = USB_CDC_ACM_RX_FIFO_SIZE
  show "rx_ok Dev'"
    using assms(1) by (simp add: rx_ok_def Dev'_def USB_CDC_ACM_RX_FIFO_SIZE_def)
  show count: "RxCount Dev' = RxCount Dev + 1"
    using assms(1,2) unfolding Dev'_def RxFree_def rx_ok_def RxCount_def
    by (cases "RxHead Dev + 1 = ?N") (auto split: if_splits)
  have "map (\<lambda>i. Rx Dev' ! ((RxTail Dev' + i) mod ?N)) [0..<RxCount Dev] = rx_bytes Dev"
    unfolding rx_bytes_def
  proof (rule map_cong [OF refl])
    fix i assume "i \<in> set [0..<RxCount Dev]"
    then have "(RxTail Dev + i) mod ?N \<noteq> RxHead Dev"
      using RxCount_mod [OF assms(1)] ring_index_distinct [of i "RxCount Dev" ?N "RxTail Dev"] by auto
    then show "Rx Dev' ! ((RxTail Dev' + i) mod ?N) = Rx Dev ! ((RxTail Dev + i) mod ?N)"
      by (simp add: Dev'_def)
  qed
  moreover have "Rx Dev' ! ((RxTail Dev' + RxCount Dev) mod ?N) = b"
    using RxCount_mod(1) [OF assms(1)] assms(1) by (simp add: Dev'_def rx_ok_def)
  ultimately show "rx_bytes Dev' = rx_bytes Dev @ [b]"
    by (simp add: rx_bytes_def [of Dev'] count)
qed

lemma rx_store_ok:
  "rx_ok Dev \<Longrightarrow> length bs \<le> RxFree Dev \<Longrightarrow>
   rx_ok (rx_store bs Dev) \<and> rx_bytes (rx_store bs Dev) = rx_bytes Dev @ bs"
proof (induction bs arbitrary: Dev)
  case (Cons b bs)
  let ?D = "Dev\<lparr>Rx := (Rx Dev)[RxHead Dev := b], RxHead := (RxHead Dev + 1) mod USB_CDC_ACM_RX_FIFO_SIZE\<rparr>"
  have step: "rx_ok ?D" "RxCount ?D = RxCount Dev + 1" "rx_bytes ?D = rx_bytes Dev @ [b]"
    using rx_store_step [of Dev b] Cons.prems by auto
  then have "length bs \<le> RxFree ?D"
    using Cons.prems by (simp add: RxFree_def)
  with Cons.IH [OF step(1)] step(3) show ?case
    by simp
qed simp

lemma rx_take_step:
  assumes "rx_ok Dev" "0 < RxCount Dev"
  defines "Dev' \<equiv> Dev\<lparr>RxTail := (RxTail Dev + 1) mod USB_CDC_ACM_RX_FIFO_SIZE\<rparr>"
  shows "rx_ok Dev'" "rx_bytes Dev = Rx Dev ! RxTail Dev # rx_bytes Dev'"
proof -
  let ?N = USB_CDC_ACM_RX_FIFO_SIZE
  show "rx_ok Dev'"
    using assms(1) by (simp add: rx_ok_def Dev'_def USB_CDC_ACM_RX_FIFO_SIZE_def)
  have count: "RxCount Dev = Suc (RxCount Dev')"
    using assms(1,2) unfolding Dev'_def rx_ok_def RxCount_def
    by (cases "RxTail Dev + 1 = ?N") (auto split: if_splits)
  have "map (\<lambda>i. Rx Dev ! ((RxTail Dev + i) mod ?N)) [0..<Suc (RxCount Dev')] =
      Rx Dev ! (RxTail Dev mod ?N) # map (\<lambda>i. Rx Dev ! ((RxTail Dev + Suc i) mod ?N)) [0..<RxCount Dev']"
    by (simp only: map_upt_Suc add_0_right)
  moreover have "((RxTail Dev + 1) mod ?N + i) mod ?N = (RxTail Dev + Suc i) mod ?N" for i
    by (simp add: mod_simps)
  ultimately show "rx_bytes Dev = Rx Dev ! RxTail Dev # rx_bytes Dev'"
    using assms(1) by (simp add: rx_bytes_def count Dev'_def rx_ok_def)
qed

lemma rx_take_ok:
  "rx_ok Dev \<Longrightarrow> rx_ok (snd (rx_take n Dev)) \<and> fst (rx_take n Dev) = take n (rx_bytes Dev) \<and>
   rx_bytes (snd (rx_take n Dev)) = drop n (rx_bytes Dev)"
proof (induction n arbitrary: Dev)
  case (Suc n)
  show ?case
  proof (cases "0 < RxCount Dev")
    case True
    note step = rx_take_step [OF Suc.prems True]
    with True Suc.IH [OF step(1)] show ?thesis
      by (simp add: split_beta)
  next
    case False
    then have "rx_bytes Dev = []"
      using length_rx_bytes [of Dev] by (metis length_0_conv neq0_conv)
    with False Suc.prems show ?thesis by simp
  qed
qed simp

interpretation rx: bounded_fifo rx_bytes rx_ok "USB_CDC_ACM_RX_FIFO_SIZE - 1" RxPut rx_take
proof unfold_locales
  fix q xs n
  assume ok: "rx_ok q"
  show "length (rx_bytes q) \<le> USB_CDC_ACM_RX_FIFO_SIZE - 1"
    using RxCount_mod(2) [OF ok] by simp
  have "rx_ok (RxPut xs q) \<and> rx_bytes (RxPut xs q) = rx_bytes q @ take (RxFree q) xs"
    using rx_store_ok [OF ok, of "take (RxFree q) xs"] rx_store_ok [OF ok, of xs]
    by (simp add: RxPut_def not_less)
  then show "rx_ok (RxPut xs q)"
    "rx_bytes (RxPut xs q) = rx_bytes q @ take (USB_CDC_ACM_RX_FIFO_SIZE - 1 - length (rx_bytes q)) xs"
    by (simp_all add: RxFree_def)
  show "rx_ok (snd (rx_take n q))" "fst (rx_take n q) = take n (rx_bytes q)"
    "rx_bytes (snd (rx_take n q)) = drop n (rx_bytes q)"
    using rx_take_ok [OF ok] by blast+
qed

end
