(* ===== verification/DevicePaths.thy ===== *)
theory DevicePaths
  imports NucPrelude
begin

text \<open>
  UEFI device paths as the drivers walk them.  A path is the list of its nodes before the
  End-Entire node; a node is its type, its subtype and the bytes after its four-byte header.  The
  in-memory form, which the sibling test of the serial driver compares bytewise, is
  \<open>path_bytes\<close>.
\<close>

record dp_node =
  dp_Type :: u8
  dp_SubType :: u8
  dp_Data :: "u8 list"

type_synonym device_path = "dp_node list"

definition HARDWARE_DEVICE_PATH :: u8 where "HARDWARE_DEVICE_PATH = 0x01"
definition MESSAGING_DEVICE_PATH :: u8 where "MESSAGING_DEVICE_PATH = 0x03"
definition MEDIA_DEVICE_PATH :: u8 where "MEDIA_DEVICE_PATH = 0x04"
definition BBS_DEVICE_PATH :: u8 where "BBS_DEVICE_PATH = 0x05"
definition MSG_USB_DP :: u8 where "MSG_USB_DP = 0x05"
definition MSG_MAC_ADDR_DP :: u8 where "MSG_MAC_ADDR_DP = 0x0b"
definition MSG_IPv4_DP :: u8 where "MSG_IPv4_DP = 0x0c"
definition MSG_IPv6_DP :: u8 where "MSG_IPv6_DP = 0x0d"
definition MSG_UART_DP :: u8 where "MSG_UART_DP = 0x0e"
definition MSG_NVME_NAMESPACE_DP :: u8 where "MSG_NVME_NAMESPACE_DP = 0x17"
definition MSG_SATA_DP :: u8 where "MSG_SATA_DP = 0x12"
definition MSG_URI_DP :: u8 where "MSG_URI_DP = 0x18"

lemmas dp_consts =
  HARDWARE_DEVICE_PATH_def MESSAGING_DEVICE_PATH_def MEDIA_DEVICE_PATH_def BBS_DEVICE_PATH_def
  MSG_USB_DP_def MSG_MAC_ADDR_DP_def MSG_IPv4_DP_def MSG_IPv6_DP_def MSG_UART_DP_def
  MSG_NVME_NAMESPACE_DP_def MSG_SATA_DP_def MSG_URI_DP_def

definition node_size :: "dp_node \<Rightarrow> nat" where
  "node_size n = 4 + length (dp_Data n)"

definition node_bytes :: "dp_node \<Rightarrow> u8 list" where
  "node_bytes n = [dp_Type n, dp_SubType n] @ le16 (of_nat (node_size n)) @ dp_Data n"

definition path_bytes :: "device_path \<Rightarrow> u8 list" where
  "path_bytes p = concat (map node_bytes p) @ [0x7f, 0xff, 4, 0]"

text \<open>A node's size fits its 16-bit length field, so the walk reads every node as it was built.\<close>

definition path_wf :: "device_path \<Rightarrow> bool" where
  "path_wf p \<longleftrightarrow> (\<forall>n \<in> set p. node_size n < 65536)"

lemma length_node_bytes [simp]: "length (node_bytes n) = node_size n"
  by (simp add: node_bytes_def node_size_def)

lemma of_nat_u16_inject:
  assumes "a < 65536" "b < 65536" "(of_nat a :: u16) = of_nat b"
  shows "a = b"
proof -
  have "unat (of_nat a :: u16) = unat (of_nat b :: u16)"
    using assms(3) by simp
  then show ?thesis
    using assms(1,2) by (simp add: unsigned_of_nat take_bit_nat_eq_self)
qed

lemma node_bytes_eq_append:
  assumes "node_size m < 65536" "node_size n < 65536" "node_bytes m @ xs = node_bytes n @ ys"
  shows "m = n \<and> xs = ys"
proof -
  have "le16 (of_nat (node_size m)) = le16 (of_nat (node_size n))"
    using assms(3) by (simp add: node_bytes_def le16_def)
  then have "(of_nat (node_size m) :: u16) = of_nat (node_size n)"
    by (metis from_le16_eq_iff le16_def)
  with assms(1,2) have "node_size m = node_size n"
    by (rule of_nat_u16_inject)
  then have "node_bytes m = node_bytes n" "xs = ys"
    using assms(3) by (auto dest!: append_eq_append_conv [THEN iffD1, rotated])
  then show ?thesis
    by (auto simp: node_bytes_def)
qed

text \<open>Node sequences are uniquely decodable.\<close>

lemma concat_node_bytes_inject:
  "path_wf p \<Longrightarrow> path_wf q \<Longrightarrow> concat (map node_bytes p) = concat (map node_bytes q) \<Longrightarrow> p = q"
proof (induction p arbitrary: q)
  case Nil
  then show ?case by (cases q) (auto simp: node_bytes_def)
next
  case (Cons n p)
  then obtain m q' where q: "q = m # q'"
    by (cases q) (auto simp: node_bytes_def)
  with Cons.prems have "n = m" "concat (map node_bytes p) = concat (map node_bytes q')"
    using node_bytes_eq_append [of n m] by (auto simp: path_wf_def)
  with Cons q show ?case
    by (auto simp: path_wf_def)
qed

end
