(* ===== verification/SerialIo.thy ===== *)
theory SerialIo
  imports RxRing DevicePaths
begin

text \<open>
  UsbCdcAcmDxe/SerialIo.c: the EFI\_SERIAL\_IO\_PROTOCOL functions of the CDC-ACM driver, the poll
  timer callback, and the publication of the protocol.  The USB I/O protocol, the boot services
  and the pool allocator are the environment; the device context is passed explicitly.
\<close>

section \<open>The environment\<close>

datatype acm_pool = DevPool | ScratchPool | PathPool | HandlesPool

record interface_desc =
  InterfaceNumber :: u8
  NumEndpoints :: u8
  InterfaceClass :: u8
  InterfaceSubClass :: u8

record endpoint_desc =
  EndpointAddress :: u8
  Attributes :: u8
  MaxPacketSize :: u16

record control_request =
  cr_RequestType :: u8
  cr_Request :: u8
  cr_Value :: u16
  cr_Index :: u16
  cr_Length :: u16
  cr_Data :: "u8 list"

datatype acm_event =
    UsbBulkIn u8 nat efi_status "u8 list"
  | UsbBulkOut u8 "u8 list" u32 efi_status nat
  | UsbControlTransfer control_request efi_status
  | UsbInterfaceDescriptor nat efi_status interface_desc
  | UsbEndpointDescriptor nat nat efi_status endpoint_desc
  | PathOf nat efi_status
  | LocateUsbIo efi_status "nat list"
  | OpenByDriver nat efi_status
  | CloseByDriver nat efi_status
  | OpenByChild efi_status
  | CloseByChild
  | GetSerialIo efi_status
  | InstallSerialIo device_path efi_status
  | UninstallSerialIo efi_status
  | CreatePollEvent efi_status
  | SetTimerPeriodic nat efi_status
  | SetTimerCancel
  | ClosePollEvent
  | AcmAllocate acm_pool bool
  | AcmFree acm_pool

type_synonym acm_trace = "acm_event list"

record acm_env =
  ae_BulkIn :: "acm_trace \<Rightarrow> u8 \<Rightarrow> nat \<Rightarrow> efi_status \<times> u8 list"
  ae_BulkOut :: "acm_trace \<Rightarrow> u8 \<Rightarrow> u8 list \<Rightarrow> u32 \<Rightarrow> efi_status \<times> nat"
  ae_Control :: "acm_trace \<Rightarrow> control_request \<Rightarrow> efi_status"
  ae_Interface :: "acm_trace \<Rightarrow> nat \<Rightarrow> efi_status \<times> interface_desc"
  ae_Endpoint :: "acm_trace \<Rightarrow> nat \<Rightarrow> nat \<Rightarrow> efi_status \<times> endpoint_desc"
  ae_PathOf :: "acm_trace \<Rightarrow> nat \<Rightarrow> efi_status \<times> device_path"
  ae_LocateUsbIo :: "acm_trace \<Rightarrow> efi_status \<times> nat list"
  ae_OpenByDriver :: "acm_trace \<Rightarrow> nat \<Rightarrow> efi_status"
  ae_CloseByDriver :: "acm_trace \<Rightarrow> nat \<Rightarrow> efi_status"
  ae_OpenByChild :: "acm_trace \<Rightarrow> efi_status"
  ae_GetSerialIo :: "acm_trace \<Rightarrow> nat \<Rightarrow> efi_status"
  ae_AppendNode :: "acm_trace \<Rightarrow> device_path \<Rightarrow> dp_node \<Rightarrow> device_path option"
  ae_Install :: "acm_trace \<Rightarrow> device_path \<Rightarrow> efi_status"
  ae_Uninstall :: "acm_trace \<Rightarrow> efi_status"
  ae_CreateEvent :: "acm_trace \<Rightarrow> efi_status"
  ae_SetTimer :: "acm_trace \<Rightarrow> efi_status"
  ae_Allocate :: "acm_trace \<Rightarrow> acm_pool \<Rightarrow> nat option \<Rightarrow> bool"

type_synonym 'a acm = "(acm_event, 'a) prog"

definition bulkIn :: "acm_env \<Rightarrow> u8 \<Rightarrow> nat \<Rightarrow> (efi_status \<times> u8 list) acm" where
  "bulkIn E ep n = ask (\<lambda>t. ae_BulkIn E t ep n) (\<lambda>(s, bs). UsbBulkIn ep n s bs)"

definition bulkOut :: "acm_env \<Rightarrow> u8 \<Rightarrow> u8 list \<Rightarrow> u32 \<Rightarrow> (efi_status \<times> nat) acm" where
  "bulkOut E ep bs tmo = ask (\<lambda>t. ae_BulkOut E t ep bs tmo) (\<lambda>(s, n). UsbBulkOut ep bs tmo s n)"

section \<open>Constants\<close>

definition ACM_DEFAULT_BAUD_RATE :: u64 where "ACM_DEFAULT_BAUD_RATE = 115200"
definition ACM_DEFAULT_DATA_BITS :: u8 where "ACM_DEFAULT_DATA_BITS = 8"
definition ACM_DEFAULT_TIMEOUT :: u32 where "ACM_DEFAULT_TIMEOUT = 1000000"
definition USB_CDC_SET_LINE_CODING :: u8 where "USB_CDC_SET_LINE_CODING = 0x20"
definition USB_CDC_SET_CONTROL_LINE_STATE :: u8 where "USB_CDC_SET_CONTROL_LINE_STATE = 0x22"
definition USB_CDC_ACM_CONTROL_DTR :: u16 where "USB_CDC_ACM_CONTROL_DTR = 1"
definition USB_CDC_ACM_CONTROL_RTS :: u16 where "USB_CDC_ACM_CONTROL_RTS = 2"
definition USB_CDC_ACM_POLL_INTERVAL :: nat where "USB_CDC_ACM_POLL_INTERVAL = 10 * 1000"
definition EFI_SERIAL_DATA_TERMINAL_READY :: u32 where "EFI_SERIAL_DATA_TERMINAL_READY = 0x1"
definition EFI_SERIAL_REQUEST_TO_SEND :: u32 where "EFI_SERIAL_REQUEST_TO_SEND = 0x2"
definition EFI_SERIAL_INPUT_BUFFER_EMPTY :: u32 where "EFI_SERIAL_INPUT_BUFFER_EMPTY = 0x100"
definition EFI_SERIAL_OUTPUT_BUFFER_EMPTY :: u32 where "EFI_SERIAL_OUTPUT_BUFFER_EMPTY = 0x200"
definition EFI_SERIAL_HARDWARE_LOOPBACK_ENABLE :: u32 where "EFI_SERIAL_HARDWARE_LOOPBACK_ENABLE = 0x1000"
definition EFI_SERIAL_SOFTWARE_LOOPBACK_ENABLE :: u32 where "EFI_SERIAL_SOFTWARE_LOOPBACK_ENABLE = 0x2000"
definition EFI_SERIAL_HARDWARE_FLOW_CONTROL_ENABLE :: u32 where
  "EFI_SERIAL_HARDWARE_FLOW_CONTROL_ENABLE = 0x4000"

lemmas serial_consts =
  USB_CDC_SET_LINE_CODING_def USB_CDC_SET_CONTROL_LINE_STATE_def USB_CDC_ACM_CONTROL_DTR_def
  USB_CDC_ACM_CONTROL_RTS_def EFI_SERIAL_DATA_TERMINAL_READY_def EFI_SERIAL_REQUEST_TO_SEND_def
  EFI_SERIAL_INPUT_BUFFER_EMPTY_def EFI_SERIAL_OUTPUT_BUFFER_EMPTY_def
  EFI_SERIAL_HARDWARE_LOOPBACK_ENABLE_def EFI_SERIAL_SOFTWARE_LOOPBACK_ENABLE_def
  EFI_SERIAL_HARDWARE_FLOW_CONTROL_ENABLE_def

datatype parity_type = DefaultParity | NoParity | EvenParity | OddParity | MarkParity | SpaceParity

datatype stop_bits_type = DefaultStopBits | OneStopBit | OneFiveStopBits | TwoStopBits

fun parity_code :: "parity_type \<Rightarrow> u32" where
  "parity_code DefaultParity = 0" | "parity_code NoParity = 1" | "parity_code EvenParity = 2"
| "parity_code OddParity = 3" | "parity_code MarkParity = 4" | "parity_code SpaceParity = 5"

fun stop_bits_code :: "stop_bits_type \<Rightarrow> u32" where
  "stop_bits_code DefaultStopBits = 0" | "stop_bits_code OneStopBit = 1"
| "stop_bits_code OneFiveStopBits = 2" | "stop_bits_code TwoStopBits = 3"

section \<open>The protocol functions\<close>

definition UsbCdcAcmPoll :: "acm_env \<Rightarrow> acm_dev \<Rightarrow> acm_dev acm" where
  "UsbCdcAcmPoll E Dev =
     (if RxFree Dev < BulkInMaxPacket Dev then State_Monad.return Dev
      else do {
        (Status, Data) \<leftarrow> bulkIn E (BulkIn Dev) (BulkInMaxPacket Dev);
        if EFI_ERROR Status \<or> length Data = 0 then State_Monad.return Dev
        else State_Monad.return (RxPut Data Dev)
      })"

definition AcmClassRequest :: "acm_env \<Rightarrow> acm_dev \<Rightarrow> u8 \<Rightarrow> u16 \<Rightarrow> u8 list \<Rightarrow> efi_status acm" where
  "AcmClassRequest E Dev Request Value Data =
     (let DevReq = \<lparr>cr_RequestType = 0x20 OR 0x01, cr_Request = Request, cr_Value = Value,
        cr_Index = ucast (ControlInterfaceNumber Dev), cr_Length = of_nat (length Data), cr_Data = Data\<rparr>
      in ask (\<lambda>t. ae_Control E t DevReq) (UsbControlTransfer DevReq))"

definition line_state :: "u32 \<Rightarrow> u16" where
  "line_state Bits =
     (if Bits AND EFI_SERIAL_DATA_TERMINAL_READY \<noteq> 0 then USB_CDC_ACM_CONTROL_DTR else 0) OR
     (if Bits AND EFI_SERIAL_REQUEST_TO_SEND \<noteq> 0 then USB_CDC_ACM_CONTROL_RTS else 0)"

definition UsbCdcAcmSetControl :: "acm_env \<Rightarrow> acm_dev \<Rightarrow> u32 \<Rightarrow> (efi_status \<times> acm_dev) acm" where
  "UsbCdcAcmSetControl E Dev Control =
     (if Control AND (EFI_SERIAL_HARDWARE_LOOPBACK_ENABLE OR EFI_SERIAL_SOFTWARE_LOOPBACK_ENABLE OR
          EFI_SERIAL_HARDWARE_FLOW_CONTROL_ENABLE) \<noteq> 0
      then State_Monad.return (EFI_UNSUPPORTED, Dev)
      else do {
        let Dev = Dev\<lparr>ControlBits := Control AND
          (EFI_SERIAL_DATA_TERMINAL_READY OR EFI_SERIAL_REQUEST_TO_SEND)\<rparr>;
        _ \<leftarrow> AcmClassRequest E Dev USB_CDC_SET_CONTROL_LINE_STATE (line_state (ControlBits Dev)) [];
        State_Monad.return (EFI_SUCCESS, Dev)
      })"

definition reset_head :: "acm_dev \<Rightarrow> acm_dev" where "reset_head Dev = Dev\<lparr>RxHead := 0\<rparr>"
definition reset_tail :: "acm_dev \<Rightarrow> acm_dev" where "reset_tail Dev = Dev\<lparr>RxTail := 0\<rparr>"

text \<open>
  The stores of a reset, in their order.  The poll timer may fire before, between and after them: the argument
  Callback says what runs when a given number of stores is still to come.
\<close>

definition reset_stores :: "(acm_dev \<Rightarrow> acm_dev) list" where
  "reset_stores = [reset_head, reset_tail]"

fun run_stores :: "(nat \<Rightarrow> acm_dev \<Rightarrow> acm_dev acm) \<Rightarrow> (acm_dev \<Rightarrow> acm_dev) list \<Rightarrow> acm_dev \<Rightarrow> acm_dev acm" where
  "run_stores Callback [] Dev = Callback 0 Dev"
| "run_stores Callback (st # sts) Dev = do {
     Dev \<leftarrow> Callback (Suc (length sts)) Dev;
     run_stores Callback sts (st Dev)
   }"

definition UsbCdcAcmReset :: "acm_env \<Rightarrow> (nat \<Rightarrow> acm_dev \<Rightarrow> acm_dev acm) \<Rightarrow> acm_dev \<Rightarrow> (efi_status \<times> acm_dev) acm" where
  "UsbCdcAcmReset E Callback Dev = do {
     Dev \<leftarrow> run_stores Callback reset_stores Dev;
     UsbCdcAcmSetControl E Dev (ControlBits Dev)
   }"

definition line_coding :: "u64 \<Rightarrow> parity_type \<Rightarrow> u8 \<Rightarrow> stop_bits_type \<Rightarrow> u8 list" where
  "line_coding Baud Par Bits Stop =
     le32 (ucast Baud) @
     [if Stop = TwoStopBits then 2 else if Stop = OneFiveStopBits then 1 else 0,
      if Par = NoParity then 0 else if Par = OddParity then 1 else if Par = EvenParity then 2
        else if Par = MarkParity then 3 else 4,
      Bits]"

definition UsbCdcAcmSetAttributes ::
  "acm_env \<Rightarrow> acm_dev \<Rightarrow> u64 \<Rightarrow> u32 \<Rightarrow> u32 \<Rightarrow> parity_type \<Rightarrow> u8 \<Rightarrow> stop_bits_type \<Rightarrow>
   (efi_status \<times> acm_dev) acm" where
  "UsbCdcAcmSetAttributes E Dev Baud FifoDepth Tmo Par Bits Stop = do {
     let Baud = (if Baud = 0 then ACM_DEFAULT_BAUD_RATE else Baud);
     let Bits = (if Bits = 0 then ACM_DEFAULT_DATA_BITS else Bits);
     let Tmo = (if Tmo = 0 then ACM_DEFAULT_TIMEOUT else Tmo);
     let Par = (if Par = DefaultParity then NoParity else Par);
     let Stop = (if Stop = DefaultStopBits then OneStopBit else Stop);
     let Dev = Dev\<lparr>SerialMode := (SerialMode Dev)\<lparr>BaudRate := Baud, Timeout := Tmo,
       Parity := parity_code Par, DataBits := ucast Bits, StopBits := stop_bits_code Stop,
       ReceiveFifoDepth := of_nat USB_CDC_ACM_RX_FIFO_SIZE\<rparr>\<rparr>;
     _ \<leftarrow> AcmClassRequest E Dev USB_CDC_SET_LINE_CODING 0 (line_coding Baud Par Bits Stop);
     State_Monad.return (EFI_SUCCESS, Dev)
   }"

definition UsbCdcAcmGetControl :: "acm_dev \<Rightarrow> bool \<Rightarrow> efi_status \<times> u32 option" where
  "UsbCdcAcmGetControl Dev Control =
     (if \<not> Control then (EFI_INVALID_PARAMETER, None)
      else (EFI_SUCCESS, Some ((ControlBits Dev OR EFI_SERIAL_OUTPUT_BUFFER_EMPTY) OR
        (if RxCount Dev = 0 then EFI_SERIAL_INPUT_BUFFER_EMPTY else 0))))"

text \<open>NULL pointers are None; the second component is the new value of BufferSize.\<close>

definition UsbCdcAcmWrite ::
  "acm_env \<Rightarrow> acm_dev \<Rightarrow> nat option \<Rightarrow> u8 list option \<Rightarrow> (efi_status \<times> nat option) acm" where
  "UsbCdcAcmWrite E Dev BufferSize Buffer =
     (case (BufferSize, Buffer) of
        (Some n, Some Data) \<Rightarrow>
          if n = 0 then State_Monad.return (EFI_SUCCESS, Some 0)
          else do {
            (Status, Length) \<leftarrow>
              bulkOut E (BulkOut Dev) (take n Data) (Timeout (SerialMode Dev) div 1000);
            State_Monad.return (if EFI_ERROR Status then EFI_DEVICE_ERROR else EFI_SUCCESS, Some Length)
          }
      | _ \<Rightarrow> State_Monad.return (EFI_INVALID_PARAMETER, BufferSize))"

definition UsbCdcAcmRead ::
  "acm_dev \<Rightarrow> nat option \<Rightarrow> bool \<Rightarrow> efi_status \<times> nat option \<times> u8 list \<times> acm_dev" where
  "UsbCdcAcmRead Dev BufferSize Buffer =
     (case BufferSize of
        None \<Rightarrow> (EFI_INVALID_PARAMETER, None, [], Dev)
      | Some Wanted \<Rightarrow>
          if \<not> Buffer then (EFI_INVALID_PARAMETER, Some Wanted, [], Dev)
          else (case rx_take Wanted Dev of (Out, Dev') \<Rightarrow>
            (if length Out = Wanted then EFI_SUCCESS else EFI_TIMEOUT, Some (length Out), Out, Dev')))"

section \<open>Publishing the protocol\<close>

definition pathOf :: "acm_env \<Rightarrow> nat \<Rightarrow> (efi_status \<times> device_path) acm" where
  "pathOf E h = ask (\<lambda>t. ae_PathOf E t h) (\<lambda>(s, p). PathOf h s)"

text \<open>The UART node appended to the controller's path: 115200 baud, 8 data bits, no parity, 1 stop bit.\<close>

definition Uart :: dp_node where
  "Uart = \<lparr>dp_Type = MESSAGING_DEVICE_PATH, dp_SubType = MSG_UART_DP,
     dp_Data = le32 0 @ le32 (ucast ACM_DEFAULT_BAUD_RATE) @ le32 (ucast (drop_bit 32 ACM_DEFAULT_BAUD_RATE)) @
       [ACM_DEFAULT_DATA_BITS, ucast (parity_code NoParity), ucast (stop_bits_code OneStopBit)]\<rparr>"

definition initial_mode :: serial_mode where
  "initial_mode = \<lparr>ControlMask = EFI_SERIAL_INPUT_BUFFER_EMPTY OR EFI_SERIAL_OUTPUT_BUFFER_EMPTY OR
       EFI_SERIAL_DATA_TERMINAL_READY OR EFI_SERIAL_REQUEST_TO_SEND,
     Timeout = ACM_DEFAULT_TIMEOUT, BaudRate = ACM_DEFAULT_BAUD_RATE,
     ReceiveFifoDepth = of_nat USB_CDC_ACM_RX_FIFO_SIZE, DataBits = ucast ACM_DEFAULT_DATA_BITS,
     Parity = parity_code NoParity, StopBits = stop_bits_code OneStopBit\<rparr>"

text \<open>The two error labels of the C function, in fall-through order.\<close>

definition ErrorUninstall :: "acm_env \<Rightarrow> acm_dev \<Rightarrow> efi_status \<Rightarrow> (efi_status \<times> acm_dev) acm" where
  "ErrorUninstall E Dev Status = do {
     _ \<leftarrow> ask (\<lambda>t. ae_Uninstall E t) UninstallSerialIo;
     tell (AcmFree PathPool);
     State_Monad.return (Status, Dev\<lparr>DevicePath := False\<rparr>)
   }"

definition ErrorCloseChild :: "acm_env \<Rightarrow> acm_dev \<Rightarrow> efi_status \<Rightarrow> (efi_status \<times> acm_dev) acm" where
  "ErrorCloseChild E Dev Status = do { tell CloseByChild; ErrorUninstall E Dev Status }"

text \<open>The part of the function after the protocols were installed.\<close>

definition install_start :: "acm_env \<Rightarrow> acm_dev \<Rightarrow> (efi_status \<times> acm_dev) acm" where
  "install_start E Dev = do {
     Status \<leftarrow> ask (\<lambda>t. ae_OpenByChild E t) OpenByChild;
     if EFI_ERROR Status then ErrorUninstall E Dev Status
     else do {
       Status \<leftarrow> ask (\<lambda>t. ae_CreateEvent E t) CreatePollEvent;
       if EFI_ERROR Status then ErrorCloseChild E Dev Status
       else do {
         Status \<leftarrow> ask (\<lambda>t. ae_SetTimer E t) (SetTimerPeriodic USB_CDC_ACM_POLL_INTERVAL);
         if EFI_ERROR Status
         then do { tell ClosePollEvent; ErrorCloseChild E (Dev\<lparr>PollEvent := False\<rparr>) Status }
         else do {
           (_, Dev) \<leftarrow> UsbCdcAcmSetControl E (Dev\<lparr>PollEvent := True\<rparr>)
             (EFI_SERIAL_DATA_TERMINAL_READY OR EFI_SERIAL_REQUEST_TO_SEND);
           State_Monad.return (EFI_SUCCESS, Dev)
         }
       }
     }
   }"

definition UsbCdcAcmInstallSerialIo :: "acm_env \<Rightarrow> acm_dev \<Rightarrow> (efi_status \<times> acm_dev) acm" where
  "UsbCdcAcmInstallSerialIo E Dev = do {
     let Dev = Dev\<lparr>SerialMode := initial_mode\<rparr>;
     (Status, ParentPath) \<leftarrow> pathOf E (ControllerHandle Dev);
     if EFI_ERROR Status then State_Monad.return (Status, Dev)
     else do {
       Path \<leftarrow> ask (\<lambda>t. ae_AppendNode E t ParentPath Uart) (\<lambda>r. AcmAllocate PathPool (r \<noteq> None));
       case Path of
         None \<Rightarrow> State_Monad.return (EFI_OUT_OF_RESOURCES, Dev\<lparr>DevicePath := False\<rparr>)
       | Some p \<Rightarrow> do {
           Status \<leftarrow> ask (\<lambda>t. ae_Install E t p) (InstallSerialIo p);
           if EFI_ERROR Status
           then do { tell (AcmFree PathPool); State_Monad.return (Status, Dev\<lparr>DevicePath := False\<rparr>) }
           else install_start E (Dev\<lparr>DevicePath := True\<rparr>)
         }
     }
   }"

definition UsbCdcAcmUninstallSerialIo :: "acm_env \<Rightarrow> acm_dev \<Rightarrow> (efi_status \<times> acm_dev) acm" where
  "UsbCdcAcmUninstallSerialIo E Dev = do {
     (if PollEvent Dev then do { tell SetTimerCancel; tell ClosePollEvent } else State_Monad.return ());
     let Dev = Dev\<lparr>PollEvent := False\<rparr>;
     tell CloseByChild;
     Status \<leftarrow> ask (\<lambda>t. ae_Uninstall E t) UninstallSerialIo;
     if EFI_ERROR Status then do {
       _ \<leftarrow> ask (\<lambda>t. ae_OpenByChild E t) OpenByChild;
       Created \<leftarrow> ask (\<lambda>t. ae_CreateEvent E t) CreatePollEvent;
       if EFI_ERROR Created then State_Monad.return (Status, Dev)
       else do {
         _ \<leftarrow> ask (\<lambda>t. ae_SetTimer E t) (SetTimerPeriodic USB_CDC_ACM_POLL_INTERVAL);
         State_Monad.return (Status, Dev\<lparr>PollEvent := True\<rparr>)
       }
     }
     else State_Monad.return (EFI_SUCCESS, Dev)
   }"

section \<open>The byte stream\<close>

text \<open>
  A session of the port: timer polls and reads in any order.  A read that the timer preempts
  between two bytes is the two shorter reads around the poll.
\<close>

datatype serial_act = PollTick | ReadReq nat

fun serial_session :: "acm_env \<Rightarrow> serial_act list \<Rightarrow> acm_dev \<Rightarrow> (u8 list \<times> acm_dev) acm" where
  "serial_session E [] Dev = State_Monad.return ([], Dev)"
| "serial_session E (PollTick # acts) Dev = do {
     Dev' \<leftarrow> UsbCdcAcmPoll E Dev;
     serial_session E acts Dev'
   }"
| "serial_session E (ReadReq n # acts) Dev =
     (case UsbCdcAcmRead Dev (Some n) True of (_, _, Out, Dev') \<Rightarrow> do {
        (Outs, Dev'') \<leftarrow> serial_session E acts Dev';
        State_Monad.return (Out @ Outs, Dev'')
      })"

text \<open>The bytes the endpoint handed over.\<close>

fun received :: "acm_trace \<Rightarrow> u8 list" where
  "received [] = []"
| "received (e # es) = (case e of
     UsbBulkIn ep n s bs \<Rightarrow> (if EFI_ERROR s then [] else bs) @ received es
   | _ \<Rightarrow> received es)"

lemma received_append [simp]: "received (xs @ ys) = received xs @ received ys"
  by (induction xs) (auto split: acm_event.split)

text \<open>The documented behaviour of a bulk transfer: it returns no more than was asked for.\<close>

definition bulk_in_bounded :: "acm_env \<Rightarrow> bool" where
  "bulk_in_bounded E \<longleftrightarrow> (\<forall>t ep n. length (snd (ae_BulkIn E t ep n)) \<le> n)"

lemma poll_run:
  assumes "rx_ok Dev" "bulk_in_bounded E"
  shows "\<exists>Dev' es. run_state (UsbCdcAcmPoll E Dev) t = (Dev', t @ es) \<and> rx_ok Dev' \<and>
    rx_bytes Dev' = rx_bytes Dev @ received es"
proof (cases "RxFree Dev < BulkInMaxPacket Dev")
  case False
  obtain s bs where ans: "ae_BulkIn E t (BulkIn Dev) (BulkInMaxPacket Dev) = (s, bs)" by fastforce
  then have "length bs \<le> BulkInMaxPacket Dev"
    using assms(2) by (metis bulk_in_bounded_def snd_conv)
  with False have "length bs \<le> USB_CDC_ACM_RX_FIFO_SIZE - 1 - length (rx_bytes Dev)"
    by (simp add: RxFree_def)
  from rx.put_fits [OF assms(1) this] rx.put_invar [OF assms(1), of bs] show ?thesis
    using False assms(1) ans by (auto simp: UsbCdcAcmPoll_def bulkIn_def)
qed (use assms in \<open>simp add: UsbCdcAcmPoll_def\<close>)

lemma read_run:
  assumes "rx_ok Dev"
  shows "\<exists>s k Dev'. UsbCdcAcmRead Dev (Some n) True = (s, k, take n (rx_bytes Dev), Dev') \<and> rx_ok Dev' \<and>
    rx_bytes Dev' = drop n (rx_bytes Dev)"
  using rx.get_result [OF assms, of n] rx.get_invar [OF assms, of n] rx.get_contents [OF assms, of n]
  by (auto simp: UsbCdcAcmRead_def split: prod.splits)

lemma session_stream:
  assumes "bulk_in_bounded E"
  shows "rx_ok Dev \<Longrightarrow> \<exists>Outs Dev' es. run_state (serial_session E acts Dev) t = ((Outs, Dev'), t @ es) \<and>
    rx_ok Dev' \<and> Outs @ rx_bytes Dev' = rx_bytes Dev @ received es"
proof (induction acts arbitrary: Dev t)
  case (Cons act acts)
  show ?case
  proof (cases act)
    case PollTick
    obtain Dev1 es1 where p: "run_state (UsbCdcAcmPoll E Dev) t = (Dev1, t @ es1)" "rx_ok Dev1"
      "rx_bytes Dev1 = rx_bytes Dev @ received es1"
      using poll_run [OF Cons.prems assms] by blast
    obtain Outs Dev2 es2 where "run_state (serial_session E acts Dev1) (t @ es1) = ((Outs, Dev2), (t @ es1) @ es2)"
      "rx_ok Dev2" "Outs @ rx_bytes Dev2 = rx_bytes Dev1 @ received es2"
      using Cons.IH [OF p(2), of "t @ es1"] by blast
    with p PollTick show ?thesis
      by (intro exI [of _ Outs] exI [of _ Dev2] exI [of _ "es1 @ es2"]) simp
  next
    case (ReadReq n)
    obtain s k Dev1 where r: "UsbCdcAcmRead Dev (Some n) True = (s, k, take n (rx_bytes Dev), Dev1)"
      "rx_ok Dev1" "rx_bytes Dev1 = drop n (rx_bytes Dev)"
      using read_run [OF Cons.prems] by blast
    obtain Outs Dev2 es where "run_state (serial_session E acts Dev1) t = ((Outs, Dev2), t @ es)"
      "rx_ok Dev2" "Outs @ rx_bytes Dev2 = rx_bytes Dev1 @ received es"
      using Cons.IH [OF r(2)] by blast
    moreover from this(3) have "take n (rx_bytes Dev) @ Outs @ rx_bytes Dev2 = rx_bytes Dev @ received es"
      unfolding r(3) by (metis append.assoc append_take_drop_id)
    ultimately show ?thesis
      using r(1) ReadReq
      by (intro exI [of _ "take n (rx_bytes Dev) @ Outs"] exI [of _ Dev2] exI [of _ es]) simp
  qed
qed simp

text \<open>
  C5: the port loses, duplicates and reorders nothing.  Over any interleaving of poll ticks and
  reads, the bytes handed to the readers followed by those still buffered are the bytes buffered
  at the start followed by every byte the endpoint delivered; the ring invariant is kept.
\<close>

theorem serial_stream_lossless:
  assumes "rx_ok Dev" "bulk_in_bounded E"
  shows "\<exists>Outs Dev' es. run_state (serial_session E acts Dev) t = ((Outs, Dev'), t @ es) \<and>
    rx_ok Dev' \<and> Outs @ rx_bytes Dev' = rx_bytes Dev @ received es"
  using session_stream [OF assms(2,1)] .

text \<open>A concrete port: an empty ring, and an endpoint that delivers three bytes at every tick.\<close>

definition demo_dev :: acm_dev where
  "demo_dev = \<lparr>ControllerHandle = 1, DataHandle = 2, SerialMode = initial_mode, DevicePath = True,
     ControlInterfaceNumber = 0, BulkIn = 0x81, BulkOut = 0x01, BulkInMaxPacket = 64,
     BulkOutMaxPacket = 64, PollEvent = True, RxScratch = True, Rx = replicate 4096 0, RxHead = 0,
     RxTail = 0, ControlBits = 0\<rparr>"

definition demo_acm :: acm_env where
  "demo_acm = \<lparr>ae_BulkIn = \<lambda>t ep n. (EFI_SUCCESS, take n [0x41, 0x42, 0x43]),
     ae_BulkOut = \<lambda>t ep bs tmo. (EFI_SUCCESS, length bs), ae_Control = \<lambda>t r. EFI_SUCCESS,
     ae_Interface = \<lambda>t h. (EFI_SUCCESS, \<lparr>InterfaceNumber = 0, NumEndpoints = 2,
        InterfaceClass = (if h = 1 then 0x02 else 0x0a), InterfaceSubClass = (if h = 1 then 0x02 else 0)\<rparr>),
     ae_Endpoint = \<lambda>t h i. (EFI_SUCCESS, \<lparr>EndpointAddress = (if i = 0 then 0x81 else 0x01),
        Attributes = 2, MaxPacketSize = 64\<rparr>),
     ae_PathOf = \<lambda>t h. (EFI_SUCCESS, [\<lparr>dp_Type = 3, dp_SubType = 5, dp_Data = [1, if h = 1 then 0 else 1]\<rparr>]),
     ae_LocateUsbIo = \<lambda>t. (EFI_SUCCESS, [1, 2]), ae_OpenByDriver = \<lambda>t h. EFI_SUCCESS,
     ae_CloseByDriver = \<lambda>t h. EFI_SUCCESS, ae_OpenByChild = \<lambda>t. EFI_SUCCESS,
     ae_GetSerialIo = \<lambda>t h. EFI_SUCCESS, ae_AppendNode = \<lambda>t p n. Some (p @ [n]),
     ae_Install = \<lambda>t p. EFI_SUCCESS, ae_Uninstall = \<lambda>t. EFI_SUCCESS,
     ae_CreateEvent = \<lambda>t. EFI_SUCCESS, ae_SetTimer = \<lambda>t. EFI_SUCCESS, ae_Allocate = \<lambda>t p n. True\<rparr>"

lemma demo_acm_sel [simp]:
  "ae_BulkIn demo_acm = (\<lambda>t ep n. (EFI_SUCCESS, take n [0x41, 0x42, 0x43]))"
  "ae_BulkOut demo_acm = (\<lambda>t ep bs tmo. (EFI_SUCCESS, length bs))"
  "ae_Control demo_acm = (\<lambda>t r. EFI_SUCCESS)"
  "ae_Interface demo_acm = (\<lambda>t h. (EFI_SUCCESS, \<lparr>InterfaceNumber = 0, NumEndpoints = 2, InterfaceClass = (if h = 1 then 0x02 else 0x0a), InterfaceSubClass = (if h = 1 then 0x02 else 0)\<rparr>))"
  "ae_Endpoint demo_acm = (\<lambda>t h i. (EFI_SUCCESS, \<lparr>EndpointAddress = (if i = 0 then 0x81 else 0x01), Attributes = 2, MaxPacketSize = 64\<rparr>))"
  "ae_PathOf demo_acm = (\<lambda>t h. (EFI_SUCCESS, [\<lparr>dp_Type = 3, dp_SubType = 5, dp_Data = [1, if h = 1 then 0 else 1]\<rparr>]))"
  "ae_LocateUsbIo demo_acm = (\<lambda>t. (EFI_SUCCESS, [1, 2]))"
  "ae_OpenByDriver demo_acm = (\<lambda>t h. EFI_SUCCESS)"
  "ae_CloseByDriver demo_acm = (\<lambda>t h. EFI_SUCCESS)"
  "ae_OpenByChild demo_acm = (\<lambda>t. EFI_SUCCESS)"
  "ae_GetSerialIo demo_acm = (\<lambda>t h. EFI_SUCCESS)"
  "ae_AppendNode demo_acm = (\<lambda>t p n. Some (p @ [n]))"
  "ae_Install demo_acm = (\<lambda>t p. EFI_SUCCESS)"
  "ae_Uninstall demo_acm = (\<lambda>t. EFI_SUCCESS)"
  "ae_CreateEvent demo_acm = (\<lambda>t. EFI_SUCCESS)"
  "ae_SetTimer demo_acm = (\<lambda>t. EFI_SUCCESS)"
  "ae_Allocate demo_acm = (\<lambda>t p n. True)"
  by (simp_all add: demo_acm_def)

lemma demo_ok: "rx_ok demo_dev" "bulk_in_bounded demo_acm" "rx_bytes demo_dev = []"
  by (simp_all add: demo_dev_def demo_acm_def rx_ok_def bulk_in_bounded_def rx_bytes_def RxCount_def
      USB_CDC_ACM_RX_FIFO_SIZE_def)

theorem serial_stream_lossless_witness:
  "\<exists>Outs Dev' es. run_state (serial_session demo_acm [PollTick, ReadReq 2, PollTick, ReadReq 9] demo_dev) []
      = ((Outs, Dev'), es) \<and> rx_ok Dev' \<and> Outs @ rx_bytes Dev' = received es"
  using serial_stream_lossless [OF demo_ok(1,2), of "[PollTick, ReadReq 2, PollTick, ReadReq 9]" "[]"]
  by (simp add: demo_ok(3))

text \<open>
  C38: A read hands over, oldest first, as many buffered bytes as were asked for or are there, says
  how many, answers EFI\_TIMEOUT exactly when that is fewer than asked, and leaves the rest.
\<close>

theorem read_spec:
  assumes "rx_ok Dev"
  shows "case UsbCdcAcmRead Dev (Some n) True of (Status, Count, Out, Dev') \<Rightarrow>
    Out = take n (rx_bytes Dev) \<and> Count = Some (min n (RxCount Dev)) \<and>
    Status = (if n \<le> RxCount Dev then EFI_SUCCESS else EFI_TIMEOUT) \<and>
    rx_ok Dev' \<and> rx_bytes Dev' = drop n (rx_bytes Dev)"
proof -
  obtain Out Dev' where r: "rx_take n Dev = (Out, Dev')" by fastforce
  then have "Out = take n (rx_bytes Dev)" "rx_ok Dev'" "rx_bytes Dev' = drop n (rx_bytes Dev)"
    using rx_take_ok [OF assms, of n] by auto
  moreover from this(1) have "length Out = min n (RxCount Dev)"
    by (simp add: min.commute)
  ultimately show ?thesis
    using r by (simp add: UsbCdcAcmRead_def min_def)
qed

theorem read_spec_witness:
  "case UsbCdcAcmRead demo_dev (Some 5) True of (Status, Count, Out, Dev') \<Rightarrow>
     Out = [] \<and> Count = Some 0 \<and> Status = EFI_TIMEOUT"
proof -
  have "RxCount demo_dev = 0"
    by (simp add: demo_dev_def RxCount_def)
  then show ?thesis
    using read_spec [OF demo_ok(1), of 5] by (auto simp: demo_ok(3) split: prod.splits)
qed

section \<open>Reset under preemption\<close>

lemma rx_store_tail: "rx_store bs (Dev\<lparr>RxTail := k\<rparr>) = (rx_store bs Dev)\<lparr>RxTail := k\<rparr>"
proof (induction bs arbitrary: Dev)
  case (Cons b bs)
  let ?xs = "(Rx Dev)[RxHead Dev := b]" and ?h = "(RxHead Dev + 1) mod USB_CDC_ACM_RX_FIFO_SIZE"
  have "rx_store (b # bs) (Dev\<lparr>RxTail := k\<rparr>) = rx_store bs (Dev\<lparr>RxTail := k, Rx := ?xs, RxHead := ?h\<rparr>)"
    by simp
  also have "Dev\<lparr>RxTail := k, Rx := ?xs, RxHead := ?h\<rparr> = Dev\<lparr>Rx := ?xs, RxHead := ?h\<rparr>\<lparr>RxTail := k\<rparr>"
    by simp
  also have "rx_store bs \<dots> = (rx_store bs (Dev\<lparr>Rx := ?xs, RxHead := ?h\<rparr>))\<lparr>RxTail := k\<rparr>"
    by (rule Cons.IH)
  finally show ?case by simp
qed simp

lemma reset_empties:
  assumes "rx_ok Dev"
  shows "rx_ok (reset_tail (reset_head Dev))" "rx_bytes (reset_tail (reset_head Dev)) = []"
    "RxFree (reset_tail (reset_head Dev)) = USB_CDC_ACM_RX_FIFO_SIZE - 1"
  using assms by (simp_all add: rx_ok_def reset_head_def reset_tail_def rx_bytes_def RxCount_def RxFree_def)

text \<open>Any number of timer ticks.\<close>

fun polls :: "acm_env \<Rightarrow> nat \<Rightarrow> acm_dev \<Rightarrow> acm_dev acm" where
  "polls E 0 Dev = State_Monad.return Dev"
| "polls E (Suc k) Dev = do { Dev \<leftarrow> UsbCdcAcmPoll E Dev; polls E k Dev }"

lemma polls_run:
  assumes "bulk_in_bounded E"
  shows "rx_ok Dev \<Longrightarrow> \<exists>Dev' es. run_state (polls E k Dev) t = (Dev', t @ es) \<and> rx_ok Dev' \<and>
    rx_bytes Dev' = rx_bytes Dev @ received es"
proof (induction k arbitrary: Dev t)
  case (Suc k)
  obtain D es where p: "run_state (UsbCdcAcmPoll E Dev) t = (D, t @ es)" "rx_ok D" "rx_bytes D = rx_bytes Dev @ received es"
    using poll_run [OF Suc.prems assms] by blast
  obtain D' es' where "run_state (polls E k D) (t @ es) = (D', (t @ es) @ es')" "rx_ok D'" "rx_bytes D' = rx_bytes D @ received es'"
    using Suc.IH [OF p(2), of "t @ es"] by blast
  with p show ?case
    by (intro exI [of _ D'] exI [of _ "es @ es'"]) simp
qed simp

text \<open>
  Between the stores: the head restarted at zero and has not caught up with the old tail, so that what lies between
  zero and the head is what was received since.
\<close>

definition restarted :: "acm_dev \<Rightarrow> bool" where
  "restarted Dev \<longleftrightarrow> rx_ok Dev \<and> (RxTail Dev = 0 \<or> RxHead Dev < RxTail Dev)"

lemma rx_store_ends:
  "RxTail (rx_store bs Dev) = RxTail Dev"
  "RxHead Dev + length bs < USB_CDC_ACM_RX_FIFO_SIZE \<Longrightarrow> RxHead (rx_store bs Dev) = RxHead Dev + length bs"
  by (induction bs arbitrary: Dev) simp_all

lemma restarted_store:
  assumes "restarted Dev" "length bs \<le> RxFree Dev"
  shows "restarted (rx_store bs Dev)" "rx_bytes (reset_tail (rx_store bs Dev)) = rx_bytes (reset_tail Dev) @ bs"
proof -
  have ok: "rx_ok Dev" "rx_ok (reset_tail Dev)"
    using assms(1) by (auto simp: restarted_def rx_ok_def reset_tail_def)
  have free: "RxFree Dev \<le> RxFree (reset_tail Dev)" "RxTail Dev \<noteq> 0 \<longrightarrow> RxHead Dev + length bs < RxTail Dev"
    using assms by (auto simp: restarted_def rx_ok_def RxFree_def RxCount_def reset_tail_def mod_if split: if_splits)
  show "rx_bytes (reset_tail (rx_store bs Dev)) = rx_bytes (reset_tail Dev) @ bs"
    using rx_store_ok [OF ok(2), of bs] assms(2) free(1) by (simp add: reset_tail_def rx_store_tail)
  show "restarted (rx_store bs Dev)"
    using rx_store_ok [OF ok(1) assms(2)] rx_store_ends [where bs = bs and Dev = Dev] free(2) ok(1) by (auto simp: restarted_def rx_ok_def)
qed

lemma restarted_poll:
  assumes "restarted Dev" "bulk_in_bounded E"
  shows "\<exists>Dev' es. run_state (UsbCdcAcmPoll E Dev) t = (Dev', t @ es) \<and> restarted Dev' \<and>
    rx_bytes (reset_tail Dev') = rx_bytes (reset_tail Dev) @ received es"
proof (cases "RxFree Dev < BulkInMaxPacket Dev")
  case False
  obtain s bs where ans: "ae_BulkIn E t (BulkIn Dev) (BulkInMaxPacket Dev) = (s, bs)" by fastforce
  then have "length bs \<le> BulkInMaxPacket Dev"
    using assms(2) by (metis bulk_in_bounded_def snd_conv)
  with False have "length bs \<le> RxFree Dev" by simp
  with restarted_store [OF assms(1) this] show ?thesis
    using False ans assms(1) by (auto simp: UsbCdcAcmPoll_def bulkIn_def RxPut_def)
qed (use assms in \<open>simp add: UsbCdcAcmPoll_def\<close>)

lemma restarted_polls:
  assumes "bulk_in_bounded E"
  shows "restarted Dev \<Longrightarrow> \<exists>Dev' es. run_state (polls E k Dev) t = (Dev', t @ es) \<and> restarted Dev' \<and>
    rx_bytes (reset_tail Dev') = rx_bytes (reset_tail Dev) @ received es"
proof (induction k arbitrary: Dev t)
  case (Suc k)
  obtain D es where p: "run_state (UsbCdcAcmPoll E Dev) t = (D, t @ es)" "restarted D"
      "rx_bytes (reset_tail D) = rx_bytes (reset_tail Dev) @ received es"
    using restarted_poll [OF Suc.prems assms] by blast
  obtain D' es' where "run_state (polls E k D) (t @ es) = (D', (t @ es) @ es')" "restarted D'"
      "rx_bytes (reset_tail D') = rx_bytes (reset_tail D) @ received es'"
    using Suc.IH [OF p(2), of "t @ es"] by blast
  with p show ?case
    by (intro exI [of _ D'] exI [of _ "es @ es'"]) simp
qed simp

lemma SetControl_ring:
  "\<exists>s Dev' es. run_state (UsbCdcAcmSetControl E Dev c) t = ((s, Dev'), t @ es) \<and> received es = [] \<and>
     (rx_ok Dev' \<longleftrightarrow> rx_ok Dev) \<and> rx_bytes Dev' = rx_bytes Dev"
  by (auto simp: UsbCdcAcmSetControl_def AcmClassRequest_def Let_def rx_ok_def rx_bytes_def RxCount_def)

text \<open>
  C25: the poll timer may fire any number of times before, between and after the two stores of a reset.
  The reset then drops exactly what was buffered up to its first store: afterwards the ring is
  well-formed and holds every byte received since that store, in order, and nothing older.
\<close>

theorem reset_preempted_by_poll:
  assumes "rx_ok Dev" "bulk_in_bounded E"
  shows "\<exists>D es0 s Dev' es. run_state (polls E (n 2) Dev) t = (D, t @ es0) \<and>
    run_state (UsbCdcAcmReset E (\<lambda>k. polls E (n k)) Dev) t = ((s, Dev'), t @ es0 @ es) \<and>
    rx_ok Dev' \<and> rx_bytes Dev' = received es"
proof -
  obtain D0 es0 where 0: "run_state (polls E (n 2) Dev) t = (D0, t @ es0)" "rx_ok D0"
    using polls_run [OF assms(2,1)] by blast
  have "restarted (reset_head D0)"
    using 0(2) by (auto simp: restarted_def rx_ok_def reset_head_def)
  then obtain D1 es1 where 1: "run_state (polls E (n 1) (reset_head D0)) (t @ es0) = (D1, (t @ es0) @ es1)" "restarted D1"
      "rx_bytes (reset_tail D1) = received es1"
    using restarted_polls [OF assms(2), of "reset_head D0" "n 1" "t @ es0"] reset_empties(2) [OF 0(2)] by auto
  have "rx_ok (reset_tail D1)"
    using 1(2) by (auto simp: restarted_def rx_ok_def reset_tail_def)
  then obtain D2 es2 where 2: "run_state (polls E (n 0) (reset_tail D1)) (t @ es0 @ es1) = (D2, t @ es0 @ es1 @ es2)" "rx_ok D2"
      "rx_bytes D2 = received es1 @ received es2"
    using polls_run [OF assms(2), of "reset_tail D1" "n 0" "t @ es0 @ es1"] 1(3) by auto
  obtain s Dev' es3 where "run_state (UsbCdcAcmSetControl E D2 (ControlBits D2)) (t @ es0 @ es1 @ es2) =
      ((s, Dev'), t @ es0 @ es1 @ es2 @ es3)" "received es3 = []" "rx_ok Dev'" "rx_bytes Dev' = rx_bytes D2"
    using SetControl_ring [of E D2 "ControlBits D2" "t @ es0 @ es1 @ es2"] 2(2) by auto
  with 0(1) 1(1) 2 show ?thesis
    by (intro exI [of _ D0] exI [of _ es0] exI [of _ s] exI [of _ Dev'] exI [of _ "es1 @ es2 @ es3"])
      (simp add: UsbCdcAcmReset_def reset_stores_def numeral_2_eq_2)
qed

theorem reset_preempted_by_poll_witness:
  "\<exists>s Dev' es0 es. run_state (UsbCdcAcmReset demo_acm (\<lambda>k. polls demo_acm 1) demo_dev) [] = ((s, Dev'), es0 @ es) \<and>
     rx_bytes Dev' = received es"
  using reset_preempted_by_poll [OF demo_ok(1,2), of "\<lambda>_. 1" "[]"] by auto

section \<open>Line state and line coding\<close>

lemma line_bits:
  "Bits AND EFI_SERIAL_DATA_TERMINAL_READY \<noteq> 0 \<longleftrightarrow> bit Bits 0"
  "Bits AND EFI_SERIAL_REQUEST_TO_SEND \<noteq> 0 \<longleftrightarrow> bit Bits 1"
  using and_exp_eq_0_iff_not_bit [of Bits 0] and_exp_eq_0_iff_not_bit [of Bits 1]
  by (simp_all add: serial_consts)

lemma refused_bits:
  "c AND (EFI_SERIAL_HARDWARE_LOOPBACK_ENABLE OR EFI_SERIAL_SOFTWARE_LOOPBACK_ENABLE OR
     EFI_SERIAL_HARDWARE_FLOW_CONTROL_ENABLE) = 0 \<longleftrightarrow> \<not> bit c 12 \<and> \<not> bit c 13 \<and> \<not> bit c 14"
  using and_exp_eq_0_iff_not_bit [of c 12] and_exp_eq_0_iff_not_bit [of c 13]
    and_exp_eq_0_iff_not_bit [of c 14]
  by (simp only: bit.conj_disj_distrib or_eq_0_iff) (simp add: serial_consts)

text \<open>
  SetControl refuses loopback and flow control without touching the port; otherwise it puts
  exactly the requested DTR and RTS on the wire, and GetControl reports them back together with
  the buffer state.
\<close>

theorem set_get_control:
  "\<exists>Status Dev' es. run_state (UsbCdcAcmSetControl E Dev c) t = ((Status, Dev'), t @ es) \<and>
     (if bit c 12 \<or> bit c 13 \<or> bit c 14 then Status = EFI_UNSUPPORTED \<and> Dev' = Dev \<and> es = []
      else Status = EFI_SUCCESS \<and>
        (\<exists>r s. es = [UsbControlTransfer r s] \<and> cr_Request r = 0x22 \<and> cr_Data r = [] \<and>
           cr_Index r = ucast (ControlInterfaceNumber Dev) \<and>
           (bit (cr_Value r) 0 \<longleftrightarrow> bit c 0) \<and> (bit (cr_Value r) 1 \<longleftrightarrow> bit c 1) \<and>
           drop_bit 2 (cr_Value r) = 0) \<and>
        UsbCdcAcmGetControl Dev' True =
          (EFI_SUCCESS, Some ((take_bit 2 c OR 0x200) OR (if RxCount Dev = 0 then 0x100 else 0))))"
proof (cases "bit c 12 \<or> bit c 13 \<or> bit c 14")
  case True
  then show ?thesis
    using refused_bits [of c] by (auto simp: UsbCdcAcmSetControl_def)
next
  case False
  have mask: "c AND (EFI_SERIAL_DATA_TERMINAL_READY OR EFI_SERIAL_REQUEST_TO_SEND) = take_bit 2 c"
    by (simp add: serial_consts take_bit_eq_mask mask_eq_exp_minus_1)
  have "RxCount (Dev\<lparr>ControlBits := x\<rparr>) = RxCount Dev" for x
    by (simp add: RxCount_def)
  moreover have "drop_bit 2 (line_state b) = 0" "bit (line_state b) 0 \<longleftrightarrow> bit b 0"
    "bit (line_state b) (Suc 0) \<longleftrightarrow> bit b 1" for b
    unfolding line_state_def line_bits by (auto simp: serial_consts)
  ultimately show ?thesis
    using False refused_bits [of c] mask
    by (auto simp: UsbCdcAcmSetControl_def AcmClassRequest_def UsbCdcAcmGetControl_def Let_def
        USB_CDC_SET_CONTROL_LINE_STATE_def EFI_SERIAL_OUTPUT_BUFFER_EMPTY_def
        EFI_SERIAL_INPUT_BUFFER_EMPTY_def bit_take_bit_iff)
qed

end
