(* ===== verification/AcmBinding.thy ===== *)
theory AcmBinding
  imports SerialIo
begin

text \<open>
  UsbCdcAcmDxe/UsbCdcAcmDxe.c: the driver binding of the CDC-ACM driver (Supported, Start, Stop),
  the search for the data interface that belongs to a control interface, and the choice of the
  bulk endpoints.  It uses the environment of SerialIo; the theorems account for every open,
  allocation, event and publication on all paths.
\<close>

section \<open>Definitions\<close>

definition USB_CDC_CLASS :: u8 where "USB_CDC_CLASS = 0x02"
definition USB_CDC_ACM_SUBCLASS :: u8 where "USB_CDC_ACM_SUBCLASS = 0x02"
definition USB_CDC_DATA_CLASS :: u8 where "USB_CDC_DATA_CLASS = 0x0A"
definition USB_ENDPOINT_TYPE_MASK :: u8 where "USB_ENDPOINT_TYPE_MASK = 0x03"
definition USB_ENDPOINT_BULK :: u8 where "USB_ENDPOINT_BULK = 0x02"
definition USB_ENDPOINT_DIR_IN :: u8 where "USB_ENDPOINT_DIR_IN = 0x80"

definition usbInterface :: "acm_env \<Rightarrow> nat \<Rightarrow> (efi_status \<times> interface_desc) acm" where
  "usbInterface E h = ask (\<lambda>t. ae_Interface E t h) (\<lambda>(s, d). UsbInterfaceDescriptor h s d)"

definition usbEndpoint :: "acm_env \<Rightarrow> nat \<Rightarrow> nat \<Rightarrow> (efi_status \<times> endpoint_desc) acm" where
  "usbEndpoint E h i = ask (\<lambda>t. ae_Endpoint E t h i) (\<lambda>(s, d). UsbEndpointDescriptor h i s d)"

definition openByDriver :: "acm_env \<Rightarrow> nat \<Rightarrow> efi_status acm" where
  "openByDriver E h = ask (\<lambda>t. ae_OpenByDriver E t h) (OpenByDriver h)"

definition closeByDriver :: "acm_env \<Rightarrow> nat \<Rightarrow> efi_status acm" where
  "closeByDriver E h = ask (\<lambda>t. ae_CloseByDriver E t h) (CloseByDriver h)"

text \<open>The size is None where it is the size of a C structure.\<close>

definition acmAllocate :: "acm_env \<Rightarrow> acm_pool \<Rightarrow> nat option \<Rightarrow> bool acm" where
  "acmAllocate E p n = ask (\<lambda>t. ae_Allocate E t p n) (AcmAllocate p)"

definition IsAcmControlInterface :: "acm_env \<Rightarrow> nat \<Rightarrow> bool acm" where
  "IsAcmControlInterface E h = do {
     (Status, Desc) \<leftarrow> usbInterface E h;
     State_Monad.return (if EFI_ERROR Status then False
       else InterfaceClass Desc = USB_CDC_CLASS \<and> InterfaceSubClass Desc = USB_CDC_ACM_SUBCLASS)
   }"

text \<open>The walk remembers the last node and its byte offset.\<close>

fun prefix_walk :: "nat \<Rightarrow> (nat \<times> dp_node) option \<Rightarrow> device_path \<Rightarrow> (nat \<times> dp_node) option" where
  "prefix_walk offs Last [] = Last"
| "prefix_walk offs Last (Node # Nodes) = prefix_walk (offs + node_size Node) (Some (offs, Node)) Nodes"

definition DevicePathPrefixSize :: "device_path \<Rightarrow> nat \<times> dp_node option" where
  "DevicePathPrefixSize p =
     (case prefix_walk 0 None p of None \<Rightarrow> (0, None) | Some (offs, Node) \<Rightarrow> (offs, Some Node))"

text \<open>The sibling test of FindDataInterface: same size of prefix, same bytes, and a USB node last.\<close>

definition same_usb_device :: "device_path \<Rightarrow> nat \<Rightarrow> device_path \<Rightarrow> bool" where
  "same_usb_device CtrlPath CtrlPrefix CandPath =
     (case DevicePathPrefixSize CandPath of (CandPrefix, CandLast) \<Rightarrow>
        if CandPrefix \<noteq> CtrlPrefix then False
        else (case CandLast of
            None \<Rightarrow> False
          | Some Node \<Rightarrow>
              take CtrlPrefix (path_bytes CandPath) = take CtrlPrefix (path_bytes CtrlPath) \<and>
              dp_Type Node = MESSAGING_DEVICE_PATH \<and> dp_SubType Node = MSG_USB_DP))"

fun data_interface_loop ::
  "acm_env \<Rightarrow> acm_dev \<Rightarrow> device_path \<Rightarrow> nat \<Rightarrow> nat list \<Rightarrow> (efi_status \<times> acm_dev) acm" where
  "data_interface_loop E Dev CtrlPath CtrlPrefix [] = State_Monad.return (EFI_NOT_FOUND, Dev)"
| "data_interface_loop E Dev CtrlPath CtrlPrefix (h # hs) =
     (if h = ControllerHandle Dev then data_interface_loop E Dev CtrlPath CtrlPrefix hs
      else do {
        (Status, CandPath) \<leftarrow> pathOf E h;
        if EFI_ERROR Status \<or> \<not> same_usb_device CtrlPath CtrlPrefix CandPath
        then data_interface_loop E Dev CtrlPath CtrlPrefix hs
        else do {
          Status \<leftarrow> openByDriver E h;
          if EFI_ERROR Status then data_interface_loop E Dev CtrlPath CtrlPrefix hs
          else do {
            (Status, Desc) \<leftarrow> usbInterface E h;
            if \<not> EFI_ERROR Status \<and> InterfaceClass Desc = USB_CDC_DATA_CLASS
            then State_Monad.return (EFI_SUCCESS, Dev\<lparr>DataHandle := h\<rparr>)
            else do {
              _ \<leftarrow> closeByDriver E h;
              data_interface_loop E Dev CtrlPath CtrlPrefix hs
            }
          }
        }
      })"

definition FindDataInterface :: "acm_env \<Rightarrow> acm_dev \<Rightarrow> (efi_status \<times> acm_dev) acm" where
  "FindDataInterface E Dev = do {
     (Status, CtrlPath) \<leftarrow> pathOf E (ControllerHandle Dev);
     if EFI_ERROR Status then State_Monad.return (Status, Dev)
     else (case DevicePathPrefixSize CtrlPath of
         (CtrlPrefix, None) \<Rightarrow> State_Monad.return (EFI_NOT_FOUND, Dev)
       | (CtrlPrefix, Some _) \<Rightarrow> do {
           (Status, Handles) \<leftarrow> ask (\<lambda>t. ae_LocateUsbIo E t) (\<lambda>(s, hs). LocateUsbIo s hs);
           if EFI_ERROR Status then State_Monad.return (Status, Dev)
           else do {
             r \<leftarrow> data_interface_loop E Dev CtrlPath CtrlPrefix Handles;
             tell (AcmFree HandlesPool);
             State_Monad.return r
           }
         })
   }"

definition use_endpoint :: "endpoint_desc \<Rightarrow> acm_dev \<Rightarrow> acm_dev" where
  "use_endpoint Ep Dev =
     (if Attributes Ep AND USB_ENDPOINT_TYPE_MASK \<noteq> USB_ENDPOINT_BULK then Dev
      else if EndpointAddress Ep AND USB_ENDPOINT_DIR_IN \<noteq> 0
      then Dev\<lparr>BulkIn := EndpointAddress Ep, BulkInMaxPacket := unat (MaxPacketSize Ep)\<rparr>
      else Dev\<lparr>BulkOut := EndpointAddress Ep, BulkOutMaxPacket := unat (MaxPacketSize Ep)\<rparr>)"

text \<open>The loop over the endpoint numbers, counted down from NumEndpoints.\<close>

fun endpoint_loop :: "acm_env \<Rightarrow> acm_dev \<Rightarrow> nat \<Rightarrow> nat \<Rightarrow> acm_dev acm" where
  "endpoint_loop E Dev i 0 = State_Monad.return Dev"
| "endpoint_loop E Dev i (Suc n) = do {
     (Status, Ep) \<leftarrow> usbEndpoint E (DataHandle Dev) i;
     endpoint_loop E (if EFI_ERROR Status then Dev else use_endpoint Ep Dev) (Suc i) n
   }"

definition ResolveBulkEndpoints :: "acm_env \<Rightarrow> acm_dev \<Rightarrow> (efi_status \<times> acm_dev) acm" where
  "ResolveBulkEndpoints E Dev = do {
     (Status, Interface) \<leftarrow> usbInterface E (DataHandle Dev);
     if EFI_ERROR Status then State_Monad.return (Status, Dev)
     else do {
       Dev \<leftarrow> endpoint_loop E Dev 0 (unat (NumEndpoints Interface));
       State_Monad.return (if BulkIn Dev = 0 \<or> BulkOut Dev = 0 then EFI_NOT_FOUND else EFI_SUCCESS, Dev)
     }
   }"

definition UsbCdcAcmDriverSupported :: "acm_env \<Rightarrow> nat \<Rightarrow> efi_status acm" where
  "UsbCdcAcmDriverSupported E Controller = do {
     Status \<leftarrow> openByDriver E Controller;
     if EFI_ERROR Status then State_Monad.return Status
     else do {
       Supported \<leftarrow> IsAcmControlInterface E Controller;
       _ \<leftarrow> closeByDriver E Controller;
       State_Monad.return (if Supported then EFI_SUCCESS else EFI_UNSUPPORTED)
     }
   }"

definition zero_dev :: "nat \<Rightarrow> acm_dev" where
  "zero_dev Controller = \<lparr>ControllerHandle = Controller, DataHandle = 0,
     SerialMode = \<lparr>ControlMask = 0, Timeout = 0, BaudRate = 0, ReceiveFifoDepth = 0, DataBits = 0,
       Parity = 0, StopBits = 0\<rparr>,
     DevicePath = False, ControlInterfaceNumber = 0, BulkIn = 0, BulkOut = 0, BulkInMaxPacket = 0,
     BulkOutMaxPacket = 0, PollEvent = False, RxScratch = False,
     Rx = replicate USB_CDC_ACM_RX_FIFO_SIZE 0, RxHead = 0, RxTail = 0, ControlBits = 0\<rparr>"

text \<open>The error labels of Start, in fall-through order.\<close>

definition ErrorFreeDev :: "efi_status \<Rightarrow> (efi_status \<times> acm_dev option) acm" where
  "ErrorFreeDev Status = do { tell (AcmFree DevPool); State_Monad.return (Status, None) }"

definition ErrorCloseCtrl :: "acm_env \<Rightarrow> acm_dev \<Rightarrow> efi_status \<Rightarrow> (efi_status \<times> acm_dev option) acm" where
  "ErrorCloseCtrl E Dev Status = do { _ \<leftarrow> closeByDriver E (ControllerHandle Dev); ErrorFreeDev Status }"

definition ErrorCloseData :: "acm_env \<Rightarrow> acm_dev \<Rightarrow> efi_status \<Rightarrow> (efi_status \<times> acm_dev option) acm" where
  "ErrorCloseData E Dev Status = do { _ \<leftarrow> closeByDriver E (DataHandle Dev); ErrorCloseCtrl E Dev Status }"

definition ErrorFreeScratch :: "acm_env \<Rightarrow> acm_dev \<Rightarrow> efi_status \<Rightarrow> (efi_status \<times> acm_dev option) acm" where
  "ErrorFreeScratch E Dev Status = do { tell (AcmFree ScratchPool); ErrorCloseData E Dev Status }"

text \<open>The stages of Start after the data interface is open.\<close>

definition start_tail :: "acm_env \<Rightarrow> acm_dev \<Rightarrow> (efi_status \<times> acm_dev option) acm" where
  "start_tail E Dev = do {
     (Status, Dev) \<leftarrow> ResolveBulkEndpoints E Dev;
     if EFI_ERROR Status then ErrorCloseData E Dev Status
     else do {
       Ok \<leftarrow> acmAllocate E ScratchPool (Some (BulkInMaxPacket Dev));
       if \<not> Ok then ErrorCloseData E Dev EFI_OUT_OF_RESOURCES
       else do {
         (Status, Dev) \<leftarrow> UsbCdcAcmInstallSerialIo E (Dev\<lparr>RxScratch := True\<rparr>);
         if EFI_ERROR Status then ErrorFreeScratch E Dev Status
         else State_Monad.return (EFI_SUCCESS, Some Dev)
       }
     }
   }"

text \<open>On success the device context stays allocated and is returned.\<close>

definition UsbCdcAcmDriverStart :: "acm_env \<Rightarrow> nat \<Rightarrow> (efi_status \<times> acm_dev option) acm" where
  "UsbCdcAcmDriverStart E Controller = do {
     Ok \<leftarrow> acmAllocate E DevPool None;
     if \<not> Ok then State_Monad.return (EFI_OUT_OF_RESOURCES, None)
     else do {
       let Dev = zero_dev Controller;
       Status \<leftarrow> openByDriver E Controller;
       if EFI_ERROR Status then ErrorFreeDev Status
       else do {
         (Status, Interface) \<leftarrow> usbInterface E Controller;
         if EFI_ERROR Status then ErrorCloseCtrl E Dev Status
         else do {
           (Status, Dev) \<leftarrow> FindDataInterface E (Dev\<lparr>ControlInterfaceNumber := InterfaceNumber Interface\<rparr>);
           if EFI_ERROR Status then ErrorCloseCtrl E Dev Status else start_tail E Dev
         }
       }
     }
   }"

text \<open>
  Stop of the controller (no children) or of its child; the context is the one the child's
  protocol instance is embedded in.
\<close>

definition UsbCdcAcmDriverStop :: "acm_env \<Rightarrow> nat \<Rightarrow> nat list \<Rightarrow> acm_dev \<Rightarrow> (efi_status \<times> acm_dev) acm" where
  "UsbCdcAcmDriverStop E Controller Children Dev =
     (case Children of
        [] \<Rightarrow> do { Status \<leftarrow> closeByDriver E Controller; State_Monad.return (Status, Dev) }
      | Child # _ \<Rightarrow> do {
          Status \<leftarrow> ask (\<lambda>t. ae_GetSerialIo E t Child) GetSerialIo;
          if EFI_ERROR Status then State_Monad.return (Status, Dev)
          else do {
            (Status, Dev) \<leftarrow> UsbCdcAcmUninstallSerialIo E Dev;
            if EFI_ERROR Status then State_Monad.return (Status, Dev)
            else do {
              _ \<leftarrow> closeByDriver E (DataHandle Dev);
              (if RxScratch Dev then tell (AcmFree ScratchPool) else State_Monad.return ());
              (if DevicePath Dev then tell (AcmFree PathPool) else State_Monad.return ());
              tell (AcmFree DevPool);
              State_Monad.return (EFI_SUCCESS, Dev)
            }
          }
        })"

definition UsbCdcAcmComponentNameGetControllerName :: "efi_status" where
  "UsbCdcAcmComponentNameGetControllerName = EFI_UNSUPPORTED"

lemmas acm_services =
  usbInterface_def usbEndpoint_def openByDriver_def closeByDriver_def acmAllocate_def pathOf_def

section \<open>The sibling test\<close>

lemma prefix_walk_last:
  "prefix_walk offs L p =
     (if p = [] then L else Some (offs + sum_list (map node_size (butlast p)), last p))"
  by (induction p arbitrary: offs L) auto

lemma prefix_size:
  "DevicePathPrefixSize p = (sum_list (map node_size (butlast p)), if p = [] then None else Some (last p))"
  by (simp add: DevicePathPrefixSize_def prefix_walk_last)

lemma length_concat_nodes: "length (concat (map node_bytes p)) = sum_list (map node_size p)"
  by (induction p) auto

lemma take_prefix_bytes:
  "take (sum_list (map node_size (butlast p))) (path_bytes p) = concat (map node_bytes (butlast p))"
proof (cases p rule: rev_cases)
  case (snoc q n)
  then show ?thesis
    by (simp add: path_bytes_def flip: length_concat_nodes)
qed (simp add: path_bytes_def)

text \<open>
  for well-formed paths the bytewise sibling test is the intended one: the candidate is on the
  same USB device exactly when the two paths agree in all nodes but the last and the candidate
  ends in a USB node.
\<close>

theorem same_usb_device_iff:
  assumes "path_wf CtrlPath" "path_wf CandPath"
  shows "same_usb_device CtrlPath (fst (DevicePathPrefixSize CtrlPath)) CandPath \<longleftrightarrow>
    CandPath \<noteq> [] \<and> butlast CandPath = butlast CtrlPath \<and>
    dp_Type (last CandPath) = MESSAGING_DEVICE_PATH \<and> dp_SubType (last CandPath) = MSG_USB_DP"
proof -
  let ?n = "sum_list (map node_size (butlast CtrlPath))"
  have wf: "path_wf (butlast CtrlPath)" "path_wf (butlast CandPath)"
    using assms by (auto simp: path_wf_def dest: in_set_butlastD)
  have "take ?n (path_bytes CandPath) = take ?n (path_bytes CtrlPath) \<longleftrightarrow> butlast CandPath = butlast CtrlPath"
    if "sum_list (map node_size (butlast CandPath)) = ?n"
    using take_prefix_bytes [of CandPath] take_prefix_bytes [of CtrlPath] that
      concat_node_bytes_inject [OF wf(2,1)] by auto
  then show ?thesis
    by (auto simp: same_usb_device_def prefix_size)
qed

definition demo_usb_path :: "u8 \<Rightarrow> device_path" where
  "demo_usb_path i = [\<lparr>dp_Type = 1, dp_SubType = 1, dp_Data = [0, 0x14]\<rparr>,
     \<lparr>dp_Type = 3, dp_SubType = 5, dp_Data = [2, i]\<rparr>]"

theorem same_usb_device_iff_witness:
  "same_usb_device (demo_usb_path 0) (fst (DevicePathPrefixSize (demo_usb_path 0))) (demo_usb_path 1)"
proof -
  have "path_wf (demo_usb_path i)" for i
    by (simp add: path_wf_def demo_usb_path_def node_size_def)
  from same_usb_device_iff [OF this this] show ?thesis
    by (simp add: demo_usb_path_def MESSAGING_DEVICE_PATH_def MSG_USB_DP_def)
qed

section \<open>Resources\<close>

datatype acm_resource = DriverOpen nat | ChildOpen | Published | PollTimer | PoolOf acm_pool

fun acm_delta :: "acm_resource \<Rightarrow> acm_event \<Rightarrow> int" where
  "acm_delta r (OpenByDriver h s) = of_bool (r = DriverOpen h \<and> \<not> EFI_ERROR s)"
| "acm_delta r (CloseByDriver h s) = - of_bool (r = DriverOpen h)"
| "acm_delta r (OpenByChild s) = of_bool (r = ChildOpen \<and> \<not> EFI_ERROR s)"
| "acm_delta r CloseByChild = - of_bool (r = ChildOpen)"
| "acm_delta r (InstallSerialIo p s) = of_bool (r = Published \<and> \<not> EFI_ERROR s)"
| "acm_delta r (UninstallSerialIo s) = - of_bool (r = Published \<and> \<not> EFI_ERROR s)"
| "acm_delta r (CreatePollEvent s) = of_bool (r = PollTimer \<and> \<not> EFI_ERROR s)"
| "acm_delta r ClosePollEvent = - of_bool (r = PollTimer)"
| "acm_delta r (AcmAllocate p ok) = of_bool (r = PoolOf p \<and> ok)"
| "acm_delta r (LocateUsbIo s hs) = of_bool (r = PoolOf HandlesPool \<and> \<not> EFI_ERROR s)"
| "acm_delta r (AcmFree p) = - of_bool (r = PoolOf p)"
| "acm_delta r _ = 0"

definition held :: "acm_trace \<Rightarrow> acm_resource \<Rightarrow> int" where
  "held es r = sum_list (map (acm_delta r) es)"

lemma held_simps [simp]:
  "held [] r = 0"
  "held (e # es) r = acm_delta r e + held es r"
  "held (es @ es') r = held es r + held es' r"
  by (simp_all add: held_def)

fun failed_uninstall :: "acm_event \<Rightarrow> int" where
  "failed_uninstall (UninstallSerialIo s) = of_bool (EFI_ERROR s)"
| "failed_uninstall _ = 0"

definition failed_uninstalls :: "acm_trace \<Rightarrow> int" where
  "failed_uninstalls es = sum_list (map failed_uninstall es)"

lemma failed_uninstalls_simps [simp]:
  "failed_uninstalls [] = 0"
  "failed_uninstalls (e # es) = failed_uninstall e + failed_uninstalls es"
  "failed_uninstalls (es @ es') = failed_uninstalls es + failed_uninstalls es'"
  by (simp_all add: failed_uninstalls_def)

text \<open>Everything acquired was released, up to publications the firmware refused to withdraw.\<close>

definition released :: "acm_trace \<Rightarrow> bool" where
  "released es \<longleftrightarrow> (\<forall>r. held es r = (if r = Published then failed_uninstalls es else 0))"

lemma data_interface_loop_yields:
  "yields (data_interface_loop E Dev P n hs) (\<lambda>(s, D) es. failed_uninstalls es = 0 \<and>
     (if EFI_ERROR s then D = Dev \<and> (\<forall>r. held es r = 0)
      else DataHandle D \<noteq> ControllerHandle Dev \<and> D = Dev\<lparr>DataHandle := DataHandle D\<rparr> \<and>
        (\<forall>r. held es r = of_bool (r = DriverOpen (DataHandle D)))))"
proof (induction hs)
  case (Cons h hs)
  note weaken = yields_weaken [OF Cons.IH]
  show ?case
    unfolding data_interface_loop.simps acm_services
    by (auto intro!: yields_intros weaken split: if_splits)
qed (auto intro!: yields_intros)

text \<open>The fields a stage leaves alone.\<close>

definition same_ids :: "acm_dev \<Rightarrow> acm_dev \<Rightarrow> bool" where
  "same_ids D D' \<longleftrightarrow> ControllerHandle D' = ControllerHandle D \<and> DataHandle D' = DataHandle D \<and>
     RxScratch D' = RxScratch D \<and> Rx D' = Rx D \<and> RxHead D' = RxHead D \<and> RxTail D' = RxTail D"

lemma same_ids_simps [simp]:
  "same_ids D D"
  "same_ids D D' \<Longrightarrow> rx_ok D' = rx_ok D"
  by (auto simp: same_ids_def rx_ok_def)

lemma FindDataInterface_yields:
  "yields (FindDataInterface E Dev) (\<lambda>(s, D) es. failed_uninstalls es = 0 \<and>
     (if EFI_ERROR s then D = Dev \<and> (\<forall>r. held es r = 0)
      else DataHandle D \<noteq> ControllerHandle Dev \<and> D = Dev\<lparr>DataHandle := DataHandle D\<rparr> \<and>
        (\<forall>r. held es r = of_bool (r = DriverOpen (DataHandle D)))))"
  unfolding FindDataInterface_def pathOf_def
  by (auto intro!: yields_intros yields_bind [OF data_interface_loop_yields] split: if_splits option.splits)

definition bulk_pair :: "acm_dev \<Rightarrow> bool" where
  "bulk_pair D \<longleftrightarrow> (BulkIn D = 0 \<or> bit (BulkIn D) 7) \<and> \<not> bit (BulkOut D) 7"

lemma use_endpoint_keeps:
  "bulk_pair D \<Longrightarrow> bulk_pair (use_endpoint Ep D) \<and> same_ids D (use_endpoint Ep D) \<and>
     PollEvent (use_endpoint Ep D) = PollEvent D \<and> DevicePath (use_endpoint Ep D) = DevicePath D"
  using and_exp_eq_0_iff_not_bit [of "EndpointAddress Ep" 7]
  by (auto simp: use_endpoint_def bulk_pair_def same_ids_def USB_ENDPOINT_DIR_IN_def)

lemma endpoint_loop_yields:
  "bulk_pair Dev \<Longrightarrow> yields (endpoint_loop E Dev i n) (\<lambda>D es. failed_uninstalls es = 0 \<and>
     (\<forall>r. held es r = 0) \<and> bulk_pair D \<and> same_ids Dev D \<and>
     PollEvent D = PollEvent Dev \<and> DevicePath D = DevicePath Dev)"
proof (induction E Dev i n rule: endpoint_loop.induct)
  case (2 E Dev i n)
  show ?case
    unfolding endpoint_loop.simps usbEndpoint_def
  proof (intro yields_ask_bind yields_prod, goal_cases)
    case (1 r s Ep)
    let ?D = "if EFI_ERROR s then Dev else use_endpoint Ep Dev"
    have "bulk_pair ?D" "same_ids Dev ?D" "PollEvent ?D = PollEvent Dev" "DevicePath ?D = DevicePath Dev"
      using use_endpoint_keeps [OF 2(2), of Ep] 2(2) by auto
    with 1 show ?case
      by (intro yields_weaken [OF 2(1)]) (auto simp: same_ids_def)
  qed
qed (auto intro!: yields_intros)

lemma ResolveBulkEndpoints_yields:
  assumes "bulk_pair Dev"
  shows "yields (ResolveBulkEndpoints E Dev) (\<lambda>(s, D) es. failed_uninstalls es = 0 \<and>
     (\<forall>r. held es r = 0) \<and> same_ids Dev D \<and> PollEvent D = PollEvent Dev \<and> DevicePath D = DevicePath Dev \<and>
     (\<not> EFI_ERROR s \<longrightarrow> bit (BulkIn D) 7 \<and> BulkOut D \<noteq> 0 \<and> \<not> bit (BulkOut D) 7))"
  unfolding ResolveBulkEndpoints_def usbInterface_def
  by (auto intro!: yields_intros yields_bind [OF endpoint_loop_yields [OF assms]] simp: bulk_pair_def)

lemma SetControl_yields:
  "yields (UsbCdcAcmSetControl E Dev c) (\<lambda>(s, D) es. failed_uninstalls es = 0 \<and>
     (\<forall>r. held es r = 0) \<and> (\<exists>b. D = Dev\<lparr>ControlBits := b\<rparr>))"
  unfolding UsbCdcAcmSetControl_def AcmClassRequest_def Let_def
  by (auto intro!: yields_intros) (metis acm_dev.update_convs(15) acm_dev.surjective)+

definition child_net :: "acm_resource \<Rightarrow> int" where
  "child_net r = of_bool (r \<in> {ChildOpen, Published, PollTimer, PoolOf PathPool})"

lemma install_start_yields:
  "yields (install_start E Dev) (\<lambda>(s, D) es. same_ids Dev D \<and> BulkIn D = BulkIn Dev \<and> BulkOut D = BulkOut Dev \<and>
     (if EFI_ERROR s then \<forall>r. held es r = (if r = Published then failed_uninstalls es - 1 else 0)
           - of_bool (r = PoolOf PathPool)
      else PollEvent D \<and> DevicePath D = DevicePath Dev \<and> failed_uninstalls es = 0 \<and>
        (\<forall>r. held es r = of_bool (r = ChildOpen \<or> r = PollTimer))))"
  unfolding install_start_def ErrorCloseChild_def ErrorUninstall_def
  by (auto intro!: yields_intros yields_bind [OF SetControl_yields] simp: same_ids_def)

lemma InstallSerialIo_yields:
  "yields (UsbCdcAcmInstallSerialIo E Dev) (\<lambda>(s, D) es. same_ids Dev D \<and> BulkIn D = BulkIn Dev \<and>
     BulkOut D = BulkOut Dev \<and>
     (if EFI_ERROR s then released es
      else PollEvent D \<and> DevicePath D \<and> failed_uninstalls es = 0 \<and> (\<forall>r. held es r = child_net r)))"
  unfolding UsbCdcAcmInstallSerialIo_def pathOf_def Let_def
  by (auto intro!: yields_intros yields_weaken [OF install_start_yields]
      simp: same_ids_def released_def child_net_def split: if_splits)

definition started_net :: "acm_dev \<Rightarrow> acm_resource \<Rightarrow> int" where
  "started_net D r = child_net r + of_bool (r = DriverOpen (ControllerHandle D)) +
     of_bool (r = DriverOpen (DataHandle D)) + of_bool (r \<in> {PoolOf DevPool, PoolOf ScratchPool})"

text \<open>What a started port looks like.\<close>

definition port_ready :: "nat \<Rightarrow> acm_dev \<Rightarrow> bool" where
  "port_ready Controller D \<longleftrightarrow> ControllerHandle D = Controller \<and> DataHandle D \<noteq> Controller \<and>
     bit (BulkIn D) 7 \<and> BulkOut D \<noteq> 0 \<and> \<not> bit (BulkOut D) 7 \<and>
     PollEvent D \<and> DevicePath D \<and> RxScratch D \<and> rx_ok D \<and> rx_bytes D = []"

definition start_outcome :: "nat \<Rightarrow> efi_status \<Rightarrow> acm_dev option \<Rightarrow> acm_trace \<Rightarrow> bool" where
  "start_outcome Controller s d es \<longleftrightarrow> (case d of
       None \<Rightarrow> EFI_ERROR s \<and> released es
     | Some D \<Rightarrow> s = EFI_SUCCESS \<and> port_ready Controller D \<and> (\<forall>r. held es r = started_net D r))"

lemma ErrorCloseCtrl_outcome:
  "EFI_ERROR s \<Longrightarrow>
   yields (ErrorCloseCtrl E D s) (\<lambda>(s', d) es. s' = s \<and> d = None \<and> failed_uninstalls es = 0 \<and>
     (\<forall>r. held es r = - of_bool (r = DriverOpen (ControllerHandle D)) - of_bool (r = PoolOf DevPool)))"
  unfolding ErrorCloseCtrl_def ErrorFreeDev_def closeByDriver_def by (auto intro!: yields_intros)

lemma ErrorCloseData_outcome:
  "EFI_ERROR s \<Longrightarrow>
   yields (ErrorCloseData E D s) (\<lambda>(s', d) es. s' = s \<and> d = None \<and> failed_uninstalls es = 0 \<and>
     (\<forall>r. held es r = - of_bool (r = DriverOpen (DataHandle D)) -
        of_bool (r = DriverOpen (ControllerHandle D)) - of_bool (r = PoolOf DevPool)))"
  unfolding ErrorCloseData_def ErrorCloseCtrl_def ErrorFreeDev_def closeByDriver_def
  by (auto intro!: yields_intros)

lemma rx_bytes_same: "same_ids D D' \<Longrightarrow> rx_bytes D' = rx_bytes D"
  by (simp add: same_ids_def rx_bytes_def RxCount_def)

lemma start_tail_yields:
  assumes "bulk_pair Dev" "rx_ok Dev" "rx_bytes Dev = []" "DataHandle Dev \<noteq> ControllerHandle Dev"
  shows "yields (start_tail E Dev) (\<lambda>(s, d) es. (case d of
       None \<Rightarrow> EFI_ERROR s \<and> (\<forall>r. held es r = (if r = Published then failed_uninstalls es else 0) -
           of_bool (r = DriverOpen (DataHandle Dev)) - of_bool (r = DriverOpen (ControllerHandle Dev)) -
           of_bool (r = PoolOf DevPool))
     | Some D \<Rightarrow> s = EFI_SUCCESS \<and> port_ready (ControllerHandle Dev) D \<and> DataHandle D = DataHandle Dev \<and>
         (\<forall>r. held es r = child_net r + of_bool (r = PoolOf ScratchPool))))"
  unfolding start_tail_def acmAllocate_def
proof (rule yields_bind [OF ResolveBulkEndpoints_yields [OF assms(1)]], intro yields_intros, goal_cases)
  case (1 r es s D)
  then show ?case
    by (intro yields_weaken [OF ErrorCloseData_outcome]) (auto simp: same_ids_def)
next
  case (2 r es s D ok)
  then show ?case
    by (intro yields_weaken [OF ErrorCloseData_outcome]) (auto simp: same_ids_def)
next
  case (3 r es s D ok)
  then have D: "same_ids Dev D" "bit (BulkIn D) 7" "BulkOut D \<noteq> 0" "\<not> bit (BulkOut D) 7"
    "\<forall>r. held es r = 0" "failed_uninstalls es = 0" by auto
  show ?case
  proof (rule yields_bind [OF InstallSerialIo_yields], intro yields_intros, goal_cases)
    case (1 r' es' s' D')
    with D 3 show ?case
      unfolding ErrorFreeScratch_def
      by (intro yields_tell_bind yields_weaken [OF ErrorCloseData_outcome])
        (auto simp: same_ids_def released_def)
  next
    case (2 r' es' s' D')
    have "same_ids (Dev\<lparr>RxScratch := True\<rparr>) D'"
      using D(1) 2 by (auto simp: same_ids_def)
    moreover have "rx_ok (Dev\<lparr>RxScratch := True\<rparr>)" "rx_bytes (Dev\<lparr>RxScratch := True\<rparr>) = rx_bytes Dev"
      using assms(2) by (simp_all add: rx_ok_def rx_bytes_def RxCount_def)
    ultimately have "rx_ok D'" "rx_bytes D' = []" "DataHandle D' = DataHandle Dev"
      "ControllerHandle D' = ControllerHandle Dev" "RxScratch D'"
      using assms(3) rx_bytes_same [of "Dev\<lparr>RxScratch := True\<rparr>" D'] by (auto simp: same_ids_def rx_ok_def)
    with D 2 3 assms(4) show ?case
      by (auto intro!: yields_intros simp: port_ready_def)
  qed
qed

lemma zero_dev_ready:
  "bulk_pair (zero_dev c)" "rx_ok (zero_dev c)" "rx_bytes (zero_dev c) = []" "ControllerHandle (zero_dev c) = c"
  by (simp_all add: zero_dev_def bulk_pair_def rx_ok_def rx_bytes_def RxCount_def USB_CDC_ACM_RX_FIFO_SIZE_def)

lemma DriverStart_yields:
  "yields (UsbCdcAcmDriverStart E Controller) (\<lambda>(s, d). start_outcome Controller s d)"
  unfolding UsbCdcAcmDriverStart_def acmAllocate_def openByDriver_def usbInterface_def Let_def
proof (intro yields_ask_bind yields_if yields_prod yields_bind [OF FindDataInterface_yields], goal_cases)
  case (5 ok os id s ifc r es fs D)
  let ?Z = "zero_dev Controller\<lparr>ControlInterfaceNumber := InterfaceNumber ifc\<rparr>"
  have post: "failed_uninstalls es = 0 \<and> DataHandle D \<noteq> ControllerHandle ?Z \<and>
      D = ?Z\<lparr>DataHandle := DataHandle D\<rparr> \<and> (\<forall>r. held es r = of_bool (r = DriverOpen (DataHandle D)))"
    using 5(5) unfolding 5(6) prod.case if_not_P [OF 5(7)] .
  have "ControllerHandle ?Z = Controller"
    by (simp add: zero_dev_def)
  with post have D: "DataHandle D \<noteq> Controller" "D = ?Z\<lparr>DataHandle := DataHandle D\<rparr>"
    by (metis, elim conjE)
  have "bulk_pair (?Z\<lparr>DataHandle := h\<rparr>)" "rx_ok (?Z\<lparr>DataHandle := h\<rparr>)" "rx_bytes (?Z\<lparr>DataHandle := h\<rparr>) = []"
    "ControllerHandle (?Z\<lparr>DataHandle := h\<rparr>) = Controller" for h
    by (simp_all add: zero_dev_def bulk_pair_def rx_ok_def rx_bytes_def RxCount_def USB_CDC_ACM_RX_FIFO_SIZE_def)
  moreover obtain h where "D = ?Z\<lparr>DataHandle := h\<rparr>"
    using D(2) by (rule that)
  ultimately have Z: "bulk_pair D" "rx_ok D" "rx_bytes D = []" "ControllerHandle D = Controller"
    by (simp_all only:)
  note es = post [THEN conjunct1] post [THEN conjunct2, THEN conjunct2, THEN conjunct2, THEN spec]
  show ?case
  proof (rule yields_weaken [OF start_tail_yields [OF Z(1-3)]], goal_cases)
    case 1
    show ?case using D(1) Z(4) by simp
  next
    case (2 x es')
    obtain s' d where x: "x = (s', d)" by fastforce
    show ?case
    proof (cases d)
      case None
      then show ?thesis
        using 2 5(1-3) es Z(4) by (simp add: x start_outcome_def released_def)
    next
      case (Some D')
      then have "ControllerHandle D' = Controller"
        using 2 Z(4) by (simp add: x port_ready_def)
      with Some show ?thesis
        using 2 5(1-3) es Z(4) by (simp add: x start_outcome_def started_net_def)
    qed
  qed
qed (auto intro!: yields_intros yields_weaken [OF ErrorCloseCtrl_outcome]
    simp: ErrorFreeDev_def start_outcome_def released_def zero_dev_ready)

text \<open>
  C15: Start is all or nothing, but for a publication that cannot be withdrawn.  When it fails, every open,
  allocation and timer made on the way is undone, and the publication too unless UninstallMultipleProtocolInterfaces
  fails: each such failure leaves one publication behind, against the comment on the function, which says that
  nothing is published then.  A close counts as done whatever its status, which the code does not look at.  When Start
  succeeds, exactly the documented resources are held and the port is ready: distinct data
  interface, a bulk IN and a bulk OUT endpoint, the poll timer running, an empty ring.
\<close>

theorem start_all_or_nothing:
  "\<exists>s d es. run_state (UsbCdcAcmDriverStart E Controller) t = ((s, d), t @ es) \<and>
     (case d of
        None \<Rightarrow> EFI_ERROR s \<and> (\<forall>r. held es r = (if r = Published then failed_uninstalls es else 0))
      | Some D \<Rightarrow> s = EFI_SUCCESS \<and> port_ready Controller D \<and> (\<forall>r. held es r = started_net D r))"
proof -
  obtain x es where "run_state (UsbCdcAcmDriverStart E Controller) t = (x, t @ es)"
    "case x of (s, d) \<Rightarrow> start_outcome Controller s d es"
    using DriverStart_yields by (rule yieldsD) (auto split: prod.splits)
  then show ?thesis
    by (cases x) (auto simp: start_outcome_def released_def split: option.splits)
qed

lemma Uninstall_yields:
  "PollEvent Dev \<Longrightarrow> yields (UsbCdcAcmUninstallSerialIo E Dev) (\<lambda>(s, D) es.
     same_ids Dev D \<and> DevicePath D = DevicePath Dev \<and>
     (if EFI_ERROR s then held es Published = 0
      else \<forall>r. held es r = - of_bool (r \<in> {ChildOpen, Published, PollTimer})))"
  unfolding UsbCdcAcmUninstallSerialIo_def Let_def
  by (auto intro!: yields_intros simp: same_ids_def)

lemma Stop_child_yields:
  assumes "port_ready Controller Dev"
  shows "yields (UsbCdcAcmDriverStop E Controller (c # cs) Dev) (\<lambda>(s, D) es.
     (if EFI_ERROR s then held es Published = 0
      else \<forall>r. held es r = of_bool (r = DriverOpen Controller) - started_net Dev r))"
proof -
  have "PollEvent Dev" "RxScratch Dev" "DevicePath Dev" "DataHandle Dev \<noteq> Controller"
    "ControllerHandle Dev = Controller"
    using assms by (auto simp: port_ready_def)
  then show ?thesis
    unfolding UsbCdcAcmDriverStop_def list.case closeByDriver_def
    by (auto intro!: yields_intros yields_bind [OF Uninstall_yields]
        simp: same_ids_def started_net_def child_net_def)
qed

text \<open>A complete life of the driver: start, stop of the child, stop of the controller.\<close>

definition acm_lifecycle :: "acm_env \<Rightarrow> nat \<Rightarrow> nat \<Rightarrow> (efi_status \<times> efi_status) acm" where
  "acm_lifecycle E Controller Child = do {
     (s, d) \<leftarrow> UsbCdcAcmDriverStart E Controller;
     case d of
       None \<Rightarrow> State_Monad.return (s, s)
     | Some D \<Rightarrow> do {
         (s', D') \<leftarrow> UsbCdcAcmDriverStop E Controller [Child] D;
         if EFI_ERROR s' then State_Monad.return (s, s')
         else do {
           _ \<leftarrow> UsbCdcAcmDriverStop E Controller [] D';
           State_Monad.return (s, s')
         }
       }
   }"

lemma lifecycle_yields:
  "yields (acm_lifecycle E Controller Child) (\<lambda>(s, s') es. \<not> EFI_ERROR s \<longrightarrow> \<not> EFI_ERROR s' \<longrightarrow> (\<forall>r. held es r = 0))"
  unfolding acm_lifecycle_def
proof (rule yields_bind [OF DriverStart_yields], intro yields_prod yields_option, goal_cases)
  case (1 x es s d)
  then show ?case by (auto intro!: yields_intros simp: start_outcome_def)
next
  case (2 x es s d D)
  then have D: "port_ready Controller D" "\<forall>r. held es r = started_net D r"
    by (auto simp: start_outcome_def)
  show ?case
    by (rule yields_bind [OF Stop_child_yields [OF D(1)]])
      (use D(2) in \<open>auto intro!: yields_intros simp: UsbCdcAcmDriverStop_def closeByDriver_def\<close>)
qed

text \<open>
  C24: starting and stopping leaks nothing: whenever both succeed, every resource the driver
  acquired in its life has been released, each exactly once.
\<close>

theorem lifecycle_leaks_nothing:
  assumes "run_state (acm_lifecycle E Controller Child) t = ((s, s'), t @ es)"
    and "\<not> EFI_ERROR s" "\<not> EFI_ERROR s'"
  shows "held es r = 0"
  using yields_run [OF lifecycle_yields assms(1)] assms(2,3) by auto

lemma demo_find:
  "ControllerHandle D = 1 \<Longrightarrow> fst (run_state (FindDataInterface demo_acm D) t) = (EFI_SUCCESS, D\<lparr>DataHandle := 2\<rparr>)"
  by (simp add: FindDataInterface_def prefix_size same_usb_device_def acm_services
      MESSAGING_DEVICE_PATH_def MSG_USB_DP_def USB_CDC_DATA_CLASS_def)

lemma demo_endpoints:
  "\<exists>D'. fst (run_state (endpoint_loop demo_acm D 0 2) t) = D' \<and> BulkIn D' = 0x81 \<and> BulkOut D' = 1"
proof -
  have "endpoint_loop demo_acm D 0 2 = endpoint_loop demo_acm D 0 (Suc (Suc 0))"
    by (simp add: numeral_2_eq_2)
  then show ?thesis
    by (simp add: acm_services use_endpoint_def USB_ENDPOINT_TYPE_MASK_def USB_ENDPOINT_BULK_def
        USB_ENDPOINT_DIR_IN_def)
qed

lemma demo_resolve:
  "fst (fst (run_state (ResolveBulkEndpoints demo_acm D) t)) = EFI_SUCCESS"
  using demo_endpoints by (simp add: ResolveBulkEndpoints_def acm_services split_beta)

lemma demo_install:
  "fst (fst (run_state (UsbCdcAcmInstallSerialIo demo_acm D) t)) = EFI_SUCCESS"
  by (simp add: UsbCdcAcmInstallSerialIo_def install_start_def acm_services split_beta Let_def)

lemma demo_start: "\<exists>D. fst (run_state (UsbCdcAcmDriverStart demo_acm 1) t) = (EFI_SUCCESS, Some D)"
proof -
  have "\<exists>D'. fst (run_state (start_tail demo_acm D) t) = (EFI_SUCCESS, Some D')" for D t
    by (simp add: start_tail_def acm_services split_beta demo_resolve demo_install)
  then show ?thesis
    by (simp add: UsbCdcAcmDriverStart_def acm_services split_beta Let_def demo_find zero_dev_ready)
qed

lemma demo_lifecycle:
  "fst (run_state (acm_lifecycle demo_acm 1 9) t) = (EFI_SUCCESS, EFI_SUCCESS)"
proof -
  obtain D where "fst (run_state (UsbCdcAcmDriverStart demo_acm 1) t) = (EFI_SUCCESS, Some D)"
    using demo_start by blast
  then show ?thesis
    by (simp add: acm_lifecycle_def UsbCdcAcmDriverStop_def UsbCdcAcmUninstallSerialIo_def acm_services split_beta Let_def)
qed

theorem lifecycle_leaks_nothing_witness:
  "\<exists>es. run_state (acm_lifecycle demo_acm 1 9) [] = ((EFI_SUCCESS, EFI_SUCCESS), es) \<and>
     held es (DriverOpen 2) = 0"
proof -
  obtain es where "run_state (acm_lifecycle demo_acm 1 9) [] = ((EFI_SUCCESS, EFI_SUCCESS), [] @ es)"
    using demo_lifecycle [of "[]"] by (metis append_Nil prod.collapse)
  from lifecycle_leaks_nothing [OF this, of "DriverOpen 2"] this show ?thesis
    by simp
qed

end
