(* ===== verification/AsciiText.thy ===== *)
theory AsciiText
  imports NucPrelude
begin

text \<open>
  C strings and the formatted text the Redfish drivers build.  A pointer to a string is the memory
  from there on; a text buffer under construction is the text before its terminating NUL.  Lengths
  and copies follow the C standard functions, with None for an access outside the memory.  The
  firmware's bounded append and bounded print (AsciiStrCatS and AsciiSPrint of EDK2, which are not
  part of this repository) are a parameter \<open>ascii_lib\<close>, and \<open>ascii_lib_ok\<close> states their
  documented behaviour.
\<close>

section \<open>C strings\<close>

definition ascii :: "string \<Rightarrow> u8 list" where
  "ascii s = map of_char s"

definition literal :: "string \<Rightarrow> u8 list" where
  "literal s = ascii s @ [0]"

fun AsciiStrLen :: "u8 list \<Rightarrow> nat option" where
  "AsciiStrLen [] = None"
| "AsciiStrLen (c # cs) = (if c = 0 then Some 0 else map_option Suc (AsciiStrLen cs))"

fun AsciiStrCmp :: "u8 list \<Rightarrow> u8 list \<Rightarrow> int option" where
  "AsciiStrCmp (a # as) (b # bs) = (if a \<noteq> 0 \<and> a = b then AsciiStrCmp as bs else Some (uint a - uint b))"
| "AsciiStrCmp _ _ = None"

definition cstr :: "u8 list \<Rightarrow> u8 list" where
  "cstr m = takeWhile (\<lambda>c. c \<noteq> 0) m"

text \<open>Memory that holds a terminated string.\<close>

definition terminated :: "u8 list \<Rightarrow> bool" where
  "terminated m \<longleftrightarrow> 0 \<in> set m"

definition poke :: "u8 list \<Rightarrow> nat \<Rightarrow> u8 \<Rightarrow> u8 list option" where
  "poke m i v = (if i < length m then Some (m[i := v]) else None)"

definition CopyMem :: "u8 list \<Rightarrow> u8 list \<Rightarrow> nat \<Rightarrow> u8 list option" where
  "CopyMem Dest Source n =
     (if n \<le> length Dest \<and> n \<le> length Source then Some (take n Source @ drop n Dest) else None)"

lemma length_ascii [simp]: "length (ascii s) = length s"
  by (simp add: ascii_def)

lemma AsciiStrLen_nul [simp]: "0 \<notin> set s \<Longrightarrow> AsciiStrLen (s @ 0 # rest) = Some (length s)"
  by (induction s) auto

lemma AsciiStrLen_terminated: "terminated m \<Longrightarrow> AsciiStrLen m = Some (length (cstr m))"
  by (induction m) (auto simp: terminated_def cstr_def)

lemma length_cstr: "terminated m \<Longrightarrow> length (cstr m) < length m"
  by (induction m) (auto simp: terminated_def cstr_def)

lemma cstr_append_nul [simp]: "0 \<notin> set s \<Longrightarrow> cstr (s @ 0 # rest) = s"
  by (induction s) (auto simp: cstr_def)

lemma cstr_no_nul [simp]: "0 \<notin> set (cstr m)"
  by (auto simp: cstr_def dest: set_takeWhileD)

lemma take_cstr: "n \<le> length (cstr m) \<Longrightarrow> take n m = take n (cstr m)"
proof -
  assume "n \<le> length (cstr m)"
  have "m = cstr m @ dropWhile (\<lambda>c. c \<noteq> 0) m"
    by (simp add: cstr_def)
  then have "take n m = take n (cstr m @ dropWhile (\<lambda>c. c \<noteq> 0) m)"
    by simp
  also have "\<dots> = take n (cstr m)"
    using \<open>n \<le> length (cstr m)\<close> by simp
  finally show ?thesis .
qed

lemma terminated_literal [simp]: "terminated (literal s)"
  by (simp add: literal_def terminated_def)

lemma terminated_append [simp]: "terminated (s @ 0 # rest)"
  by (simp add: terminated_def)

lemma AsciiStrCmp_spec:
  "terminated a \<Longrightarrow> terminated b \<Longrightarrow> \<exists>z. AsciiStrCmp a b = Some z \<and> (z = 0 \<longleftrightarrow> cstr a = cstr b)"
proof (induction a b rule: AsciiStrCmp.induct)
  case (1 a as b bs)
  show ?case
  proof (cases "a \<noteq> 0 \<and> a = b")
    case True
    with 1 show ?thesis by (auto simp: terminated_def cstr_def)
  next
    case False
    then show ?thesis by (auto simp: cstr_def word_uint_eq_iff)
  qed
qed (auto simp: terminated_def)

section \<open>Numbers as text\<close>

fun dec_nat :: "nat \<Rightarrow> u8 list" where
  "dec_nat n = (if n < 10 then [0x30 + of_nat n] else dec_nat (n div 10) @ [0x30 + of_nat (n mod 10)])"

declare dec_nat.simps [simp del]

definition dec_int :: "int \<Rightarrow> u8 list" where
  "dec_int i = (if i < 0 then 0x2d # dec_nat (nat (- i)) else dec_nat (nat i))"

definition hex_digit :: "nat \<Rightarrow> u8" where
  "hex_digit d = (if d < 10 then 0x30 + of_nat d else 0x41 + of_nat (d - 10))"

fun hex_text :: "nat \<Rightarrow> nat \<Rightarrow> u8 list" where
  "hex_text 0 n = []"
| "hex_text (Suc w) n = hex_text w (n div 16) @ [hex_digit (n mod 16)]"

lemma length_hex_text [simp]: "length (hex_text w n) = w"
  by (induction w n rule: hex_text.induct) auto

text \<open>Two halves of a hexadecimal number are printed one after the other.\<close>

lemma hex_text_split: "hex_text (v + w) n = hex_text v (n div 16 ^ w) @ hex_text w n"
proof (induction w arbitrary: n)
  case (Suc w)
  have "n div 16 div 16 ^ w = n div 16 ^ Suc w"
    by (simp add: div_mult2_eq)
  then show ?case
    using Suc.IH [of "n div 16"] by simp
qed simp

lemma hex_text_mod: "hex_text w (n mod 16 ^ w) = hex_text w n"
proof (induction w arbitrary: n)
  case (Suc w)
  have "n mod 16 ^ Suc w div 16 = n div 16 mod 16 ^ w"
    by (simp add: mod_mult2_eq)
  moreover have "n mod 16 ^ Suc w mod 16 = n mod 16"
    by (simp add: mod_mod_cancel)
  ultimately show ?case
    using Suc.IH [of "n div 16"] by simp
qed simp

lemma hex_digit_nonzero: "d < 16 \<Longrightarrow> hex_digit d \<noteq> 0"
  by (auto simp: hex_digit_def word_unat_eq_iff unat_word_ariths unat_of_nat)

lemma hex_text_no_nul: "0 \<notin> set (hex_text w n)"
  by (induction w n rule: hex_text.induct) (auto dest: sym simp: hex_digit_nonzero)

lemma length_dec_nat: "0 < w \<Longrightarrow> n < 10 ^ w \<Longrightarrow> length (dec_nat n) \<le> w"
proof (induction n arbitrary: w rule: dec_nat.induct)
  case (1 n)
  show ?case
  proof (cases "n < 10")
    case False
    then obtain v where v: "w = Suc v" "0 < v"
      using 1(2,3) by (cases w; cases "w - 1") auto
    then have "n div 10 < 10 ^ v"
      using 1(3) by (simp add: less_mult_imp_div_less mult.commute)
    with False 1(1) [OF False v(2)] v show ?thesis
      by (simp add: dec_nat.simps [of n])
  qed (use 1 in \<open>simp add: dec_nat.simps [of n]\<close>)
qed

section \<open>The printing library\<close>

datatype print_item =
    Lit string
  | Str "u8 list"
  | Dec int
  | Hex nat nat

fun item_text :: "print_item \<Rightarrow> u8 list" where
  "item_text (Lit s) = ascii s"
| "item_text (Str t) = t"
| "item_text (Dec i) = dec_int i"
| "item_text (Hex w n) = hex_text w n"

definition print_text :: "print_item list \<Rightarrow> u8 list" where
  "print_text items = concat (map item_text items)"

text \<open>
  AsciiStrCatS takes the size of the destination, its text and the text to append, and gives the
  text afterwards; AsciiSPrint takes the size of the buffer and what the format string and its
  arguments ask for.
\<close>

record ascii_lib =
  AsciiStrCatS :: "nat \<Rightarrow> u8 list \<Rightarrow> u8 list \<Rightarrow> u8 list"
  AsciiSPrint :: "nat \<Rightarrow> print_item list \<Rightarrow> u8 list"

text \<open>
  Documented behaviour: an append that does not fit, terminator included, leaves the destination
  alone; a print is cut to what fits.
\<close>

definition ascii_lib_ok :: "ascii_lib \<Rightarrow> bool" where
  "ascii_lib_ok L \<longleftrightarrow>
     (\<forall>n d s. AsciiStrCatS L n d s = (if length d + length s < n then d @ s else d)) \<and>
     (\<forall>n items. AsciiSPrint L n items = take (n - 1) (print_text items))"

definition edk2_lib :: ascii_lib where
  "edk2_lib = \<lparr>AsciiStrCatS = \<lambda>n d s. if length d + length s < n then d @ s else d,
     AsciiSPrint = \<lambda>n items. take (n - 1) (print_text items)\<rparr>"

lemma edk2_lib_ok: "ascii_lib_ok edk2_lib"
  by (simp add: ascii_lib_ok_def edk2_lib_def)

lemma StrCatS_fits: "ascii_lib_ok L \<Longrightarrow> length d + length s < n \<Longrightarrow> AsciiStrCatS L n d s = d @ s"
  by (simp add: ascii_lib_ok_def)

lemma StrCatS_full: "ascii_lib_ok L \<Longrightarrow> n \<le> length d + length s \<Longrightarrow> AsciiStrCatS L n d s = d"
  by (simp add: ascii_lib_ok_def)

lemma SPrint_fits:
  "ascii_lib_ok L \<Longrightarrow> length (print_text items) < n \<Longrightarrow> AsciiSPrint L n items = print_text items"
  by (simp add: ascii_lib_ok_def)

end
