(* ===== verification/SmbiosInventory.thy ===== *)
theory SmbiosInventory
  imports AsciiText
begin

text \<open>
  The SMBIOS half of NucRedfishSyncDxe/NucRedfishInventory.c: the strings of a structure, the UUID
  text, and the collection of the host identity (types 0 and 1), the memory devices (type 17) and
  the processors (type 4).  A record is the memory from its header on, formatted area first; the
  SMBIOS protocol is the list of records its enumeration delivers, or None when it is not
  installed.  A read outside a record gives None.
\<close>

section \<open>Strings\<close>

definition NUC_REDFISH_STR_MAX :: nat where "NUC_REDFISH_STR_MAX = 64"

text \<open>The walk over the string set; Current is an 8-bit counter.\<close>

function string_walk :: "u8 list \<Rightarrow> u8 \<Rightarrow> u8 \<Rightarrow> u8 list option option" where
  "string_walk Walker Index Current =
     (case Walker of
        [] \<Rightarrow> None
      | c # _ \<Rightarrow>
          if c = 0 then Some None
          else if Current = Index then Some (Some Walker)
          else (case AsciiStrLen Walker of
              None \<Rightarrow> None
            | Some n \<Rightarrow> string_walk (drop (n + 1) Walker) Index (Current + 1)))"
  by pat_completeness auto

termination
  by (relation "measure (\<lambda>(w, _, _). length w)") auto

declare string_walk.simps [simp del]

definition SmbiosGetString :: "u8 list option \<Rightarrow> u8 \<Rightarrow> u8 list option option" where
  "SmbiosGetString Header Index =
     (case Header of
        None \<Rightarrow> Some None
      | Some H \<Rightarrow>
          if Index = 0 then Some None
          else do { Length \<leftarrow> byte_at H 1; string_walk (drop (unat Length) H) Index 1 })"

definition CopyInventoryString :: "u8 list \<Rightarrow> nat \<Rightarrow> u8 list option \<Rightarrow> u8 list option" where
  "CopyInventoryString Dest DestSize Source =
     (if DestSize = 0 then Some Dest
      else do {
        Dest \<leftarrow> poke Dest 0 0;
        case Source of
          None \<Rightarrow> Some Dest
        | Some S \<Rightarrow> do {
            Length \<leftarrow> AsciiStrLen S;
            let Length = (if DestSize \<le> Length then DestSize - 1 else Length);
            Dest \<leftarrow> CopyMem Dest S Length;
            poke Dest Length 0
          }
      })"

text \<open>The combination every collector uses: the string a one-byte field of the record refers to.\<close>

definition record_string :: "u8 list \<Rightarrow> u8 list \<Rightarrow> nat \<Rightarrow> u8 list option" where
  "record_string Dest Record fld = do {
     Index \<leftarrow> byte_at Record fld;
     S \<leftarrow> SmbiosGetString (Some Record) Index;
     CopyInventoryString Dest NUC_REDFISH_STR_MAX S
   }"

definition u16_field :: "u8 list \<Rightarrow> nat \<Rightarrow> u16 option" where
  "u16_field r p = do { a \<leftarrow> byte_at r p; b \<leftarrow> byte_at r (p + 1); Some (from_le16 a b) }"

definition u32_field :: "u8 list \<Rightarrow> nat \<Rightarrow> u32 option" where
  "u32_field r p = do {
     a \<leftarrow> byte_at r p; b \<leftarrow> byte_at r (p + 1); c \<leftarrow> byte_at r (p + 2); d \<leftarrow> byte_at r (p + 3);
     Some (from_le32 a b c d)
   }"

section \<open>Host identity\<close>

record host_inventory =
  BiosVersion :: "u8 list"
  inv_Manufacturer :: "u8 list"
  inv_Model :: "u8 list"
  inv_SerialNumber :: "u8 list"
  Uuid :: "u8 list"
  UuidValid :: bool

definition zero_field :: "u8 list" where
  "zero_field = replicate NUC_REDFISH_STR_MAX 0"

definition zero_inventory :: host_inventory where
  "zero_inventory = \<lparr>BiosVersion = zero_field, inv_Manufacturer = zero_field, inv_Model = zero_field,
     inv_SerialNumber = zero_field, Uuid = replicate 37 0, UuidValid = False\<rparr>"

text \<open>What a print leaves in a buffer: the text, its NUL and the old rest.\<close>

definition print_into :: "u8 list \<Rightarrow> u8 list \<Rightarrow> u8 list" where
  "print_into buf t = t @ 0 # drop (length t + 1) buf"

definition uuid_items :: "u8 list \<Rightarrow> print_item list" where
  "uuid_items u = (let h = \<lambda>i. Hex 2 (unat (u ! i)) in
     [h 3, h 2, h 1, h 0, Lit ''-'', h 5, h 4, Lit ''-'', h 7, h 6, Lit ''-'', h 8, h 9, Lit ''-'',
      h 10, h 11, h 12, h 13, h 14, h 15])"

definition RenderSmbiosUuid :: "ascii_lib \<Rightarrow> u8 list \<Rightarrow> u8 list \<Rightarrow> bool \<times> u8 list" where
  "RenderSmbiosUuid L u Text =
     (let OrAll = fold (\<lambda>b a. a OR b) u 0; AndAll = fold (\<lambda>b a. a AND b) u 0xff
      in if OrAll = 0 \<or> AndAll = 0xff then (False, Text)
         else (True, print_into Text (AsciiSPrint L 37 (uuid_items u))))"

definition read_span :: "u8 list \<Rightarrow> nat \<Rightarrow> nat \<Rightarrow> u8 list option" where
  "read_span r p n = (if p + n \<le> length r then Some (take n (drop p r)) else None)"

fun inventory_loop :: "ascii_lib \<Rightarrow> host_inventory \<Rightarrow> u8 list list \<Rightarrow> host_inventory option" where
  "inventory_loop L Inv [] = Some Inv"
| "inventory_loop L Inv (Record # Rs) = do {
     Type \<leftarrow> byte_at Record 0;
     Inv \<leftarrow> (if Type = 0 then do {
         v \<leftarrow> record_string (BiosVersion Inv) Record 5;
         Some (Inv\<lparr>BiosVersion := v\<rparr>)
       }
       else if Type = 1 then do {
         m \<leftarrow> record_string (inv_Manufacturer Inv) Record 4;
         p \<leftarrow> record_string (inv_Model Inv) Record 5;
         s \<leftarrow> record_string (inv_SerialNumber Inv) Record 7;
         u \<leftarrow> read_span Record 8 16;
         let (valid, txt) = RenderSmbiosUuid L u (Uuid Inv);
         Some (Inv\<lparr>inv_Manufacturer := m, inv_Model := p, inv_SerialNumber := s, Uuid := txt, UuidValid := valid\<rparr>)
       }
       else Some Inv);
     inventory_loop L Inv Rs
   }"

definition NucRedfishCollectInventory ::
  "ascii_lib \<Rightarrow> u8 list list option \<Rightarrow> (efi_status \<times> host_inventory) option" where
  "NucRedfishCollectInventory L Smbios =
     (case Smbios of
        None \<Rightarrow> Some (EFI_NOT_FOUND, zero_inventory)
      | Some Rs \<Rightarrow> do { Inv \<leftarrow> inventory_loop L zero_inventory Rs; Some (EFI_SUCCESS, Inv) })"

section \<open>Memory devices\<close>

record memory_module =
  DeviceLocator :: "u8 list"
  BankLocator :: "u8 list"
  mem_Manufacturer :: "u8 list"
  mem_SerialNumber :: "u8 list"
  mem_PartNumber :: "u8 list"
  MemoryDeviceType :: "u8 list option"
  BaseModuleType :: "u8 list option"
  CapacityMiB :: u32
  mem_OperatingSpeedMhz :: u32
  RatedSpeedMhz :: u32
  DataWidthBits :: u16
  BusWidthBits :: u16

fun RedfishMemoryDeviceType :: "u8 \<Rightarrow> u8 list option" where
  "RedfishMemoryDeviceType t =
     (if t = 0x0f then Some (literal ''SDRAM'')
      else if t = 0x12 then Some (literal ''DDR'')
      else if t = 0x13 then Some (literal ''DDR2'')
      else if t = 0x18 then Some (literal ''DDR3'')
      else if t = 0x1a then Some (literal ''DDR4'')
      else if t = 0x1b then Some (literal ''LPDDR_SDRAM'')
      else if t = 0x1c then Some (literal ''LPDDR2_SDRAM'')
      else if t = 0x1d then Some (literal ''LPDDR3_SDRAM'')
      else if t = 0x1e then Some (literal ''LPDDR4_SDRAM'')
      else None)"

fun RedfishBaseModuleType :: "u8 \<Rightarrow> u8 list option" where
  "RedfishBaseModuleType f =
     (if f = 0x0d then Some (literal ''SO_DIMM'')
      else if f = 0x09 then Some (literal ''UDIMM'')
      else if f = 0x0c then Some (literal ''RDIMM'')
      else if f = 0x0f then Some (literal ''LRDIMM'')
      else None)"

declare RedfishMemoryDeviceType.simps [simp del] RedfishBaseModuleType.simps [simp del]

text \<open>Offsets in SMBIOS\_TABLE\_TYPE17: Length 1, Size 0x0c, ExtendedSize 0x1c, ...\<close>

definition RedfishMemoryCapacityMiB :: "u8 list \<Rightarrow> u32 option" where
  "RedfishMemoryCapacityMiB Type17 = do {
     Size \<leftarrow> u16_field Type17 0x0c;
     if Size = 0 \<or> Size = 0xffff then Some 0
     else if Size = 0x7fff then do {
       Length \<leftarrow> byte_at Type17 1;
       if unat Length < 0x1c + 4 then Some 0
       else do { ExtendedSize \<leftarrow> u32_field Type17 0x1c; Some (ExtendedSize AND 0x7fffffff) }
     }
     else if Size AND 0x8000 \<noteq> 0 then Some (ucast (Size AND 0x7fff) div 1024)
     else Some (ucast Size)
   }"

definition zero_module :: memory_module where
  "zero_module = \<lparr>DeviceLocator = zero_field, BankLocator = zero_field, mem_Manufacturer = zero_field,
     mem_SerialNumber = zero_field, mem_PartNumber = zero_field, MemoryDeviceType = None,
     BaseModuleType = None, CapacityMiB = 0, mem_OperatingSpeedMhz = 0, RatedSpeedMhz = 0,
     DataWidthBits = 0, BusWidthBits = 0\<rparr>"

text \<open>The body of the loop for one memory device; the inner None is a skipped socket.\<close>

definition memory_device :: "u8 list \<Rightarrow> memory_module option option" where
  "memory_device Type17 = do {
     Capacity \<leftarrow> RedfishMemoryCapacityMiB Type17;
     if Capacity = 0 then Some None
     else do {
       loc \<leftarrow> record_string (DeviceLocator zero_module) Type17 0x10;
       bank \<leftarrow> record_string (BankLocator zero_module) Type17 0x11;
       man \<leftarrow> record_string (mem_Manufacturer zero_module) Type17 0x17;
       ser \<leftarrow> record_string (mem_SerialNumber zero_module) Type17 0x18;
       part \<leftarrow> record_string (mem_PartNumber zero_module) Type17 0x1a;
       typ \<leftarrow> byte_at Type17 0x12;
       form \<leftarrow> byte_at Type17 0x0e;
       DataWidth \<leftarrow> u16_field Type17 0x0a;
       TotalWidth \<leftarrow> u16_field Type17 0x08;
       Speed \<leftarrow> u16_field Type17 0x15;
       Length \<leftarrow> byte_at Type17 1;
       Configured \<leftarrow> (if 0x20 + 2 \<le> unat Length then u16_field Type17 0x20 else Some 0);
       Some (Some (zero_module\<lparr>CapacityMiB := Capacity, DeviceLocator := loc, BankLocator := bank,
         mem_Manufacturer := man, mem_SerialNumber := ser, mem_PartNumber := part,
         MemoryDeviceType := RedfishMemoryDeviceType typ, BaseModuleType := RedfishBaseModuleType form,
         DataWidthBits := DataWidth, BusWidthBits := TotalWidth, RatedSpeedMhz := ucast Speed,
         mem_OperatingSpeedMhz := (if Configured = 0 then ucast Speed else ucast Configured)\<rparr>))
     }
   }"

fun memory_loop :: "nat \<Rightarrow> memory_module list \<Rightarrow> u8 list list \<Rightarrow> memory_module list option" where
  "memory_loop MaxCount Modules [] = Some Modules"
| "memory_loop MaxCount Modules (Record # Rs) = do {
     Type \<leftarrow> byte_at Record 0;
     if Type \<noteq> 17 then memory_loop MaxCount Modules Rs
     else if MaxCount \<le> length Modules then Some Modules
     else do {
       m \<leftarrow> memory_device Record;
       case m of
         None \<Rightarrow> memory_loop MaxCount Modules Rs
       | Some Module \<Rightarrow> memory_loop MaxCount (Modules @ [Module]) Rs
     }
   }"

text \<open>HaveOut: both output pointers are given.\<close>

definition NucRedfishCollectMemory ::
  "bool \<Rightarrow> nat \<Rightarrow> u8 list list option \<Rightarrow> (efi_status \<times> memory_module list) option" where
  "NucRedfishCollectMemory HaveOut MaxCount Smbios =
     (if \<not> HaveOut \<or> MaxCount = 0 then Some (EFI_INVALID_PARAMETER, [])
      else (case Smbios of
          None \<Rightarrow> Some (EFI_NOT_FOUND, [])
        | Some Rs \<Rightarrow> do { Modules \<leftarrow> memory_loop MaxCount [] Rs; Some (EFI_SUCCESS, Modules) }))"

section \<open>Processors\<close>

record processor =
  Socket :: "u8 list"
  cpu_Manufacturer :: "u8 list"
  cpu_Model :: "u8 list"
  cpu_SerialNumber :: "u8 list"
  cpu_PartNumber :: "u8 list"
  IdRegisters :: "u8 list"
  ProcessorType :: "u8 list option"
  MaxSpeedMhz :: u32
  cpu_OperatingSpeedMhz :: u32
  TotalCores :: u32
  TotalEnabledCores :: u32
  TotalThreads :: u32
  Enabled :: bool

fun RedfishProcessorType :: "u8 \<Rightarrow> u8 list option" where
  "RedfishProcessorType t =
     (if t = 3 then Some (literal ''CPU'')
      else if t = 5 then Some (literal ''DSP'')
      else if t = 6 then Some (literal ''GPU'')
      else None)"

declare RedfishProcessorType.simps [simp del]

definition ProcessorCount :: "u8 \<Rightarrow> u16 \<Rightarrow> bool \<Rightarrow> u32" where
  "ProcessorCount Narrow Wide WideValid = (if Narrow = 0xff \<and> WideValid then ucast Wide else ucast Narrow)"

definition zero_processor :: processor where
  "zero_processor = \<lparr>Socket = zero_field, cpu_Manufacturer = zero_field, cpu_Model = zero_field,
     cpu_SerialNumber = zero_field, cpu_PartNumber = zero_field, IdRegisters = replicate 19 0,
     ProcessorType = None, MaxSpeedMhz = 0, cpu_OperatingSpeedMhz = 0, TotalCores = 0,
     TotalEnabledCores = 0, TotalThreads = 0, Enabled = False\<rparr>"

text \<open>The 64-bit identification registers, printed when any bit is set.\<close>

definition id_registers :: "ascii_lib \<Rightarrow> u8 list \<Rightarrow> u8 list option" where
  "id_registers L Type4 = do {
     lo \<leftarrow> u32_field Type4 8;
     hi \<leftarrow> u32_field Type4 12;
     let IdRegs = (ucast lo OR push_bit 32 (ucast hi) :: u64);
     Some (if IdRegs = 0 then IdRegisters zero_processor
           else print_into (IdRegisters zero_processor)
             (AsciiSPrint L 19 [Lit ''0x'', Hex 16 (unat IdRegs)]))
   }"

text \<open>Serial and part number, absent on a record that is too short for them.\<close>

definition processor_serials :: "u8 list \<Rightarrow> (u8 list \<times> u8 list) option" where
  "processor_serials Type4 = do {
     Length \<leftarrow> byte_at Type4 1;
     if unat Length < 0x22 + 1 then Some (zero_field, zero_field)
     else do {
       ser \<leftarrow> record_string zero_field Type4 0x20;
       part \<leftarrow> record_string zero_field Type4 0x22;
       Some (ser, part)
     }
   }"

text \<open>A count resolved over the two widths; the call reads both fields, whichever it uses.\<close>

definition resolved_count :: "u8 list \<Rightarrow> nat \<Rightarrow> nat \<Rightarrow> bool \<Rightarrow> u32 option" where
  "resolved_count Type4 narrow wide WideValid = do {
     n \<leftarrow> byte_at Type4 narrow;
     w \<leftarrow> u16_field Type4 wide;
     Some (ProcessorCount n w WideValid)
   }"

definition processor_counts :: "u8 list \<Rightarrow> (u32 \<times> u32 \<times> u32) option" where
  "processor_counts Type4 = do {
     Length \<leftarrow> byte_at Type4 1;
     let HasCounts = (0x25 + 1 \<le> unat Length);
     let HasWideCounts = (0x2e + 2 \<le> unat Length);
     if \<not> HasCounts then Some (0, 0, 0)
     else do {
       cores \<leftarrow> resolved_count Type4 0x23 0x2a HasWideCounts;
       enabled \<leftarrow> resolved_count Type4 0x24 0x2c HasWideCounts;
       threads \<leftarrow> resolved_count Type4 0x25 0x2e HasWideCounts;
       Some (cores, enabled, threads)
     }
   }"

definition processor_socket :: "ascii_lib \<Rightarrow> u8 list \<Rightarrow> processor option option" where
  "processor_socket L Type4 = do {
     Status \<leftarrow> byte_at Type4 0x18;
     if Status AND 0x40 = 0 then Some None
     else do {
       sock \<leftarrow> record_string (Socket zero_processor) Type4 4;
       man \<leftarrow> record_string (cpu_Manufacturer zero_processor) Type4 7;
       model \<leftarrow> record_string (cpu_Model zero_processor) Type4 0x10;
       typ \<leftarrow> byte_at Type4 5;
       MaxSpeed \<leftarrow> u16_field Type4 0x14;
       CurrentSpeed \<leftarrow> u16_field Type4 0x16;
       regs \<leftarrow> id_registers L Type4;
       (ser, part) \<leftarrow> processor_serials Type4;
       (cores, enabled, threads) \<leftarrow> processor_counts Type4;
       Some (Some (zero_processor\<lparr>Enabled := (Status AND 0x07 = 1), Socket := sock, cpu_Manufacturer := man,
         cpu_Model := model, ProcessorType := RedfishProcessorType typ, MaxSpeedMhz := ucast MaxSpeed,
         cpu_OperatingSpeedMhz := ucast CurrentSpeed, IdRegisters := regs, cpu_SerialNumber := ser,
         cpu_PartNumber := part, TotalCores := cores, TotalEnabledCores := enabled, TotalThreads := threads\<rparr>))
     }
   }"

fun processor_loop :: "ascii_lib \<Rightarrow> nat \<Rightarrow> processor list \<Rightarrow> u8 list list \<Rightarrow> processor list option" where
  "processor_loop L MaxCount Processors [] = Some Processors"
| "processor_loop L MaxCount Processors (Record # Rs) = do {
     Type \<leftarrow> byte_at Record 0;
     if Type \<noteq> 4 then processor_loop L MaxCount Processors Rs
     else if MaxCount \<le> length Processors then Some Processors
     else do {
       p \<leftarrow> processor_socket L Record;
       case p of
         None \<Rightarrow> processor_loop L MaxCount Processors Rs
       | Some Processor \<Rightarrow> processor_loop L MaxCount (Processors @ [Processor]) Rs
     }
   }"

definition NucRedfishCollectProcessors ::
  "ascii_lib \<Rightarrow> bool \<Rightarrow> nat \<Rightarrow> u8 list list option \<Rightarrow> (efi_status \<times> processor list) option" where
  "NucRedfishCollectProcessors L HaveOut MaxCount Smbios =
     (if \<not> HaveOut \<or> MaxCount = 0 then Some (EFI_INVALID_PARAMETER, [])
      else (case Smbios of
          None \<Rightarrow> Some (EFI_NOT_FOUND, [])
        | Some Rs \<Rightarrow> do { Ps \<leftarrow> processor_loop L MaxCount [] Rs; Some (EFI_SUCCESS, Ps) }))"

section \<open>Text copied into a field\<close>

lemma CopyInventoryString_text:
  assumes "length Dest = n" "0 < n" "\<And>s. Source = Some s \<Longrightarrow> terminated s"
  shows "\<exists>b. CopyInventoryString Dest n Source = Some b \<and> length b = n \<and> terminated b \<and>
    cstr b = take (n - 1) (case Source of None \<Rightarrow> [] | Some s \<Rightarrow> cstr s)"
proof (cases Source)
  case None
  then show ?thesis
    using assms by (cases Dest) (auto simp: CopyInventoryString_def poke_def terminated_def cstr_def)
next
  case (Some s)
  define k where "k = (if n \<le> length (cstr s) then n - 1 else length (cstr s))"
  have s: "terminated s" "AsciiStrLen s = Some (length (cstr s))"
    using assms(3) [OF Some] AsciiStrLen_terminated by auto
  have k: "k < n" "k \<le> length (cstr s)" "k \<le> length s"
    using assms(2) length_cstr [OF s(1)] by (auto simp: k_def)
  have "0 \<notin> set (take k (cstr s))"
    using cstr_no_nul by (auto dest: in_set_takeD)
  moreover have "(take k s @ drop k (Dest[0 := 0]))[k := 0] = take k (cstr s) @ 0 # drop (Suc k) (Dest[0 := 0])"
    using k assms(1) by (simp add: list_update_append take_cstr min_def Cons_nth_drop_Suc [symmetric])
  moreover have "take k (cstr s) = take (n - 1) (cstr s)"
    using assms(2) by (simp add: k_def)
  moreover have "min (length (cstr s)) (n - Suc 0) = k"
    using assms(2) by (auto simp: k_def)
  ultimately show ?thesis
    using Some s(2) k assms(1,2) by (simp add: CopyInventoryString_def poke_def CopyMem_def Let_def flip: k_def)
qed

section \<open>Structures and their string sets\<close>

definition string_set :: "u8 list list \<Rightarrow> u8 list" where
  "string_set strs = concat (map (\<lambda>s. s @ [0]) strs) @ [0]"

lemma string_set_simps [simp]:
  "string_set [] = [0]"
  "string_set (s # strs) = s @ 0 # string_set strs"
  by (simp_all add: string_set_def)

lemma string_walk_set:
  assumes "\<forall>s \<in> set strs. s \<noteq> [] \<and> 0 \<notin> set s" "Current \<le> Index"
  shows "string_walk (string_set strs @ rest) Index Current =
    Some (if unat Index - unat Current < length strs
          then Some (string_set (drop (unat Index - unat Current) strs) @ rest) else None)"
  using assms
proof (induction strs arbitrary: Current)
  case Nil
  then show ?case by (simp add: string_walk.simps [of "0 # rest"])
next
  case (Cons s strs)
  obtain c cs where s: "s = c # cs" "c \<noteq> 0" "0 \<notin> set s"
    using Cons.prems(1) by (cases s) auto
  show ?case
  proof (cases "Current = Index")
    case True
    with s show ?thesis
      by (simp add: string_walk.simps [of "c # cs @ 0 # string_set strs @ rest"])
  next
    case False
    then have lt: "unat Current < unat Index"
      using Cons.prems(2) by (simp add: order_le_less word_less_nat_alt)
    then have suc: "unat (Current + 1) = Suc (unat Current)"
      using unsigned_less [of Index, where ?'a = nat] by (simp add: unat_word_ariths)
    have len: "AsciiStrLen (s @ 0 # string_set strs @ rest) = Some (length s)"
      using s(3) by (rule AsciiStrLen_nul)
    have "string_walk (string_set (s # strs) @ rest) Index Current =
        string_walk (string_set strs @ rest) Index (Current + 1)"
      using s(1,2) False len by (simp add: string_walk.simps [of "c # cs @ 0 # string_set strs @ rest"])
    also have "\<dots> = Some (if unat Index - unat (Current + 1) < length strs
        then Some (string_set (drop (unat Index - unat (Current + 1)) strs) @ rest) else None)"
      using Cons.prems(1) lt suc by (intro Cons.IH) (auto simp: word_le_nat_alt)
    moreover have "unat Index - unat Current = Suc (unat Index - unat (Current + 1))"
      using lt suc by simp
    ultimately show ?thesis
      by simp
  qed
qed

record smbios_struct =
  st_formatted :: "u8 list"
  st_strings :: "u8 list list"

definition encode_struct :: "smbios_struct \<Rightarrow> u8 list" where
  "encode_struct st = st_formatted st @ string_set (st_strings st)"

definition struct_ok :: "smbios_struct \<Rightarrow> bool" where
  "struct_ok st \<longleftrightarrow> 4 \<le> length (st_formatted st) \<and> length (st_formatted st) < 256 \<and>
     st_formatted st ! 1 = of_nat (length (st_formatted st)) \<and>
     (\<forall>s \<in> set (st_strings st). s \<noteq> [] \<and> 0 \<notin> set s) \<and>
     (st_formatted st ! 0 = 0 \<longrightarrow> 6 \<le> length (st_formatted st)) \<and>
     (st_formatted st ! 0 = 1 \<longrightarrow> 0x18 \<le> length (st_formatted st)) \<and>
     (st_formatted st ! 0 = 17 \<longrightarrow> 0x1b \<le> length (st_formatted st)) \<and>
     (st_formatted st ! 0 = 4 \<longrightarrow> 0x1a \<le> length (st_formatted st) \<and>
        (0x26 \<le> length (st_formatted st) \<longrightarrow> 0x30 \<le> length (encode_struct st)))"

text \<open>The string a field refers to: numbers are 1-based, 0 and numbers beyond the set mean none.\<close>

definition st_string :: "smbios_struct \<Rightarrow> nat \<Rightarrow> u8 list" where
  "st_string st fld = (let i = unat (st_formatted st ! fld) in
     if i = 0 \<or> length (st_strings st) < i then [] else st_strings st ! (i - 1))"

lemma encode_byte [simp]:
  "i < length (st_formatted st) \<Longrightarrow> byte_at (encode_struct st) i = Some (st_formatted st ! i)"
  by (simp add: byte_at_def encode_struct_def nth_append)

lemma encode_length_byte:
  assumes "struct_ok st"
  shows "byte_at (encode_struct st) 1 = Some (of_nat (length (st_formatted st)))"
    "unat (of_nat (length (st_formatted st)) :: u8) = length (st_formatted st)"
  using assms by (auto simp: struct_ok_def unat_of_nat)

lemma get_string:
  assumes "struct_ok st"
  shows "\<exists>r. SmbiosGetString (Some (encode_struct st)) i = Some r \<and>
    (if i = 0 \<or> length (st_strings st) < unat i then r = None
     else \<exists>s. r = Some s \<and> terminated s \<and> cstr s = st_strings st ! (unat i - 1))"
proof (cases "i = 0")
  case True
  then show ?thesis by (simp add: SmbiosGetString_def)
next
  case False
  have strs: "\<forall>s \<in> set (st_strings st). s \<noteq> [] \<and> 0 \<notin> set s"
    using assms by (simp add: struct_ok_def)
  have drop: "drop (length (st_formatted st)) (encode_struct st) = string_set (st_strings st)"
    by (simp add: encode_struct_def)
  have i: "0 < unat i"
    using False by (simp add: unat_gt_0)
  then have "1 \<le> i"
    by (simp add: word_le_nat_alt Suc_le_eq)
  then have walk: "SmbiosGetString (Some (encode_struct st)) i =
      Some (if unat i - 1 < length (st_strings st) then Some (string_set (drop (unat i - 1) (st_strings st))) else None)"
    using string_walk_set [OF strs, of 1 i "[]"] encode_length_byte [OF assms] False
    by (simp add: SmbiosGetString_def drop)
  show ?thesis
  proof (cases "unat i - 1 < length (st_strings st)")
    case True
    then have "string_set (drop (unat i - 1) (st_strings st)) =
        st_strings st ! (unat i - 1) @ 0 # string_set (drop (unat i) (st_strings st))"
      using i by (simp add: Cons_nth_drop_Suc [symmetric])
    moreover have "0 \<notin> set (st_strings st ! (unat i - 1))"
      using strs True by auto
    ultimately show ?thesis
      using walk True i False by auto
  qed (use walk i False in auto)
qed

lemma record_string_text:
  assumes "struct_ok st" "fld < length (st_formatted st)" "length Dest = 64"
  shows "\<exists>b. record_string Dest (encode_struct st) fld = Some b \<and> length b = 64 \<and> terminated b \<and>
    cstr b = take 63 (st_string st fld)"
proof -
  obtain S where S: "SmbiosGetString (Some (encode_struct st)) (st_formatted st ! fld) = Some S"
    "\<And>s. S = Some s \<Longrightarrow> terminated s" "(case S of None \<Rightarrow> [] | Some s \<Rightarrow> cstr s) = st_string st fld"
    using get_string [OF assms(1), of "st_formatted st ! fld"]
    by (auto simp: st_string_def Let_def unat_eq_0 split: if_splits)
  show ?thesis
    using CopyInventoryString_text [of Dest 64 S] S assms(2,3)
    by (simp add: record_string_def NUC_REDFISH_STR_MAX_def)
qed

text \<open>
  C27: strings survive the structure.  In a well-formed structure SmbiosGetString finds the string of every
  number of its string set, as a terminated text, and answers NULL for the number 0 and for every number beyond the set;
  no read leaves the structure.
\<close>

theorem smbios_string_roundtrip:
  assumes "struct_ok st"
  shows "\<exists>r. SmbiosGetString (Some (encode_struct st)) i = Some r \<and>
    (if i = 0 \<or> length (st_strings st) < unat i then r = None
     else \<exists>s. r = Some s \<and> 0 \<in> set s \<and> cstr s = st_strings st ! (unat i - 1))"
  using get_string [OF assms, of i] by (auto simp: terminated_def)

definition demo_dimm :: smbios_struct where
  "demo_dimm = \<lparr>st_formatted = [17, 0x22, 0x11, 0, 0, 0, 0xfe, 0xff, 64, 0, 64, 0, 0, 0x10, 0x0d, 0, 1, 2, 0x18,
       0, 0, 0x40, 0x06, 3, 0, 0, 4, 2, 0, 0, 0, 0, 0x40, 0x06],
     st_strings = [ascii ''A'', ascii ''B'', ascii ''Kingston'', ascii ''KVR'']\<rparr>"

lemma demo_dimm_ok: "struct_ok demo_dimm"
  by (simp add: struct_ok_def demo_dimm_def ascii_def)

theorem smbios_string_roundtrip_witness:
  "(\<exists>s. SmbiosGetString (Some (encode_struct demo_dimm)) 3 = Some (Some s) \<and> cstr s = ascii ''Kingston'') \<and>
   SmbiosGetString (Some (encode_struct demo_dimm)) 5 = Some None"
  using smbios_string_roundtrip [OF demo_dimm_ok, of 3] smbios_string_roundtrip [OF demo_dimm_ok, of 5]
  by (auto simp: demo_dimm_def)

section \<open>Bounded collection\<close>

text \<open>
  The contract the collectors share.  The loop skips records of other kinds, stops at the first
  record of its kind that finds the output full, and otherwise appends what the record decodes to,
  if it decodes to anything.
\<close>

locale bounded_collector =
  fixes loop :: "nat \<Rightarrow> 'a list \<Rightarrow> 'r list \<Rightarrow> 'a list option"
    and wanted :: "'r \<Rightarrow> bool option"
    and decode :: "'r \<Rightarrow> 'a option option"
  assumes loop_Nil: "loop n acc [] = Some acc"
    and loop_Cons: "loop n acc (r # rs) = do {
          w \<leftarrow> wanted r;
          if \<not> w then loop n acc rs
          else if n \<le> length acc then Some acc
          else do { d \<leftarrow> decode r; loop n (acc @ (case d of None \<Rightarrow> [] | Some a \<Rightarrow> [a])) rs }
        }"
begin

lemma loop_bound: "loop n acc rs = Some out \<Longrightarrow> length acc \<le> n \<Longrightarrow> length out \<le> n"
proof (induction rs arbitrary: acc)
  case (Cons r rs)
  then show ?case
    by (auto simp: loop_Cons bind_eq_Some_conv split: if_splits option.splits)
qed (simp add: loop_Nil)

text \<open>
  Where every read succeeds, the output describes, in order, the first records that are wanted and
  decode to something.
\<close>

lemma loop_describes:
  assumes "\<And>x. x \<in> set xs \<Longrightarrow> wanted (enc x) = Some (P x)"
    and "\<And>x. x \<in> set xs \<Longrightarrow> P x \<Longrightarrow> \<exists>a. decode (enc x) = Some (if Q x then Some a else None) \<and> (Q x \<longrightarrow> D x a)"
    and "length acc \<le> n"
  shows "\<exists>out. loop n acc (map enc xs) = Some (acc @ out) \<and>
    list_all2 D (take (n - length acc) (filter (\<lambda>x. P x \<and> Q x) xs)) out"
  using assms
proof (induction xs arbitrary: acc)
  case (Cons x xs)
  show ?case
  proof (cases "P x \<and> length acc < n")
    case True
    then obtain a where a: "decode (enc x) = Some (if Q x then Some a else None)" "Q x \<longrightarrow> D x a"
      using Cons.prems(2) [of x] by auto
    let ?new = "if Q x then [a] else []"
    have "loop n acc (map enc (x # xs)) = loop n (acc @ ?new) (map enc xs)"
      using True a(1) Cons.prems(1) by (simp add: loop_Cons)
    moreover have "length (acc @ ?new) \<le> n"
      using True by auto
    then obtain out where "loop n (acc @ ?new) (map enc xs) = Some ((acc @ ?new) @ out)"
      "list_all2 D (take (n - length (acc @ ?new)) (filter (\<lambda>x. P x \<and> Q x) xs)) out"
      using Cons.IH [of "acc @ ?new", OF Cons.prems(1,2)] by auto
    ultimately show ?thesis
      using True a(2) by (cases "n - length acc") (auto simp: diff_Suc split: nat.splits intro!: exI [of _ "?new @ out"])
  next
    case False
    then have "loop n acc (map enc (x # xs)) = (if P x then Some acc else loop n acc (map enc xs))"
      using Cons.prems(1) by (auto simp: loop_Cons not_less)
    with False Cons show ?thesis
      by (cases "P x") (auto simp: not_less)
  qed
qed (simp add: loop_Nil)

end

definition record_type_is :: "u8 \<Rightarrow> u8 list \<Rightarrow> bool option" where
  "record_type_is ty r = map_option (\<lambda>t. t = ty) (byte_at r 0)"

lemma record_type_encode:
  assumes "struct_ok st"
  shows "record_type_is ty (encode_struct st) = Some (st_formatted st ! 0 = ty)"
proof -
  have "4 \<le> length (st_formatted st)"
    using assms unfolding struct_ok_def by (rule conjunct1)
  then have "byte_at (encode_struct st) 0 = Some (st_formatted st ! 0)"
    by (intro encode_byte) linarith
  then show ?thesis
    by (simp add: record_type_is_def)
qed

interpretation mem: bounded_collector memory_loop "record_type_is 17" memory_device
  by unfold_locales
    (auto simp: record_type_is_def map_option_case split: option.splits intro!: Option.bind_cong)

interpretation cpu: bounded_collector "processor_loop L" "record_type_is 4" "processor_socket L" for L
  by unfold_locales
    (auto simp: record_type_is_def map_option_case split: option.splits intro!: Option.bind_cong)

section \<open>What is reported of a memory device\<close>

definition st_u16 :: "smbios_struct \<Rightarrow> nat \<Rightarrow> u16" where
  "st_u16 st p = from_le16 (st_formatted st ! p) (st_formatted st ! (p + 1))"

definition st_u32 :: "smbios_struct \<Rightarrow> nat \<Rightarrow> u32" where
  "st_u32 st p = from_le32 (st_formatted st ! p) (st_formatted st ! (p + 1))
     (st_formatted st ! (p + 2)) (st_formatted st ! (p + 3))"

lemma encode_u16 [simp]:
  "p + 1 < length (st_formatted st) \<Longrightarrow> u16_field (encode_struct st) p = Some (st_u16 st p)"
  by (simp add: u16_field_def st_u16_def)

lemma encode_u32 [simp]:
  "p + 3 < length (st_formatted st) \<Longrightarrow> u32_field (encode_struct st) p = Some (st_u32 st p)"
  by (simp add: u32_field_def st_u32_def)

text \<open>The capacity in MiB as the SMBIOS specification encodes it; 0 for an empty or unknown socket.\<close>

definition dimm_mib :: "smbios_struct \<Rightarrow> nat" where
  "dimm_mib st = (let Size = unat (st_u16 st 12) in
     if Size = 0 \<or> Size = 65535 then 0
     else if Size = 32767 then (if length (st_formatted st) < 32 then 0 else unat (st_u32 st 28) mod 2 ^ 31)
     else if 32768 \<le> Size then (Size - 32768) div 1024
     else Size)"

lemma bit15_iff: "(w :: u16) AND 0x8000 \<noteq> 0 \<longleftrightarrow> 32768 \<le> unat w"
proof -
  have "w AND 0x8000 \<noteq> 0 \<longleftrightarrow> bit w 15"
    using and_exp_eq_0_iff_not_bit [of w 15] by simp
  also have "\<dots> \<longleftrightarrow> bit (unat w) 15"
    by (simp add: bit_unsigned_iff)
  also have "\<dots> \<longleftrightarrow> odd (unat w div 2 ^ 15)"
    by (rule bit_iff_odd)
  also have "\<dots> \<longleftrightarrow> 32768 \<le> unat w"
  proof -
    have "unat w div 2 ^ 15 < 2"
      using unsigned_less [of w, where ?'a = nat] by (simp add: div_less_iff_less_mult)
    then have "unat w div 2 ^ 15 = 0 \<or> unat w div 2 ^ 15 = 1"
      by linarith
    then show ?thesis
      by (auto simp: div_eq_0_iff)
  qed
  finally show ?thesis .
qed

lemma unat_and_mask: "unat ((w :: u16) AND 0x7fff) = unat w mod 32768"
  "unat ((v :: u32) AND 0x7fffffff) = unat v mod 2147483648"
proof -
  have "w AND 0x7fff = take_bit 15 w" "v AND 0x7fffffff = take_bit 31 v"
    by (simp_all add: take_bit_eq_mask mask_eq_exp_minus_1)
  then show "unat (w AND 0x7fff) = unat w mod 32768" "unat (v AND 0x7fffffff) = unat v mod 2147483648"
    by (simp_all add: take_bit_eq_mod unat_mod_distrib)
qed

lemma capacity_mib:
  assumes "struct_ok st" "st_formatted st ! 0 = 17"
  shows "\<exists>c. RedfishMemoryCapacityMiB (encode_struct st) = Some c \<and> unat c = dimm_mib st"
proof -
  let ?S = "st_u16 st 12"
  have len: "27 \<le> length (st_formatted st)"
    using assms by (simp add: struct_ok_def)
  have eqs: "?S = 0 \<longleftrightarrow> unat ?S = 0" "?S = 0xffff \<longleftrightarrow> unat ?S = 65535" "?S = 0x7fff \<longleftrightarrow> unat ?S = 32767"
    by (simp_all add: word_unat_eq_iff)
  have "unat ?S - 32768 = unat ?S mod 32768" if "32768 \<le> unat ?S"
    using that unsigned_less [of ?S, where ?'a = nat] by (simp add: mod_if)
  then show ?thesis
    using len encode_length_byte [OF assms(1)]
    by (auto simp: RedfishMemoryCapacityMiB_def dimm_mib_def Let_def bit15_iff unat_and_mask eqs
        unat_div_distrib)
qed

definition describes_dimm :: "smbios_struct \<Rightarrow> memory_module \<Rightarrow> bool" where
  "describes_dimm st m \<longleftrightarrow>
     unat (CapacityMiB m) = dimm_mib st \<and>
     cstr (DeviceLocator m) = take 63 (st_string st 0x10) \<and> cstr (BankLocator m) = take 63 (st_string st 0x11) \<and>
     cstr (mem_Manufacturer m) = take 63 (st_string st 0x17) \<and>
     cstr (mem_SerialNumber m) = take 63 (st_string st 0x18) \<and>
     cstr (mem_PartNumber m) = take 63 (st_string st 0x1a) \<and>
     MemoryDeviceType m = RedfishMemoryDeviceType (st_formatted st ! 0x12) \<and>
     BaseModuleType m = RedfishBaseModuleType (st_formatted st ! 0x0e) \<and>
     DataWidthBits m = st_u16 st 0x0a \<and> BusWidthBits m = st_u16 st 0x08 \<and>
     unat (RatedSpeedMhz m) = unat (st_u16 st 0x15) \<and>
     unat (mem_OperatingSpeedMhz m) =
       unat (if 0x22 \<le> length (st_formatted st) \<and> st_u16 st 0x20 \<noteq> 0 then st_u16 st 0x20 else st_u16 st 0x15)"

definition module_ok :: "memory_module \<Rightarrow> bool" where
  "module_ok m \<longleftrightarrow> (\<forall>f \<in> {DeviceLocator m, BankLocator m, mem_Manufacturer m, mem_SerialNumber m, mem_PartNumber m}.
     length f = 64 \<and> terminated f)"

lemma memory_device_spec:
  assumes "struct_ok st" "st_formatted st ! 0 = 17"
  shows "\<exists>m. memory_device (encode_struct st) = Some (if 0 < dimm_mib st then Some m else None) \<and>
    (0 < dimm_mib st \<longrightarrow> describes_dimm st m \<and> module_ok m)"
proof -
  have len: "27 \<le> length (st_formatted st)"
    using assms by (simp add: struct_ok_def)
  obtain c where c: "RedfishMemoryCapacityMiB (encode_struct st) = Some c" "unat c = dimm_mib st"
    using capacity_mib [OF assms] by blast
  have fields: "\<exists>b. record_string zero_field (encode_struct st) i = Some b \<and> length b = 64 \<and> terminated b \<and>
      cstr b = take 63 (st_string st i)" if "i < 27" for i
    using record_string_text [OF assms(1), of i zero_field] that len
    by (simp add: zero_field_def NUC_REDFISH_STR_MAX_def)
  obtain l b m s p where f:
    "record_string zero_field (encode_struct st) 0x10 = Some l" "length l = 64 \<and> terminated l" "cstr l = take 63 (st_string st 0x10)"
    "record_string zero_field (encode_struct st) 0x11 = Some b" "length b = 64 \<and> terminated b" "cstr b = take 63 (st_string st 0x11)"
    "record_string zero_field (encode_struct st) 0x17 = Some m" "length m = 64 \<and> terminated m" "cstr m = take 63 (st_string st 0x17)"
    "record_string zero_field (encode_struct st) 0x18 = Some s" "length s = 64 \<and> terminated s" "cstr s = take 63 (st_string st 0x18)"
    "record_string zero_field (encode_struct st) 0x1a = Some p" "length p = 64 \<and> terminated p" "cstr p = take 63 (st_string st 0x1a)"
    using fields [of 16] fields [of 17] fields [of 23] fields [of 24] fields [of 26] by auto
  show ?thesis
  proof (cases "c = 0")
    case True
    with c show ?thesis by (auto simp: memory_device_def)
  next
    case False
    then have "0 < dimm_mib st"
      using c(2) by (simp add: unat_gt_0 flip: c(2))
    moreover obtain conf where conf:
      "(if 0x22 \<le> length (st_formatted st) then u16_field (encode_struct st) 0x20 else Some 0) = Some conf"
      "conf = (if 0x22 \<le> length (st_formatted st) then st_u16 st 0x20 else 0)"
      by simp
    ultimately show ?thesis
      using False c f len encode_length_byte [OF assms(1)]
      by (simp add: memory_device_def zero_module_def describes_dimm_def module_ok_def)
  qed
qed

lemma collect_memory_modules:
  assumes "\<forall>st \<in> set sts. struct_ok st" "0 < n"
  shows "\<exists>Modules. NucRedfishCollectMemory True n (Some (map encode_struct sts)) = Some (EFI_SUCCESS, Modules) \<and>
    list_all2 (\<lambda>st m. describes_dimm st m \<and> module_ok m)
      (take n (filter (\<lambda>st. st_formatted st ! 0 = 17 \<and> 0 < dimm_mib st) sts)) Modules"
proof -
  have "record_type_is 17 (encode_struct st) = Some (st_formatted st ! 0 = 17)" if "st \<in> set sts" for st
    using assms(1) that by (simp add: record_type_encode)
  then obtain Modules where "memory_loop n [] (map encode_struct sts) = Some ([] @ Modules)"
    "list_all2 (\<lambda>st m. describes_dimm st m \<and> module_ok m)
       (take (n - length ([] :: memory_module list)) (filter (\<lambda>st. st_formatted st ! 0 = 17 \<and> 0 < dimm_mib st) sts)) Modules"
    using mem.loop_describes [of sts encode_struct "\<lambda>st. st_formatted st ! 0 = 17" "\<lambda>st. 0 < dimm_mib st"
        "\<lambda>st m. describes_dimm st m \<and> module_ok m" "[]" n] memory_device_spec assms(1) by auto
  then show ?thesis
    using assms(2) by (auto simp: NucRedfishCollectMemory_def)
qed

text \<open>
  C29: the memory report is exactly the populated DIMMs.  From a well-formed SMBIOS table, the
  collector succeeds with one module per type 17 structure of known non-zero capacity, in table
  order and at most as many as fit, each carrying that structure's capacity, strings, widths and
  speeds (the configured speed where the structure has one, the rated speed otherwise).
\<close>

theorem collect_memory_spec:
  assumes "\<forall>st \<in> set sts. struct_ok st" "0 < n"
  shows "\<exists>Modules. NucRedfishCollectMemory True n (Some (map encode_struct sts)) = Some (EFI_SUCCESS, Modules) \<and>
    list_all2 describes_dimm
      (take n (filter (\<lambda>st. st_formatted st ! 0 = 17 \<and> 0 < dimm_mib st) sts)) Modules"
  using collect_memory_modules [OF assms] by (auto elim: list_all2_mono)

theorem collect_memory_spec_witness:
  "\<exists>m. NucRedfishCollectMemory True 8 (Some (map encode_struct [demo_dimm])) = Some (EFI_SUCCESS, [m]) \<and>
     unat (CapacityMiB m) = 4096"
proof -
  have d: "st_formatted demo_dimm ! 0 = 17" "dimm_mib demo_dimm = 4096"
    by (simp_all add: demo_dimm_def dimm_mib_def st_u16_def from_le16_def)
  have "\<exists>Modules. NucRedfishCollectMemory True 8 (Some (map encode_struct [demo_dimm])) = Some (EFI_SUCCESS, Modules) \<and>
      list_all2 describes_dimm [demo_dimm] Modules"
    using collect_memory_spec [of "[demo_dimm]" 8] demo_dimm_ok d by simp
  then show ?thesis
    using d(2) by (auto simp: list_all2_Cons1 describes_dimm_def)
qed

section \<open>What is reported of a processor\<close>

lemma unat_join: "unat (ucast (lo :: u32) OR push_bit 32 (ucast hi) :: u64) = unat lo + 2 ^ 32 * unat (hi :: u32)"
proof -
  let ?l = "ucast lo :: u64" and ?h = "push_bit 32 (ucast hi) :: u64"
  have lo: "unat ?l = unat lo" "unat (ucast hi :: u64) = unat hi" "unat lo < 2 ^ 32" "unat hi < 2 ^ 32"
    using unsigned_less [of lo, where ?'a = nat] unsigned_less [of hi, where ?'a = nat]
    by (simp_all add: unsigned_ucast_eq take_bit_nat_eq_self)
  have "unat ?h = take_bit 64 (push_bit 32 (unat hi))"
    by (simp add: unsigned_push_bit_eq lo(2))
  also have "\<dots> = 2 ^ 32 * unat hi"
    using lo(4) by (simp add: push_bit_eq_mult take_bit_eq_mod)
  finally have hi: "unat ?h = 2 ^ 32 * unat hi" .
  have "?l + ?h = ?l OR ?h"
    by (rule disjunctive_add) (auto simp: bit_simps dest: bit_imp_le_length)
  then have "unat (?l OR ?h) = unat (?l + ?h)" by simp
  also have "\<dots> = unat ?l + unat ?h"
    using lo hi by (intro unat_add_lem [THEN iffD1]) simp
  finally show ?thesis
    using lo hi by simp
qed

definition cpu_count :: "smbios_struct \<Rightarrow> nat \<Rightarrow> nat \<Rightarrow> nat" where
  "cpu_count st narrow wide =
     (if length (st_formatted st) < 0x26 then 0
      else if st_formatted st ! narrow = 0xff \<and> 0x30 \<le> length (st_formatted st) then unat (st_u16 st wide)
      else unat (st_formatted st ! narrow))"

definition describes_cpu :: "smbios_struct \<Rightarrow> processor \<Rightarrow> bool" where
  "describes_cpu st p \<longleftrightarrow>
     Enabled p = (st_formatted st ! 0x18 AND 7 = 1) \<and>
     cstr (Socket p) = take 63 (st_string st 4) \<and> cstr (cpu_Manufacturer p) = take 63 (st_string st 7) \<and>
     cstr (cpu_Model p) = take 63 (st_string st 0x10) \<and>
     cstr (cpu_SerialNumber p) = (if length (st_formatted st) < 0x23 then [] else take 63 (st_string st 0x20)) \<and>
     cstr (cpu_PartNumber p) = (if length (st_formatted st) < 0x23 then [] else take 63 (st_string st 0x22)) \<and>
     ProcessorType p = RedfishProcessorType (st_formatted st ! 5) \<and>
     unat (MaxSpeedMhz p) = unat (st_u16 st 0x14) \<and> unat (cpu_OperatingSpeedMhz p) = unat (st_u16 st 0x16) \<and>
     cstr (IdRegisters p) = (if st_u32 st 8 = 0 \<and> st_u32 st 12 = 0 then []
       else ascii ''0x'' @ hex_text 8 (unat (st_u32 st 12)) @ hex_text 8 (unat (st_u32 st 8))) \<and>
     unat (TotalCores p) = cpu_count st 0x23 0x2a \<and> unat (TotalEnabledCores p) = cpu_count st 0x24 0x2c \<and>
     unat (TotalThreads p) = cpu_count st 0x25 0x2e"

lemma cstr_print_into [simp]: "0 \<notin> set t \<Longrightarrow> cstr (print_into buf t) = t"
  by (simp add: print_into_def)

lemma cstr_zero_field [simp]: "cstr zero_field = []" "cstr (replicate n 0) = []"
  by (simp_all add: cstr_def zero_field_def NUC_REDFISH_STR_MAX_def)

lemma id_registers_text:
  assumes "ascii_lib_ok L" "0x1a \<le> length (st_formatted st)"
  shows "\<exists>b. id_registers L (encode_struct st) = Some b \<and> b \<noteq> [] \<and>
    cstr b = (if st_u32 st 8 = 0 \<and> st_u32 st 12 = 0 then []
       else ascii ''0x'' @ hex_text 8 (unat (st_u32 st 12)) @ hex_text 8 (unat (st_u32 st 8)))"
proof -
  let ?w = "ucast (st_u32 st 8) OR push_bit 32 (ucast (st_u32 st 12)) :: u64"
  have n: "unat ?w = unat (st_u32 st 8) + 2 ^ 32 * unat (st_u32 st 12)"
    by (rule unat_join)
  have lo: "unat (st_u32 st 8) < 16 ^ 8"
    using unsigned_less [of "st_u32 st 8", where ?'a = nat] by simp
  have "unat ?w div 16 ^ 8 = unat (st_u32 st 12)" "unat ?w mod 16 ^ 8 = unat (st_u32 st 8)"
    using lo unfolding n by simp_all
  then have "hex_text (8 + 8) (unat ?w) = hex_text 8 (unat (st_u32 st 12)) @ hex_text 8 (unat (st_u32 st 8))"
    using hex_text_split [of 8 8 "unat ?w"] hex_text_mod [of 8 "unat ?w"] by simp
  then have hex: "print_text [Lit ''0x'', Hex 16 (unat ?w)] =
      ascii ''0x'' @ hex_text 8 (unat (st_u32 st 12)) @ hex_text 8 (unat (st_u32 st 8))"
    by (simp add: print_text_def)
  have "?w = 0 \<longleftrightarrow> st_u32 st 8 = 0 \<and> st_u32 st 12 = 0"
    using n by (simp add: word_unat_eq_iff)
  then show ?thesis
    using assms SPrint_fits [OF assms(1), of "[Lit ''0x'', Hex 16 (unat ?w)]" 19] hex hex_text_no_nul
    by (auto simp: id_registers_def zero_processor_def Let_def ascii_def print_into_def [of _ "[]"])
      (simp_all add: print_into_def)
qed

lemma processor_serials_text:
  assumes "struct_ok st"
  shows "\<exists>a b. processor_serials (encode_struct st) = Some (a, b) \<and>
    length a = 64 \<and> terminated a \<and> length b = 64 \<and> terminated b \<and>
    cstr a = (if length (st_formatted st) < 0x23 then [] else take 63 (st_string st 0x20)) \<and>
    cstr b = (if length (st_formatted st) < 0x23 then [] else take 63 (st_string st 0x22))"
proof (cases "length (st_formatted st) < 0x23")
  case True
  then show ?thesis
    using encode_length_byte [OF assms]
    by (simp add: processor_serials_def) (simp add: zero_field_def NUC_REDFISH_STR_MAX_def terminated_def)
next
  case False
  then show ?thesis
    using encode_length_byte [OF assms] record_string_text [OF assms, of 32 zero_field]
      record_string_text [OF assms, of 34 zero_field]
    by (auto simp: processor_serials_def zero_field_def NUC_REDFISH_STR_MAX_def)
qed

lemma wide_read:
  assumes "p + 1 < length (encode_struct st)"
  shows "\<exists>w. u16_field (encode_struct st) p = Some w \<and> (p + 1 < length (st_formatted st) \<longrightarrow> w = st_u16 st p)"
proof (cases "p + 1 < length (st_formatted st)")
  case False
  with assms show ?thesis by (simp add: u16_field_def)
qed simp

text \<open>
  The 16-bit counts are read before the length of the record is looked at: a record with counts that ends, strings
  included, before byte 0x30 is read past its end.
\<close>

lemma processor_counts_outside:
  assumes "st_formatted st ! 1 = of_nat (length (st_formatted st))" "length (st_formatted st) < 256"
    and "0x26 \<le> length (st_formatted st)" "length (encode_struct st) < 0x30"
  shows "processor_counts (encode_struct st) = None"
proof -
  have "byte_at (encode_struct st) 1 = Some (of_nat (length (st_formatted st)))"
      "unat (of_nat (length (st_formatted st)) :: u8) = length (st_formatted st)"
    using assms(1-3) by (auto simp: unat_of_nat)
  moreover have "resolved_count (encode_struct st) 0x25 0x2e v = None" for v
    using assms(4) by (auto simp: resolved_count_def u16_field_def byte_at_def [of _ 47] bind_eq_None_conv)
  ultimately show ?thesis
    using assms(3) by (auto simp: processor_counts_def bind_eq_None_conv)
qed

lemma processor_counts_spec:
  assumes "struct_ok st" "0x26 \<le> length (st_formatted st) \<longrightarrow> 0x30 \<le> length (encode_struct st)"
  shows "\<exists>c e t. processor_counts (encode_struct st) = Some (c, e, t) \<and>
    unat c = cpu_count st 0x23 0x2a \<and> unat e = cpu_count st 0x24 0x2c \<and> unat t = cpu_count st 0x25 0x2e"
proof (cases "length (st_formatted st) < 0x26")
  case True
  then show ?thesis
    using encode_length_byte [OF assms(1)] by (simp add: processor_counts_def cpu_count_def)
next
  case False
  have "\<exists>c. resolved_count (encode_struct st) n w (0x30 \<le> length (st_formatted st)) = Some c \<and>
      unat c = cpu_count st n w" if nw: "n < 0x26" "w + 1 < 0x30" for n w
  proof -
    have "byte_at (encode_struct st) n = Some (st_formatted st ! n)"
      using nw(1) False by (intro encode_byte) simp
    moreover obtain v where "u16_field (encode_struct st) w = Some v"
      "w + 1 < length (st_formatted st) \<longrightarrow> v = st_u16 st w"
      using wide_read [of w st] nw(2) assms(2) False by auto
    ultimately show ?thesis
      using nw False by (auto simp: resolved_count_def cpu_count_def ProcessorCount_def simp del: byte_at_in)
  qed
  from this [of 35 42] this [of 36 44] this [of 37 46] show ?thesis
    using encode_length_byte [OF assms(1)] False by (auto simp: processor_counts_def)
qed

definition processor_ok :: "processor \<Rightarrow> bool" where
  "processor_ok p \<longleftrightarrow> IdRegisters p \<noteq> [] \<and> (\<forall>f \<in> {Socket p, cpu_Manufacturer p, cpu_Model p, cpu_SerialNumber p, cpu_PartNumber p}.
     length f = 64 \<and> terminated f)"

lemma processor_socket_spec:
  assumes "ascii_lib_ok L" "struct_ok st" "st_formatted st ! 0 = 4"
  shows "\<exists>p. processor_socket L (encode_struct st) =
      Some (if st_formatted st ! 0x18 AND 0x40 \<noteq> 0 then Some p else None) \<and>
    (st_formatted st ! 0x18 AND 0x40 \<noteq> 0 \<longrightarrow> describes_cpu st p \<and> processor_ok p)"
proof -
  have len: "0x1a \<le> length (st_formatted st)" "0x26 \<le> length (st_formatted st) \<longrightarrow> 0x30 \<le> length (encode_struct st)"
    using assms by (simp_all add: struct_ok_def)
  have fields: "\<exists>b. record_string zero_field (encode_struct st) i = Some b \<and> length b = 64 \<and> terminated b \<and>
      cstr b = take 63 (st_string st i)" if "i < 26" for i
    using record_string_text [OF assms(2), of i zero_field] that len
    by (simp add: zero_field_def NUC_REDFISH_STR_MAX_def)
  obtain s m o' where f:
    "record_string zero_field (encode_struct st) 4 = Some s" "length s = 64 \<and> terminated s" "cstr s = take 63 (st_string st 4)"
    "record_string zero_field (encode_struct st) 7 = Some m" "length m = 64 \<and> terminated m" "cstr m = take 63 (st_string st 7)"
    "record_string zero_field (encode_struct st) 0x10 = Some o'" "length o' = 64 \<and> terminated o'" "cstr o' = take 63 (st_string st 0x10)"
    using fields [of 4] fields [of 7] fields [of 16] by auto
  obtain r where r: "id_registers L (encode_struct st) = Some r" "r \<noteq> []"
    "cstr r = (if st_u32 st 8 = 0 \<and> st_u32 st 12 = 0 then []
       else ascii ''0x'' @ hex_text 8 (unat (st_u32 st 12)) @ hex_text 8 (unat (st_u32 st 8)))"
    using id_registers_text [OF assms(1) len(1)] by blast
  obtain a b where ab: "processor_serials (encode_struct st) = Some (a, b)"
    "length a = 64 \<and> terminated a" "length b = 64 \<and> terminated b"
    "cstr a = (if length (st_formatted st) < 0x23 then [] else take 63 (st_string st 0x20))"
    "cstr b = (if length (st_formatted st) < 0x23 then [] else take 63 (st_string st 0x22))"
    using processor_serials_text [OF assms(2)] by blast
  obtain c e t where cet: "processor_counts (encode_struct st) = Some (c, e, t)"
    "unat c = cpu_count st 0x23 0x2a" "unat e = cpu_count st 0x24 0x2c" "unat t = cpu_count st 0x25 0x2e"
    using processor_counts_spec [OF assms(2) len(2)] by blast
  show ?thesis
    using f r ab cet len(1)
    by (simp add: processor_socket_def zero_processor_def describes_cpu_def processor_ok_def)
qed

lemma collect_processors_entries:
  assumes "ascii_lib_ok L" "\<forall>st \<in> set sts. struct_ok st" "0 < n"
  shows "\<exists>Ps. NucRedfishCollectProcessors L True n (Some (map encode_struct sts)) = Some (EFI_SUCCESS, Ps) \<and>
    list_all2 (\<lambda>st p. describes_cpu st p \<and> processor_ok p)
      (take n (filter (\<lambda>st. st_formatted st ! 0 = 4 \<and> st_formatted st ! 0x18 AND 0x40 \<noteq> 0) sts)) Ps"
proof -
  have "record_type_is 4 (encode_struct st) = Some (st_formatted st ! 0 = 4)" if "st \<in> set sts" for st
    using assms(2) that by (simp add: record_type_encode)
  then obtain Ps where "processor_loop L n [] (map encode_struct sts) = Some ([] @ Ps)"
    "list_all2 (\<lambda>st p. describes_cpu st p \<and> processor_ok p) (take (n - length ([] :: processor list))
       (filter (\<lambda>st. st_formatted st ! 0 = 4 \<and> st_formatted st ! 0x18 AND 0x40 \<noteq> 0) sts)) Ps"
    using cpu.loop_describes [of sts encode_struct "\<lambda>st. st_formatted st ! 0 = 4"
        L "\<lambda>st. st_formatted st ! 0x18 AND 0x40 \<noteq> 0" "\<lambda>st p. describes_cpu st p \<and> processor_ok p" "[]" n]
      processor_socket_spec [OF assms(1)] assms(2) by auto
  then show ?thesis
    using assms(3) by (auto simp: NucRedfishCollectProcessors_def)
qed

text \<open>
  C30: the processor report is exactly the populated sockets.  From a well-formed SMBIOS table, the
  collector succeeds with one entry per type 4 structure whose status says populated, in table
  order and at most as many as fit, each carrying that structure's strings, speeds, identification
  registers and core and thread counts; a count of 0xff defers to its 16-bit companion where the
  structure has one.  Structures without counts, without serial numbers or without 16-bit counts are
  covered.  What is required of a structure with counts is that it has 0x30 bytes with its strings: the code
  reads the 16-bit counts in any case, so that a shorter one is read past its end.
\<close>

theorem collect_processors_spec:
  assumes "ascii_lib_ok L" "\<forall>st \<in> set sts. struct_ok st" "0 < n"
  shows "\<exists>Ps. NucRedfishCollectProcessors L True n (Some (map encode_struct sts)) = Some (EFI_SUCCESS, Ps) \<and>
    list_all2 describes_cpu
      (take n (filter (\<lambda>st. st_formatted st ! 0 = 4 \<and> st_formatted st ! 0x18 AND 0x40 \<noteq> 0) sts)) Ps"
  using collect_processors_entries [OF assms] by (auto elim: list_all2_mono)

definition demo_cpu :: smbios_struct where
  "demo_cpu = \<lparr>st_formatted = [4, 0x30, 0x20, 0, 1, 3, 0xc6, 2, 0xd4, 6, 3, 0, 0xff, 0xfb, 0xeb, 0xbf,
       3, 0, 100, 0, 0x1c, 0x0c, 0xd4, 0x08, 0x41, 1, 0, 0, 0, 0, 0, 0, 0, 0, 0, 0xff, 0xff, 4, 0, 0,
       0xc6, 0, 2, 0, 2, 0, 4, 0],
     st_strings = [ascii ''U3E1'', ascii ''Intel'', ascii ''i7-5557U'']\<rparr>"

theorem collect_processors_spec_witness:
  "\<exists>p. NucRedfishCollectProcessors edk2_lib True 4 (Some (map encode_struct [demo_cpu])) = Some (EFI_SUCCESS, [p]) \<and>
     unat (TotalCores p) = 2 \<and> unat (TotalThreads p) = 4 \<and> Enabled p"
proof -
  have ok: "struct_ok demo_cpu"
    by (simp add: struct_ok_def demo_cpu_def ascii_def encode_struct_def)
  have d: "st_formatted demo_cpu ! 0 = 4" "st_formatted demo_cpu ! 0x18 AND 0x40 \<noteq> 0"
    "cpu_count demo_cpu 0x23 0x2a = 2" "cpu_count demo_cpu 0x25 0x2e = 4" "st_formatted demo_cpu ! 0x18 AND 7 = 1"
    by (simp_all add: demo_cpu_def cpu_count_def st_u16_def from_le16_def)
  have "\<exists>Ps. NucRedfishCollectProcessors edk2_lib True 4 (Some (map encode_struct [demo_cpu])) = Some (EFI_SUCCESS, Ps) \<and>
      list_all2 describes_cpu [demo_cpu] Ps"
    using collect_processors_spec [OF edk2_lib_ok, of "[demo_cpu]" 4] ok d by simp
  then show ?thesis
    using d by (auto simp: list_all2_Cons1 describes_cpu_def)
qed

section \<open>The host identity\<close>

text \<open>The shape of the inventory structure: four terminated 64-byte fields and a terminated UUID field.\<close>

definition inventory_ok :: "host_inventory \<Rightarrow> bool" where
  "inventory_ok Inv \<longleftrightarrow>
     (\<forall>f \<in> {BiosVersion Inv, inv_Manufacturer Inv, inv_Model Inv, inv_SerialNumber Inv}. length f = 64 \<and> terminated f) \<and>
     length (Uuid Inv) = 37 \<and> terminated (Uuid Inv)"

text \<open>The last structure of a type, which is the one whose values stay.\<close>

definition last_of_type :: "u8 \<Rightarrow> smbios_struct list \<Rightarrow> smbios_struct option" where
  "last_of_type ty sts = (let l = filter (\<lambda>st. st_formatted st ! 0 = ty) sts in if l = [] then None else Some (last l))"

definition identity_text :: "smbios_struct option \<Rightarrow> nat \<Rightarrow> u8 list" where
  "identity_text st fld = (case st of None \<Rightarrow> [] | Some s \<Rightarrow> take 63 (st_string s fld))"

lemma last_of_type_snoc:
  "last_of_type ty (sts @ [st]) = (if st_formatted st ! 0 = ty then Some st else last_of_type ty sts)"
  by (simp add: last_of_type_def Let_def)

lemma length_uuid_text: "length (print_text (uuid_items u)) = 36"
  by (simp add: uuid_items_def print_text_def Let_def)

lemma render_uuid_ok:
  assumes "ascii_lib_ok L" "length T = 37" "terminated T" "RenderSmbiosUuid L u T = (v, T')"
  shows "length T' = 37 \<and> terminated T'"
  using assms length_uuid_text [of u]
  by (auto simp: RenderSmbiosUuid_def Let_def SPrint_fits print_into_def split: if_splits)

lemma fold_or_zero: "fold (\<lambda>b a. a OR b) u x = (0 :: u8) \<longleftrightarrow> x = 0 \<and> (\<forall>b \<in> set u. b = 0)"
  by (induction u arbitrary: x) (auto simp: or_eq_0_iff)

lemma fold_and_ones: "fold (\<lambda>b a. a AND b) u x = (0xff :: u8) \<longleftrightarrow> x = 0xff \<and> (\<forall>b \<in> set u. b = 0xff)"
proof (induction u arbitrary: x)
  case (Cons c u)
  have "x AND c = - 1 \<longleftrightarrow> x = - 1 \<and> c = - 1"
    by (rule and_eq_minus_1_iff)
  then show ?case
    using Cons [of "x AND c"] by auto
qed simp

definition describes_host :: "smbios_struct list \<Rightarrow> host_inventory \<Rightarrow> bool" where
  "describes_host sts Inv \<longleftrightarrow>
     cstr (BiosVersion Inv) = identity_text (last_of_type 0 sts) 5 \<and>
     cstr (inv_Manufacturer Inv) = identity_text (last_of_type 1 sts) 4 \<and>
     cstr (inv_Model Inv) = identity_text (last_of_type 1 sts) 5 \<and>
     cstr (inv_SerialNumber Inv) = identity_text (last_of_type 1 sts) 7 \<and>
     (UuidValid Inv \<longleftrightarrow> (\<exists>st. last_of_type 1 sts = Some st \<and>
        (\<exists>b \<in> set (take 16 (drop 8 (st_formatted st))). b \<noteq> 0) \<and> (\<exists>b \<in> set (take 16 (drop 8 (st_formatted st))). b \<noteq> 0xff)))"

lemma inventory_step:
  assumes "ascii_lib_ok L" "struct_ok st" "inventory_ok Inv" "describes_host sts Inv"
  shows "\<exists>Inv'. inventory_loop L Inv (encode_struct st # Rs) = inventory_loop L Inv' Rs \<and>
    inventory_ok Inv' \<and> describes_host (sts @ [st]) Inv'"
proof -
  have kind: "byte_at (encode_struct st) 0 = Some (st_formatted st ! 0)"
    using record_type_encode [OF assms(2), of "st_formatted st ! 0"] by (auto simp: record_type_is_def)
  note strs = record_string_text [OF assms(2)]
  consider "st_formatted st ! 0 = 0" | "st_formatted st ! 0 = 1" | "st_formatted st ! 0 \<notin> {0, 1}" by auto
  then show ?thesis
  proof cases
    case 1
    then have "5 < length (st_formatted st)"
      using assms(2) by (simp add: struct_ok_def)
    with strs [of 5 "BiosVersion Inv"] assms(3) obtain v where
      "record_string (BiosVersion Inv) (encode_struct st) 5 = Some v" "length v = 64" "terminated v" "cstr v = take 63 (st_string st 5)"
      by (auto simp: inventory_ok_def)
    with 1 kind assms(3,4) show ?thesis
      by (intro exI [of _ "Inv\<lparr>BiosVersion := v\<rparr>"])
        (simp add: inventory_ok_def describes_host_def last_of_type_snoc identity_text_def)
  next
    case 2
    then have len: "0x18 \<le> length (st_formatted st)"
      using assms(2) by (simp add: struct_ok_def)
    obtain m p s where mps:
      "record_string (inv_Manufacturer Inv) (encode_struct st) 4 = Some m" "length m = 64" "terminated m" "cstr m = take 63 (st_string st 4)"
      "record_string (inv_Model Inv) (encode_struct st) 5 = Some p" "length p = 64" "terminated p" "cstr p = take 63 (st_string st 5)"
      "record_string (inv_SerialNumber Inv) (encode_struct st) 7 = Some s" "length s = 64" "terminated s" "cstr s = take 63 (st_string st 7)"
      using strs [of 4 "inv_Manufacturer Inv"] strs [of 5 "inv_Model Inv"] strs [of 7 "inv_SerialNumber Inv"] len assms(3)
      by (auto simp: inventory_ok_def)
    let ?u = "take 16 (drop 8 (st_formatted st))"
    have u: "read_span (encode_struct st) 8 16 = Some ?u"
      using len by (simp add: read_span_def encode_struct_def)
    obtain valid T where T: "RenderSmbiosUuid L ?u (Uuid Inv) = (valid, T)" by fastforce
    then have "length T = 37 \<and> terminated T"
      using render_uuid_ok [OF assms(1) _ _ T] assms(3) by (simp add: inventory_ok_def)
    moreover have "valid \<longleftrightarrow> (\<exists>b \<in> set ?u. b \<noteq> 0) \<and> (\<exists>b \<in> set ?u. b \<noteq> 0xff)"
      using T by (auto simp: RenderSmbiosUuid_def Let_def fold_or_zero fold_and_ones split: if_splits)
    ultimately show ?thesis
      using 2 kind mps u T assms(3,4)
      by (intro exI [of _ "Inv\<lparr>inv_Manufacturer := m, inv_Model := p, inv_SerialNumber := s, Uuid := T, UuidValid := valid\<rparr>"])
        (simp add: inventory_ok_def describes_host_def last_of_type_snoc identity_text_def)
  next
    case 3
    with kind assms(3,4) show ?thesis
      by (intro exI [of _ Inv]) (simp add: describes_host_def last_of_type_snoc)
  qed
qed

lemma inventory_loop_spec:
  assumes "ascii_lib_ok L" "\<forall>st \<in> set sts. struct_ok st" "inventory_ok Inv" "describes_host pre Inv"
  shows "\<exists>Inv'. inventory_loop L Inv (map encode_struct sts) = Some Inv' \<and> inventory_ok Inv' \<and> describes_host (pre @ sts) Inv'"
  using assms(2-)
proof (induction sts arbitrary: Inv pre)
  case (Cons st sts)
  then obtain Inv' where "inventory_loop L Inv (encode_struct st # map encode_struct sts) = inventory_loop L Inv' (map encode_struct sts)"
    "inventory_ok Inv'" "describes_host (pre @ [st]) Inv'"
    using inventory_step [OF assms(1), of st Inv pre "map encode_struct sts"] by auto
  with Cons.IH [of Inv' "pre @ [st]"] Cons.prems(1) show ?case by simp
qed simp

lemma zero_inventory_ok: "inventory_ok zero_inventory" "describes_host [] zero_inventory"
  by (simp_all add: inventory_ok_def zero_inventory_def zero_field_def NUC_REDFISH_STR_MAX_def terminated_def describes_host_def
      last_of_type_def identity_text_def)

lemma collect_inventory_total:
  assumes "ascii_lib_ok L" "\<forall>Rs. Smbios = Some Rs \<longrightarrow> (\<exists>sts. Rs = map encode_struct sts \<and> (\<forall>st \<in> set sts. struct_ok st))"
  shows "\<exists>s Inv. NucRedfishCollectInventory L Smbios = Some (s, Inv) \<and> inventory_ok Inv"
proof (cases Smbios)
  case (Some Rs)
  then obtain sts where "Rs = map encode_struct sts" "\<forall>st \<in> set sts. struct_ok st"
    using assms(2) by blast
  with inventory_loop_spec [OF assms(1) _ zero_inventory_ok] Some show ?thesis
    by (force simp: NucRedfishCollectInventory_def)
qed (simp add: NucRedfishCollectInventory_def zero_inventory_ok)

text \<open>
  C28: the inventory structure is always well-typed and says what the table says.  From a well-formed
  SMBIOS table the collector succeeds; every text field is a terminated string within its array, the
  texts are those of the last BIOS and the last system structure, and the UUID counts as valid exactly
  when that system structure's UUID is neither all zeros nor all ones.
\<close>

theorem collect_inventory_typed:
  assumes "ascii_lib_ok L" "\<forall>st \<in> set sts. struct_ok st"
  shows "\<exists>Inv. NucRedfishCollectInventory L (Some (map encode_struct sts)) = Some (EFI_SUCCESS, Inv) \<and>
    inventory_ok Inv \<and> describes_host sts Inv"
  using inventory_loop_spec [OF assms zero_inventory_ok] by (auto simp: NucRedfishCollectInventory_def)

definition demo_bios :: smbios_struct where
  "demo_bios = \<lparr>st_formatted = [0, 6, 0, 0, 0, 1], st_strings = [ascii ''4.22'']\<rparr>"

theorem collect_inventory_typed_witness:
  "\<exists>Inv. NucRedfishCollectInventory edk2_lib (Some (map encode_struct [demo_bios])) = Some (EFI_SUCCESS, Inv) \<and>
    cstr (BiosVersion Inv) = ascii ''4.22'' \<and> \<not> UuidValid Inv"
proof -
  have "struct_ok demo_bios"
    by (simp add: struct_ok_def demo_bios_def ascii_def)
  with collect_inventory_typed [OF edk2_lib_ok, of "[demo_bios]"] show ?thesis
    by (auto simp: describes_host_def last_of_type_def identity_text_def st_string_def demo_bios_def)
qed

end
