(* ===== verification/InventoryJson.thy ===== *)
theory InventoryJson
  imports SmbiosInventory
begin

text \<open>
  The JSON half of NucRedfishSyncDxe/NucRedfishInventory.c: appending members to a body under
  construction, and the bodies reported for the system, a memory device and a processor.  A body is
  the text in its 1024-byte buffer; the pool allocator's answer is an argument.
\<close>

section \<open>Building a body\<close>

definition NUC_REDFISH_JSON_MAX :: nat where "NUC_REDFISH_JSON_MAX = 1024"

definition NUC_REDFISH_BOOT_PROGRESS :: string where
  "NUC_REDFISH_BOOT_PROGRESS = ''SystemHardwareInitializationComplete''"

definition escape_char :: "u8 \<Rightarrow> u8 list" where
  "escape_char c = (if c = 0x22 \<or> c = 0x5c then [0x5c, c] else if c < 0x20 then [0x20] else [c])"

text \<open>
  The loop that fills Escaped, a buffer of twice the field size, from the string at Value; it stops
  when two more bytes might not fit.  None is a string without an end.
\<close>

fun escape_loop :: "u8 list \<Rightarrow> u8 list \<Rightarrow> u8 list option" where
  "escape_loop [] Escaped = None"
| "escape_loop (c # cs) Escaped =
     (if c \<noteq> 0 \<and> length Escaped < NUC_REDFISH_STR_MAX * 2 - 2 then escape_loop cs (Escaped @ escape_char c)
      else Some Escaped)"

definition AppendJsonString ::
  "ascii_lib \<Rightarrow> u8 list \<Rightarrow> nat \<Rightarrow> string \<Rightarrow> u8 list option \<Rightarrow> u8 list option" where
  \<open>AppendJsonString L Json JsonSize Name Val =
     (case Val of
        None \<Rightarrow> Some Json
      | Some V \<Rightarrow> do {
          c \<leftarrow> byte_at V 0;
          if c = 0 then Some Json
          else do {
            Escaped \<leftarrow> escape_loop V [];
            let Json = AsciiStrCatS L JsonSize Json (ascii '',"'');
            let Json = AsciiStrCatS L JsonSize Json (ascii Name);
            let Json = AsciiStrCatS L JsonSize Json (ascii ''":"'');
            let Json = AsciiStrCatS L JsonSize Json Escaped;
            Some (AsciiStrCatS L JsonSize Json (ascii ''"''))
          }
        })\<close>

definition AppendJsonNumber :: "ascii_lib \<Rightarrow> u8 list \<Rightarrow> nat \<Rightarrow> string \<Rightarrow> u32 \<Rightarrow> u8 list" where
  \<open>AppendJsonNumber L Json JsonSize Name Val =
     (if Val = 0 then Json
      else AsciiStrCatS L JsonSize Json
        (AsciiSPrint L 32 [Lit '',"'', Str (ascii Name), Lit ''":'', Dec (sint Val)]))\<close>

definition NucRedfishBuildSystemPatch ::
  "ascii_lib \<Rightarrow> bool \<Rightarrow> host_inventory option \<Rightarrow> bool \<Rightarrow> (efi_status \<times> u8 list option) option" where
  \<open>NucRedfishBuildSystemPatch L Allocated Inventory HaveJson =
     (case Inventory of
        None \<Rightarrow> Some (EFI_INVALID_PARAMETER, None)
      | Some Inv \<Rightarrow>
          if \<not> HaveJson then Some (EFI_INVALID_PARAMETER, None)
          else if \<not> Allocated then Some (EFI_OUT_OF_RESOURCES, None)
          else do {
            let N = NUC_REDFISH_JSON_MAX;
            let Body = AsciiSPrint L N
              [Lit ''{"BootProgress":{"LastState":"'', Str (ascii NUC_REDFISH_BOOT_PROGRESS), Lit ''"}''];
            Body \<leftarrow> AppendJsonString L Body N ''BiosVersion'' (Some (BiosVersion Inv));
            Body \<leftarrow> AppendJsonString L Body N ''Manufacturer'' (Some (inv_Manufacturer Inv));
            Body \<leftarrow> AppendJsonString L Body N ''Model'' (Some (inv_Model Inv));
            Body \<leftarrow> AppendJsonString L Body N ''SerialNumber'' (Some (inv_SerialNumber Inv));
            Body \<leftarrow> (if UuidValid Inv then AppendJsonString L Body N ''UUID'' (Some (Uuid Inv)) else Some Body);
            Some (EFI_SUCCESS, Some (AsciiStrCatS L N Body (ascii ''}'')))
          })\<close>

definition NucRedfishBuildMemoryPost ::
  "ascii_lib \<Rightarrow> bool \<Rightarrow> memory_module option \<Rightarrow> bool \<Rightarrow> (efi_status \<times> u8 list option) option" where
  \<open>NucRedfishBuildMemoryPost L Allocated Module HaveJson =
     (case Module of
        None \<Rightarrow> Some (EFI_INVALID_PARAMETER, None)
      | Some Mod \<Rightarrow>
          if \<not> HaveJson then Some (EFI_INVALID_PARAMETER, None)
          else if \<not> Allocated then Some (EFI_OUT_OF_RESOURCES, None)
          else do {
            let N = NUC_REDFISH_JSON_MAX;
            let Body = AsciiSPrint L N
              [Lit ''{"@odata.type":"#Memory.v1_7_1.Memory"'',
               Lit '',"Status":{"State":"Enabled","Health":"OK"}'', Lit '',"MemoryType":"DRAM"''];
            Body \<leftarrow> AppendJsonString L Body N ''DeviceLocator'' (Some (DeviceLocator Mod));
            Body \<leftarrow> AppendJsonString L Body N ''Name'' (Some (DeviceLocator Mod));
            Body \<leftarrow> AppendJsonString L Body N ''Manufacturer'' (Some (mem_Manufacturer Mod));
            Body \<leftarrow> AppendJsonString L Body N ''SerialNumber'' (Some (mem_SerialNumber Mod));
            Body \<leftarrow> AppendJsonString L Body N ''PartNumber'' (Some (mem_PartNumber Mod));
            Body \<leftarrow> AppendJsonString L Body N ''MemoryDeviceType'' (MemoryDeviceType Mod);
            Body \<leftarrow> AppendJsonString L Body N ''BaseModuleType'' (BaseModuleType Mod);
            let Body = AppendJsonNumber L Body N ''CapacityMiB'' (CapacityMiB Mod);
            let Body = AppendJsonNumber L Body N ''OperatingSpeedMhz'' (mem_OperatingSpeedMhz Mod);
            let Body = AppendJsonNumber L Body N ''DataWidthBits'' (ucast (DataWidthBits Mod));
            let Body = AppendJsonNumber L Body N ''BusWidthBits'' (ucast (BusWidthBits Mod));
            let Body = (if RatedSpeedMhz Mod = 0 then Body
              else AsciiStrCatS L N Body (AsciiSPrint L 48
                [Lit '',"AllowedSpeedsMHz":['', Dec (sint (RatedSpeedMhz Mod)), Lit '']'']));
            Some (EFI_SUCCESS, Some (AsciiStrCatS L N Body (ascii ''}'')))
          })\<close>

text \<open>The numbers of a processor, and its identification registers as a nested object.\<close>

definition append_counts :: "ascii_lib \<Rightarrow> u8 list \<Rightarrow> processor \<Rightarrow> u8 list" where
  "append_counts L Body P =
     (let N = NUC_REDFISH_JSON_MAX;
          Body = AppendJsonNumber L Body N ''MaxSpeedMHz'' (MaxSpeedMhz P);
          Body = AppendJsonNumber L Body N ''OperatingSpeedMHz'' (cpu_OperatingSpeedMhz P);
          Body = AppendJsonNumber L Body N ''TotalCores'' (TotalCores P);
          Body = AppendJsonNumber L Body N ''TotalEnabledCores'' (TotalEnabledCores P)
      in AppendJsonNumber L Body N ''TotalThreads'' (TotalThreads P))"

definition append_id :: "ascii_lib \<Rightarrow> u8 list \<Rightarrow> processor \<Rightarrow> u8 list option" where
  \<open>append_id L Body P = do {
     c \<leftarrow> byte_at (IdRegisters P) 0;
     Some (if c = 0 then Body
       else AsciiStrCatS L NUC_REDFISH_JSON_MAX Body (AsciiSPrint L 80
         [Lit '',"ProcessorId":{"IdentificationRegisters":"'', Str (cstr (IdRegisters P)), Lit ''"}'']))
   }\<close>

definition NucRedfishBuildProcessorPost ::
  "ascii_lib \<Rightarrow> bool \<Rightarrow> processor option \<Rightarrow> bool \<Rightarrow> (efi_status \<times> u8 list option) option" where
  \<open>NucRedfishBuildProcessorPost L Allocated Processor HaveJson =
     (case Processor of
        None \<Rightarrow> Some (EFI_INVALID_PARAMETER, None)
      | Some P \<Rightarrow>
          if \<not> HaveJson then Some (EFI_INVALID_PARAMETER, None)
          else if \<not> Allocated then Some (EFI_OUT_OF_RESOURCES, None)
          else do {
            let N = NUC_REDFISH_JSON_MAX;
            let Body = AsciiSPrint L N
              [Lit ''{"@odata.type":"#Processor.v1_14_0.Processor"'', Lit '',"Status":{"State":"'',
               Str (ascii (if Enabled P then ''Enabled'' else ''Disabled'')), Lit ''","Health":"OK"}'',
               Lit '',"ProcessorArchitecture":"x86"'', Lit '',"InstructionSet":"x86-64"''];
            Body \<leftarrow> AppendJsonString L Body N ''ProcessorType'' (ProcessorType P);
            Body \<leftarrow> AppendJsonString L Body N ''Socket'' (Some (Socket P));
            Body \<leftarrow> AppendJsonString L Body N ''Name'' (Some (Socket P));
            Body \<leftarrow> AppendJsonString L Body N ''Manufacturer'' (Some (cpu_Manufacturer P));
            Body \<leftarrow> AppendJsonString L Body N ''Model'' (Some (cpu_Model P));
            Body \<leftarrow> AppendJsonString L Body N ''SerialNumber'' (Some (cpu_SerialNumber P));
            Body \<leftarrow> AppendJsonString L Body N ''PartNumber'' (Some (cpu_PartNumber P));
            let Body = append_counts L Body P;
            Body \<leftarrow> append_id L Body P;
            Some (EFI_SUCCESS, Some (AsciiStrCatS L N Body (ascii ''}'')))
          })\<close>

section \<open>Appended members\<close>

definition escape :: "u8 list \<Rightarrow> u8 list" where
  "escape v = concat (map escape_char v)"

lemma escape_simps [simp]: "escape [] = []" "escape (c # cs) = escape_char c @ escape cs"
  by (simp_all add: escape_def)

lemma length_escape_char: "length (escape_char c) \<le> 2"
  by (simp add: escape_char_def)

lemma length_escape: "length (escape v) \<le> 2 * length v"
proof (induction v)
  case (Cons c v)
  then show ?case using length_escape_char [of c] by simp
qed simp

text \<open>A value that fits its 64-byte field is escaped completely: the loop never stops early.\<close>

lemma escape_loop_complete:
  "terminated V \<Longrightarrow> length E + 2 * length (cstr V) \<le> 126 \<Longrightarrow> escape_loop V E = Some (E @ escape (cstr V))"
proof (induction V arbitrary: E)
  case (Cons c V)
  show ?case
  proof (cases "c = 0")
    case False
    with Cons.prems have V: "terminated V" "length E + 2 * Suc (length (cstr V)) \<le> 126"
      by (auto simp: terminated_def cstr_def)
    then have "escape_loop V (E @ escape_char c) = Some ((E @ escape_char c) @ escape (cstr V))"
      using length_escape_char [of c] by (intro Cons.IH) auto
    with False V show ?thesis
      by (simp add: cstr_def NUC_REDFISH_STR_MAX_def)
  qed (simp add: cstr_def)
qed (simp add: terminated_def)

definition text_ok :: "u8 list \<Rightarrow> bool" where
  "text_ok V \<longleftrightarrow> terminated V \<and> length (cstr V) < 64"

lemma field_text_ok: "length V = 64 \<Longrightarrow> terminated V \<Longrightarrow> text_ok V"
  using length_cstr [of V] by (simp add: text_ok_def)

definition string_member :: "string \<Rightarrow> u8 list \<Rightarrow> u8 list" where
  \<open>string_member Name V = (if cstr V = [] then []
     else ascii '',"'' @ ascii Name @ ascii ''":"'' @ escape (cstr V) @ ascii ''"'')\<close>

lemma length_string_member: "text_ok V \<Longrightarrow> length (string_member Name V) \<le> length Name + 132"
  using length_escape [of "cstr V"] by (simp add: string_member_def text_ok_def)

text \<open>An absent value appends nothing.\<close>

definition option_member :: "string \<Rightarrow> u8 list option \<Rightarrow> u8 list" where
  "option_member Name Val = (case Val of None \<Rightarrow> [] | Some V \<Rightarrow> string_member Name V)"

lemma AppendJsonString_fits:
  assumes "ascii_lib_ok L" "\<And>V. Val = Some V \<Longrightarrow> text_ok V" "length Json + length (option_member Name Val) < n"
  shows "AppendJsonString L Json n Name Val = Some (Json @ option_member Name Val)"
proof (cases Val)
  case (Some V)
  then have V: "text_ok V" using assms(2) by blast
  then have esc: "escape_loop V [] = Some (escape (cstr V))" and ne: "V \<noteq> []"
    using escape_loop_complete [of V "[]"] by (auto simp: text_ok_def terminated_def)
  have "cstr V = [] \<longleftrightarrow> V ! 0 = 0"
    using ne by (cases V) (auto simp: cstr_def)
  with Some V esc ne assms(1,3) show ?thesis
    by (auto simp: AppendJsonString_def option_member_def string_member_def StrCatS_fits)
qed (simp add: AppendJsonString_def option_member_def)

lemma option_member_None [simp]: "option_member Name None = []"
  by (simp add: option_member_def)

lemma AppendJsonString_Some:
  assumes "ascii_lib_ok L" "text_ok V" "length Json + length (option_member Name (Some V)) < n"
  shows "AppendJsonString L Json n Name (Some V) = Some (Json @ option_member Name (Some V))"
  using assms by (intro AppendJsonString_fits) auto

definition number_member :: "string \<Rightarrow> u32 \<Rightarrow> u8 list" where
  \<open>number_member Name Val = (if Val = 0 then []
     else ascii '',"'' @ ascii Name @ ascii ''":'' @ dec_nat (unat Val))\<close>

lemma length_number_member: "length (number_member Name Val) \<le> length Name + 14"
proof -
  have "length (dec_nat (unat Val)) \<le> 10"
    using unsigned_less [of Val, where ?'a = nat] by (intro length_dec_nat) auto
  then show ?thesis
    by (simp add: number_member_def)
qed

text \<open>
  The 32-byte scratch buffer is large enough for every name used, for values that the signed
  conversion prints as they are.
\<close>

lemma AppendJsonNumber_fits:
  assumes "ascii_lib_ok L" "unat Val < 2 ^ 31" "length Name \<le> 17"
    and "length Json + length (number_member Name Val) < n"
  shows "AppendJsonNumber L Json n Name Val = Json @ number_member Name Val"
proof (cases "Val = 0")
  case False
  have "sint Val = int (unat Val)"
    using assms(2) by (rule sint_small)
  then have \<open>print_text [Lit '',"'', Str (ascii Name), Lit ''":'', Dec (sint Val)] = number_member Name Val\<close>
    using False by (simp add: print_text_def number_member_def dec_int_def)
  moreover have "length (number_member Name Val) < 32"
    using length_number_member [of Name Val] assms(3) by simp
  ultimately show ?thesis
    using False assms by (simp add: AppendJsonNumber_def SPrint_fits StrCatS_fits)
qed (simp add: AppendJsonNumber_def number_member_def)

section \<open>JSON texts\<close>

text \<open>
  The part of the JSON grammar the bodies use, relating a text to the value it denotes: 7-bit
  strings with escaped quotes and backslashes, non-negative numbers, one-element arrays and
  non-empty objects, without white space.
\<close>

datatype json =
    JStr "u8 list"
  | JNum nat
  | JBool bool
  | JArr "json list"
  | JObj "(u8 list \<times> json) list"
  | JNull

inductive json_chars :: "u8 list \<Rightarrow> u8 list \<Rightarrow> bool" where
  chars_end: "json_chars [] []"
| chars_plain: "0x20 \<le> c \<Longrightarrow> c < 0x80 \<Longrightarrow> c \<noteq> 0x22 \<Longrightarrow> c \<noteq> 0x5c \<Longrightarrow> json_chars cs s \<Longrightarrow>
    json_chars (c # cs) (c # s)"
| chars_escape: "c = 0x22 \<or> c = 0x5c \<Longrightarrow> json_chars cs s \<Longrightarrow> json_chars (0x5c # c # cs) (c # s)"

inductive json_text :: "u8 list \<Rightarrow> json \<Rightarrow> bool"
  and json_members :: "u8 list \<Rightarrow> (u8 list \<times> json) list \<Rightarrow> bool" where
  text_string: "json_chars cs s \<Longrightarrow> json_text ([0x22] @ cs @ [0x22]) (JStr s)"
| text_number: "json_text (dec_nat n) (JNum n)"
| text_true: "json_text (ascii ''true'') (JBool True)"
| text_false: "json_text (ascii ''false'') (JBool False)"
| text_array: "json_text t v \<Longrightarrow> json_text ([0x5b] @ t @ [0x5d]) (JArr [v])"
| text_object: "json_members m ms \<Longrightarrow> json_text ([0x7b] @ m @ [0x7d]) (JObj ms)"
| members_one: "json_chars k' k \<Longrightarrow> json_text t v \<Longrightarrow> json_members ([0x22] @ k' @ [0x22, 0x3a] @ t) [(k, v)]"
| members_more: "json_members m ms \<Longrightarrow> json_chars k' k \<Longrightarrow> json_text t v \<Longrightarrow>
    json_members (m @ [0x2c, 0x22] @ k' @ [0x22, 0x3a] @ t) (ms @ [(k, v)])"

text \<open>What escaping preserves: everything but control characters, which become spaces.\<close>

definition clean :: "u8 \<Rightarrow> u8" where
  "clean c = (if c < 0x20 then 0x20 else c)"

lemma json_chars_escape: "list_all (\<lambda>c. c < 0x80) v \<Longrightarrow> json_chars (escape v) (map clean v)"
proof (induction v)
  case (Cons c v)
  then have IH: "json_chars (escape v) (map clean v)" "c < 0x80" by simp_all
  consider "c = 0x22 \<or> c = 0x5c" | "c < 0x20" | "\<not> (c = 0x22 \<or> c = 0x5c)" "\<not> c < 0x20" by blast
  then show ?case
  proof cases
    case 1
    with IH show ?thesis by (auto simp: escape_char_def clean_def [of c] intro!: chars_escape)
  next
    case 2
    then have "c \<noteq> 0x22" "c \<noteq> 0x5c" by auto
    with 2 IH show ?thesis by (auto simp: escape_char_def clean_def [of c] intro!: chars_plain)
  next
    case 3
    with IH show ?thesis by (auto simp: escape_char_def clean_def [of c] not_less intro!: chars_plain)
  qed
qed (simp add: chars_end)

fun plain_char :: "char \<Rightarrow> bool" where
  "plain_char c \<longleftrightarrow> (let b = of_char c :: u8 in 0x20 \<le> b \<and> b < 0x80 \<and> b \<noteq> 0x22 \<and> b \<noteq> 0x5c)"

declare plain_char.simps [simp del]

lemma json_chars_plain: "list_all plain_char s \<Longrightarrow> json_chars (ascii s) (ascii s)"
  by (induction s) (auto simp: ascii_def plain_char.simps Let_def intro: json_chars.intros)

lemma text_plain: "list_all plain_char s \<Longrightarrow> json_text ([0x22] @ ascii s @ [0x22]) (JStr (ascii s))"
  by (intro text_string json_chars_plain)

text \<open>Members contributed by optional values.\<close>

definition string_entry :: "string \<Rightarrow> u8 list option \<Rightarrow> (u8 list \<times> json) list" where
  "string_entry Name Val = (case Val of None \<Rightarrow> []
     | Some V \<Rightarrow> if cstr V = [] then [] else [(ascii Name, JStr (map clean (cstr V)))])"

definition number_entry :: "string \<Rightarrow> u32 \<Rightarrow> (u8 list \<times> json) list" where
  "number_entry Name Val = (if Val = 0 then [] else [(ascii Name, JNum (unat Val))])"

definition ascii7 :: "u8 list \<Rightarrow> bool" where
  "ascii7 V \<longleftrightarrow> list_all (\<lambda>c. c < 0x80) (cstr V)"

lemma quote_bytes: \<open>ascii ''"'' = [0x22]\<close> \<open>ascii '',"'' = [0x2c, 0x22]\<close> \<open>ascii ''":"'' = [0x22, 0x3a, 0x22]\<close>
  \<open>ascii ''":'' = [0x22, 0x3a]\<close> \<open>ascii ''}'' = [0x7d]\<close>
  by (simp_all add: ascii_def)

lemma members_string:
  assumes "json_members m ms" "list_all plain_char Name" "\<And>V. Val = Some V \<Longrightarrow> ascii7 V"
  shows "json_members (m @ option_member Name Val) (ms @ string_entry Name Val)"
proof (cases Val)
  case (Some V)
  show ?thesis
  proof (cases "cstr V = []")
    case False
    have "json_text ([0x22] @ escape (cstr V) @ [0x22]) (JStr (map clean (cstr V)))"
      using assms(3) [OF Some] by (intro text_string json_chars_escape) (simp add: ascii7_def)
    from members_more [OF assms(1) json_chars_plain [OF assms(2)] this] False Some show ?thesis
      by (simp add: option_member_def string_member_def string_entry_def quote_bytes)
  qed (use Some assms(1) in \<open>simp add: option_member_def string_member_def string_entry_def\<close>)
qed (use assms(1) in \<open>simp add: option_member_def string_entry_def\<close>)

lemma members_number:
  assumes "json_members m ms" "list_all plain_char Name"
  shows "json_members (m @ number_member Name Val) (ms @ number_entry Name Val)"
  using members_more [OF assms(1) json_chars_plain [OF assms(2)] text_number [of "unat Val"]] assms(1)
  by (simp add: number_member_def number_entry_def quote_bytes)

section \<open>The bodies\<close>

text \<open>An object still open: the brace and the members so far.\<close>

definition open_object :: "u8 list \<Rightarrow> (u8 list \<times> json) list \<Rightarrow> bool" where
  "open_object b ms \<longleftrightarrow> (\<exists>m. b = [0x7b] @ m \<and> json_members m ms)"

lemma open_string:
  assumes "open_object b ms" "list_all plain_char Name" "\<And>V. Val = Some V \<Longrightarrow> ascii7 V"
  shows "open_object (b @ option_member Name Val) (ms @ string_entry Name Val)"
  using assms members_string [OF _ assms(2,3)] by (auto simp: open_object_def)

lemma open_number:
  assumes "open_object b ms" "list_all plain_char Name"
  shows "open_object (b @ number_member Name Val) (ms @ number_entry Name Val)"
  using assms members_number by (auto simp: open_object_def)

lemma close_object: "open_object b ms \<Longrightarrow> json_text (b @ ascii ''}'') (JObj ms)"
  using text_object by (auto simp: open_object_def quote_bytes)

abbreviation str_val :: "string \<Rightarrow> json" where
  "str_val s \<equiv> JStr (ascii s)"

definition status_ok :: "string \<Rightarrow> json" where
  "status_ok st = JObj [(ascii ''State'', str_val st), (ascii ''Health'', str_val ''OK'')]"

lemma status_text:
  assumes "list_all plain_char st"
  shows \<open>json_text (ascii ''{"State":"'' @ ascii st @ ascii ''","Health":"OK"}'') (status_ok st)\<close>
proof -
  have "json_members ([0x22] @ ascii ''State'' @ [0x22, 0x3a] @ [0x22] @ ascii st @ [0x22]) [(ascii ''State'', str_val st)]"
    using assms by (intro members_one json_chars_plain text_plain) (simp_all add: plain_char.simps)
  from members_more [OF this json_chars_plain text_plain, of "''Health''" "''OK''"]
  have "json_members (([0x22] @ ascii ''State'' @ [0x22, 0x3a] @ [0x22] @ ascii st @ [0x22]) @ [0x2c, 0x22] @
      ascii ''Health'' @ [0x22, 0x3a] @ [0x22] @ ascii ''OK'' @ [0x22])
      [(ascii ''State'', str_val st), (ascii ''Health'', str_val ''OK'')]"
    by (simp add: plain_char.simps)
  from text_object [OF this] show ?thesis
    by (simp add: status_ok_def ascii_def)
qed

lemma system_base:
  \<open>open_object (print_text [Lit ''{"BootProgress":{"LastState":"'', Str (ascii NUC_REDFISH_BOOT_PROGRESS), Lit ''"}''])
     [(ascii ''BootProgress'', JObj [(ascii ''LastState'', str_val NUC_REDFISH_BOOT_PROGRESS)])]\<close>
proof -
  have "json_members ([0x22] @ ascii ''LastState'' @ [0x22, 0x3a] @ [0x22] @ ascii NUC_REDFISH_BOOT_PROGRESS @ [0x22])
      [(ascii ''LastState'', str_val NUC_REDFISH_BOOT_PROGRESS)]"
    by (intro members_one json_chars_plain text_plain)
      (simp_all add: plain_char.simps NUC_REDFISH_BOOT_PROGRESS_def)
  from members_one [OF json_chars_plain text_object [OF this], of "''BootProgress''"] show ?thesis
    by (simp add: open_object_def print_text_def ascii_def plain_char.simps)
qed

text \<open>
  C31: the system PATCH is a complete JSON object.  Whatever 7-bit strings the inventory holds
  (quotes, backslashes and control characters included), the body fits its buffer and denotes the
  boot progress followed by exactly the inventory members that are not empty, each read back as the
  collected string with control characters turned into spaces.
\<close>

theorem system_patch_json:
  assumes "ascii_lib_ok L"
    and "\<forall>V \<in> {BiosVersion Inv, inv_Manufacturer Inv, inv_Model Inv, inv_SerialNumber Inv, Uuid Inv}. text_ok V \<and> ascii7 V"
  shows "\<exists>Body. NucRedfishBuildSystemPatch L True (Some Inv) True = Some (EFI_SUCCESS, Some Body) \<and>
    json_text Body (JObj ([(ascii ''BootProgress'', JObj [(ascii ''LastState'', str_val NUC_REDFISH_BOOT_PROGRESS)])] @
      string_entry ''BiosVersion'' (Some (BiosVersion Inv)) @ string_entry ''Manufacturer'' (Some (inv_Manufacturer Inv)) @
      string_entry ''Model'' (Some (inv_Model Inv)) @ string_entry ''SerialNumber'' (Some (inv_SerialNumber Inv)) @
      (if UuidValid Inv then string_entry ''UUID'' (Some (Uuid Inv)) else [])))"
proof -
  let ?base = \<open>print_text [Lit ''{"BootProgress":{"LastState":"'', Str (ascii NUC_REDFISH_BOOT_PROGRESS), Lit ''"}'']\<close>
  let ?u = "if UuidValid Inv then Some (Uuid Inv) else None"
  have base: "length ?base = 68"
    by (simp add: print_text_def NUC_REDFISH_BOOT_PROGRESS_def)
  then have print: \<open>AsciiSPrint L 1024 [Lit ''{"BootProgress":{"LastState":"'', Str (ascii NUC_REDFISH_BOOT_PROGRESS),
      Lit ''"}''] = ?base\<close>
    by (intro SPrint_fits [OF assms(1)]) simp
  have m: "length (option_member n (Some V)) \<le> length n + 132"
    if "V \<in> {BiosVersion Inv, inv_Manufacturer Inv, inv_Model Inv, inv_SerialNumber Inv, Uuid Inv}" for n V
    using length_string_member [of V n] assms(2) that by (auto simp: option_member_def)
  have build: "NucRedfishBuildSystemPatch L True (Some Inv) True = Some (EFI_SUCCESS, Some ((((((?base @
      option_member ''BiosVersion'' (Some (BiosVersion Inv))) @ option_member ''Manufacturer'' (Some (inv_Manufacturer Inv))) @
      option_member ''Model'' (Some (inv_Model Inv))) @ option_member ''SerialNumber'' (Some (inv_SerialNumber Inv))) @
      option_member ''UUID'' ?u) @ ascii ''}''))"
    using base m [of "BiosVersion Inv" "''BiosVersion''"] m [of "inv_Manufacturer Inv" "''Manufacturer''"]
      m [of "inv_Model Inv" "''Model''"] m [of "inv_SerialNumber Inv" "''SerialNumber''"] m [of "Uuid Inv" "''UUID''"]
      assms
    by (simp add: NucRedfishBuildSystemPatch_def NUC_REDFISH_JSON_MAX_def print AppendJsonString_Some StrCatS_fits)
  have "open_object (((((?base @
      option_member ''BiosVersion'' (Some (BiosVersion Inv))) @ option_member ''Manufacturer'' (Some (inv_Manufacturer Inv))) @
      option_member ''Model'' (Some (inv_Model Inv))) @ option_member ''SerialNumber'' (Some (inv_SerialNumber Inv))) @
      option_member ''UUID'' ?u) ((((([(ascii ''BootProgress'', JObj [(ascii ''LastState'', str_val NUC_REDFISH_BOOT_PROGRESS)])] @
      string_entry ''BiosVersion'' (Some (BiosVersion Inv))) @ string_entry ''Manufacturer'' (Some (inv_Manufacturer Inv))) @
      string_entry ''Model'' (Some (inv_Model Inv))) @ string_entry ''SerialNumber'' (Some (inv_SerialNumber Inv))) @
      string_entry ''UUID'' ?u)"
    using assms(2) by (intro open_string system_base) (auto simp: plain_char.simps split: if_splits)
  from build close_object [OF this] show ?thesis
    by (auto simp: string_entry_def)
qed

definition demo_inventory :: host_inventory where
  "demo_inventory = \<lparr>BiosVersion = literal ''4.22'', inv_Manufacturer = literal ''Intel'', inv_Model = literal [CHR ''N'', CHR 0x22],
     inv_SerialNumber = literal [], Uuid = literal [], UuidValid = False\<rparr>"

theorem system_patch_json_witness:
  "\<exists>Body. NucRedfishBuildSystemPatch edk2_lib True (Some demo_inventory) True = Some (EFI_SUCCESS, Some Body) \<and>
    json_text Body (JObj [(ascii ''BootProgress'', JObj [(ascii ''LastState'', str_val NUC_REDFISH_BOOT_PROGRESS)]),
      (ascii ''BiosVersion'', str_val ''4.22''), (ascii ''Manufacturer'', str_val ''Intel''),
      (ascii ''Model'', str_val [CHR ''N'', CHR 0x22])])"
proof -
  have "cstr (literal ''4.22'') = ascii ''4.22''" "cstr (literal ''Intel'') = ascii ''Intel''"
    "cstr (literal [CHR ''N'', CHR 0x22]) = ascii [CHR ''N'', CHR 0x22]" "cstr (literal []) = []"
    by (simp_all add: literal_def ascii_def cstr_def)
  moreover have "map clean (ascii ''4.22'') = ascii ''4.22''" "map clean (ascii ''Intel'') = ascii ''Intel''"
    "map clean (ascii [CHR ''N'', CHR 0x22]) = ascii [CHR ''N'', CHR 0x22]"
    by (simp_all add: ascii_def clean_def)
  moreover have "ascii ''4.22'' \<noteq> []" "ascii ''Intel'' \<noteq> []" "ascii [CHR ''N'', CHR 0x22] \<noteq> []"
    by (simp_all add: ascii_def)
  moreover have "list_all (\<lambda>c. c < 0x80) (ascii ''4.22'')" "list_all (\<lambda>c. c < 0x80) (ascii ''Intel'')"
    "list_all (\<lambda>c. c < 0x80) (ascii [CHR ''N'', CHR 0x22])"
    by (simp_all add: ascii_def)
  ultimately show ?thesis
    using system_patch_json [OF edk2_lib_ok, of demo_inventory]
    by (simp add: demo_inventory_def string_entry_def text_ok_def ascii7_def)
qed

section \<open>The memory body\<close>

lemma length_number_member_u16: "unat Val < 65536 \<Longrightarrow> length (number_member Name Val) \<le> length Name + 9"
  using length_dec_nat [of 5 "unat Val"] by (simp add: number_member_def)

lemma length_option_member:
  "terminated V \<Longrightarrow> length (cstr V) \<le> k \<Longrightarrow> length (option_member Name (Some V)) \<le> length Name + 6 + 2 * k"
  using length_escape [of "cstr V"] by (simp add: option_member_def string_member_def)

lemma device_type_text:
  "\<forall>V. RedfishMemoryDeviceType t = Some V \<longrightarrow> text_ok V \<and> ascii7 V \<and> length (cstr V) \<le> 12"
  "\<forall>V. RedfishBaseModuleType f = Some V \<longrightarrow> text_ok V \<and> ascii7 V \<and> length (cstr V) \<le> 7"
  by (auto simp: RedfishMemoryDeviceType.simps RedfishBaseModuleType.simps text_ok_def ascii7_def literal_def
      ascii_def cstr_def terminated_def split: if_splits)

lemma dimm_mib_less: "dimm_mib st < 2 ^ 31"
  using unsigned_less [of "st_u16 st 12", where ?'a = nat] by (auto simp: dimm_mib_def Let_def)

lemma memory_base:
  \<open>open_object (print_text [Lit ''{"@odata.type":"#Memory.v1_7_1.Memory"'',
     Lit '',"Status":{"State":"Enabled","Health":"OK"}'', Lit '',"MemoryType":"DRAM"''])
     [(ascii ''@odata.type'', str_val ''#Memory.v1_7_1.Memory''), (ascii ''Status'', status_ok ''Enabled''),
      (ascii ''MemoryType'', str_val ''DRAM'')]\<close>
proof -
  have "json_members ([0x22] @ ascii ''@odata.type'' @ [0x22, 0x3a] @ [0x22] @ ascii ''#Memory.v1_7_1.Memory'' @ [0x22])
      [(ascii ''@odata.type'', str_val ''#Memory.v1_7_1.Memory'')]"
    by (intro members_one json_chars_plain text_plain) (simp_all add: plain_char.simps)
  from members_more [OF members_more [OF this json_chars_plain status_text] json_chars_plain text_plain,
      of "''Status''" "''Enabled''" "''MemoryType''" "''DRAM''"]
  show ?thesis
    by (simp add: open_object_def print_text_def ascii_def plain_char.simps)
qed

lemma members_speeds:
  assumes "open_object b ms"
  shows \<open>open_object (b @ (if r = 0 then [] else ascii '',"AllowedSpeedsMHz":['' @ dec_nat r @ ascii '']''))
    (ms @ (if r = 0 then [] else [(ascii ''AllowedSpeedsMHz'', JArr [JNum r])]))\<close>
proof (cases "r = 0")
  case False
  obtain m where m: "b = [0x7b] @ m" "json_members m ms"
    using assms by (auto simp: open_object_def)
  from members_more [OF m(2) json_chars_plain text_array [OF text_number [of r]], of "''AllowedSpeedsMHz''"]
  show ?thesis
    using False m(1) by (simp add: open_object_def ascii_def plain_char.simps)
qed (use assms in simp)

lemma AppendJsonString_None [simp]: "AppendJsonString L Json n Name None = Some Json"
  by (simp add: AppendJsonString_def)

text \<open>
  The steps of a body, in the form in which a whole body is computed: one bound on the final length
  discharges the side condition of every step.
\<close>

definition texts_ok :: "u8 list option \<Rightarrow> bool" where
  "texts_ok Val \<longleftrightarrow> (\<forall>V. Val = Some V \<longrightarrow> text_ok V)"

named_theorems json_steps \<open>appending to a body that has room\<close>

lemma append_step [json_steps]:
  "ascii_lib_ok L \<Longrightarrow> texts_ok Val \<Longrightarrow> length b + length (option_member Name Val) < 1024 \<Longrightarrow>
   AppendJsonString L b 1024 Name Val = Some (b @ option_member Name Val)"
  by (auto simp: texts_ok_def intro!: AppendJsonString_fits)

lemma number_step [json_steps]:
  "ascii_lib_ok L \<Longrightarrow> unat Val < 2 ^ 31 \<Longrightarrow> length Name \<le> 17 \<Longrightarrow> length b + length (number_member Name Val) < 1024 \<Longrightarrow>
   AppendJsonNumber L b 1024 Name Val = b @ number_member Name Val"
  by (rule AppendJsonNumber_fits)

lemma cat_step [json_steps]:
  "ascii_lib_ok L \<Longrightarrow> length b + length t < 1024 \<Longrightarrow> AsciiStrCatS L 1024 b t = b @ t"
  by (rule StrCatS_fits)

definition speeds_member :: "nat \<Rightarrow> u8 list" where
  \<open>speeds_member r = (if r = 0 then [] else ascii '',"AllowedSpeedsMHz":['' @ dec_nat r @ ascii '']'')\<close>

text \<open>What the collector guarantees of a module: 64-byte fields, type names from the table, narrow numbers.\<close>

definition module_narrow :: "memory_module \<Rightarrow> bool" where
  "module_narrow M \<longleftrightarrow> module_ok M \<and>
     (\<exists>t. MemoryDeviceType M = RedfishMemoryDeviceType t) \<and> (\<exists>f. BaseModuleType M = RedfishBaseModuleType f) \<and>
     unat (CapacityMiB M) < 2 ^ 31 \<and> unat (mem_OperatingSpeedMhz M) < 65536 \<and> unat (RatedSpeedMhz M) < 65536"

lemma describes_narrow:
  assumes "describes_dimm st M" "module_ok M"
  shows "module_narrow M"
  using assms dimm_mib_less [of st] unsigned_less [of "st_u16 st 0x15", where ?'a = nat]
    unsigned_less [of "st_u16 st 0x20", where ?'a = nat]
  by (auto simp: describes_dimm_def module_narrow_def)

definition memory_members :: "memory_module \<Rightarrow> u8 list" where
  "memory_members M = option_member ''DeviceLocator'' (Some (DeviceLocator M)) @ option_member ''Name'' (Some (DeviceLocator M)) @
     option_member ''Manufacturer'' (Some (mem_Manufacturer M)) @ option_member ''SerialNumber'' (Some (mem_SerialNumber M)) @
     option_member ''PartNumber'' (Some (mem_PartNumber M)) @ option_member ''MemoryDeviceType'' (MemoryDeviceType M) @
     option_member ''BaseModuleType'' (BaseModuleType M) @ number_member ''CapacityMiB'' (CapacityMiB M) @
     number_member ''OperatingSpeedMhz'' (mem_OperatingSpeedMhz M) @ number_member ''DataWidthBits'' (ucast (DataWidthBits M)) @
     number_member ''BusWidthBits'' (ucast (BusWidthBits M)) @ speeds_member (unat (RatedSpeedMhz M))"

abbreviation memory_head :: "print_item list" where
  \<open>memory_head \<equiv> [Lit ''{"@odata.type":"#Memory.v1_7_1.Memory"'',
     Lit '',"Status":{"State":"Enabled","Health":"OK"}'', Lit '',"MemoryType":"DRAM"'']\<close>

lemma module_types:
  assumes "module_narrow M"
  shows "length (option_member ''MemoryDeviceType'' (MemoryDeviceType M)) \<le> 46"
    "length (option_member ''BaseModuleType'' (BaseModuleType M)) \<le> 34"
    "texts_ok (MemoryDeviceType M)" "texts_ok (BaseModuleType M)"
proof -
  obtain t f where tf: "MemoryDeviceType M = RedfishMemoryDeviceType t" "BaseModuleType M = RedfishBaseModuleType f"
    using assms by (auto simp: module_narrow_def)
  show "length (option_member ''MemoryDeviceType'' (MemoryDeviceType M)) \<le> 46"
    "length (option_member ''BaseModuleType'' (BaseModuleType M)) \<le> 34"
    "texts_ok (MemoryDeviceType M)" "texts_ok (BaseModuleType M)"
    using device_type_text(1) [of t] device_type_text(2) [of f] length_option_member [of _ 12 "''MemoryDeviceType''"]
      length_option_member [of _ 7 "''BaseModuleType''"]
    unfolding tf by (cases "RedfishMemoryDeviceType t"; cases "RedfishBaseModuleType f"; force simp: text_ok_def texts_ok_def)+
qed

lemma module_narrow_fields:
  assumes "module_narrow M"
  shows "unat (CapacityMiB M) < 2 ^ 31" "unat (mem_OperatingSpeedMhz M) < 65536" "unat (RatedSpeedMhz M) < 65536"
    "unat (ucast (DataWidthBits M) :: u32) < 65536" "unat (ucast (BusWidthBits M) :: u32) < 65536"
    "V \<in> {DeviceLocator M, mem_Manufacturer M, mem_SerialNumber M, mem_PartNumber M} \<Longrightarrow> text_ok V"
  using assms unsigned_less [of "DataWidthBits M", where ?'a = nat] unsigned_less [of "BusWidthBits M", where ?'a = nat]
  by (auto simp: module_narrow_def module_ok_def intro: field_text_ok)

lemma length_memory_head: "length (print_text memory_head) = 101"
  by (simp add: print_text_def)

lemma memory_room:
  assumes "module_narrow M"
  shows "length (print_text memory_head) + length (memory_members M) + 1 < 1024"
proof -
  note narrow = module_narrow_fields [OF assms]
  have strs: "length (option_member n (Some V)) \<le> length n + 132"
    if "V \<in> {DeviceLocator M, mem_Manufacturer M, mem_SerialNumber M, mem_PartNumber M}" for n V
    using length_string_member [of V n] narrow(6) that by (simp add: option_member_def)
  have "length (speeds_member (unat (RatedSpeedMhz M))) \<le> 27"
    using length_dec_nat [of 5 "unat (RatedSpeedMhz M)"] narrow(3) by (simp add: speeds_member_def)
  then show ?thesis
    using module_types(1,2) [OF assms] length_number_member [of "''CapacityMiB''" "CapacityMiB M"]
      length_number_member_u16 [OF narrow(2), of "''OperatingSpeedMhz''"]
      length_number_member_u16 [OF narrow(4), of "''DataWidthBits''"]
      length_number_member_u16 [OF narrow(5), of "''BusWidthBits''"]
      strs [of "DeviceLocator M" "''DeviceLocator''"] strs [of "DeviceLocator M" "''Name''"]
      strs [of "mem_Manufacturer M" "''Manufacturer''"] strs [of "mem_SerialNumber M" "''SerialNumber''"]
      strs [of "mem_PartNumber M" "''PartNumber''"]
    by (simp add: memory_members_def length_memory_head)
qed

lemma speeds_step:
  fixes r :: u32
  assumes "ascii_lib_ok L" "unat r < 65536" "length b + length (speeds_member (unat r)) < 1024"
  shows \<open>(if r = 0 then b else AsciiStrCatS L 1024 b (AsciiSPrint L 48
      [Lit '',"AllowedSpeedsMHz":['', Dec (sint r), Lit '']''])) = b @ speeds_member (unat r)\<close>
proof (cases "r = 0")
  case False
  have "length (speeds_member (unat r)) \<le> 27"
    using length_dec_nat [of 5 "unat r"] assms(2) by (simp add: speeds_member_def)
  moreover have \<open>print_text [Lit '',"AllowedSpeedsMHz":['', Dec (sint r), Lit '']''] = speeds_member (unat r)\<close>
    using False assms(2) sint_small [of r] by (simp add: print_text_def speeds_member_def dec_int_def unat_eq_0)
  ultimately show ?thesis
    using False assms(3) SPrint_fits [OF assms(1)] cat_step [OF assms(1)] by simp
qed (simp add: speeds_member_def)

lemma memory_post_text:
  assumes "ascii_lib_ok L" "module_narrow M"
  shows "NucRedfishBuildMemoryPost L True (Some M) True =
    Some (EFI_SUCCESS, Some (print_text memory_head @ memory_members M @ ascii ''}''))"
proof -
  note narrow = module_narrow_fields [OF assms(2)]
  have print: "AsciiSPrint L 1024 memory_head = print_text memory_head"
    using length_memory_head by (intro SPrint_fits [OF assms(1)]) simp
  have "texts_ok (Some (DeviceLocator M))" "texts_ok (Some (mem_Manufacturer M))"
    "texts_ok (Some (mem_SerialNumber M))" "texts_ok (Some (mem_PartNumber M))"
    using narrow(6) by (simp_all add: texts_ok_def)
  then show ?thesis
    using memory_room [OF assms(2)] module_types(3,4) [OF assms(2)] narrow(1-5) assms(1)
    by (simp add: NucRedfishBuildMemoryPost_def NUC_REDFISH_JSON_MAX_def print memory_members_def Let_def
        speeds_step json_steps)
qed

definition speeds_entry :: "nat \<Rightarrow> (u8 list \<times> json) list" where
  "speeds_entry r = (if r = 0 then [] else [(ascii ''AllowedSpeedsMHz'', JArr [JNum r])])"

definition memory_entries :: "memory_module \<Rightarrow> (u8 list \<times> json) list" where
  "memory_entries M = string_entry ''DeviceLocator'' (Some (DeviceLocator M)) @ string_entry ''Name'' (Some (DeviceLocator M)) @
     string_entry ''Manufacturer'' (Some (mem_Manufacturer M)) @ string_entry ''SerialNumber'' (Some (mem_SerialNumber M)) @
     string_entry ''PartNumber'' (Some (mem_PartNumber M)) @ string_entry ''MemoryDeviceType'' (MemoryDeviceType M) @
     string_entry ''BaseModuleType'' (BaseModuleType M) @ number_entry ''CapacityMiB'' (CapacityMiB M) @
     number_entry ''OperatingSpeedMhz'' (mem_OperatingSpeedMhz M) @ number_entry ''DataWidthBits'' (ucast (DataWidthBits M)) @
     number_entry ''BusWidthBits'' (ucast (BusWidthBits M)) @ speeds_entry (unat (RatedSpeedMhz M))"

lemma open_speeds: "open_object b ms \<Longrightarrow> open_object (b @ speeds_member r) (ms @ speeds_entry r)"
  using members_speeds [of b ms r] by (simp add: speeds_member_def speeds_entry_def)

lemma memory_open:
  assumes "module_narrow M" "open_object b ms"
    and "\<forall>V \<in> {DeviceLocator M, mem_Manufacturer M, mem_SerialNumber M, mem_PartNumber M}. ascii7 V"
  shows "open_object (b @ memory_members M) (ms @ memory_entries M)"
proof -
  obtain t f where tf: "MemoryDeviceType M = RedfishMemoryDeviceType t" "BaseModuleType M = RedfishBaseModuleType f"
    using assms(1) by (auto simp: module_narrow_def)
  have a: "ascii7 V" if "MemoryDeviceType M = Some V \<or> BaseModuleType M = Some V" for V
    using that device_type_text(1) [of t] device_type_text(2) [of f] by (auto simp: tf)
  have "open_object ((((((((((((b @ option_member ''DeviceLocator'' (Some (DeviceLocator M))) @
      option_member ''Name'' (Some (DeviceLocator M))) @ option_member ''Manufacturer'' (Some (mem_Manufacturer M))) @
      option_member ''SerialNumber'' (Some (mem_SerialNumber M))) @ option_member ''PartNumber'' (Some (mem_PartNumber M))) @
      option_member ''MemoryDeviceType'' (MemoryDeviceType M)) @ option_member ''BaseModuleType'' (BaseModuleType M)) @
      number_member ''CapacityMiB'' (CapacityMiB M)) @ number_member ''OperatingSpeedMhz'' (mem_OperatingSpeedMhz M)) @
      number_member ''DataWidthBits'' (ucast (DataWidthBits M))) @ number_member ''BusWidthBits'' (ucast (BusWidthBits M))) @
      speeds_member (unat (RatedSpeedMhz M)))
    ((((((((((((ms @ string_entry ''DeviceLocator'' (Some (DeviceLocator M))) @
      string_entry ''Name'' (Some (DeviceLocator M))) @ string_entry ''Manufacturer'' (Some (mem_Manufacturer M))) @
      string_entry ''SerialNumber'' (Some (mem_SerialNumber M))) @ string_entry ''PartNumber'' (Some (mem_PartNumber M))) @
      string_entry ''MemoryDeviceType'' (MemoryDeviceType M)) @ string_entry ''BaseModuleType'' (BaseModuleType M)) @
      number_entry ''CapacityMiB'' (CapacityMiB M)) @ number_entry ''OperatingSpeedMhz'' (mem_OperatingSpeedMhz M)) @
      number_entry ''DataWidthBits'' (ucast (DataWidthBits M))) @ number_entry ''BusWidthBits'' (ucast (BusWidthBits M))) @
      speeds_entry (unat (RatedSpeedMhz M)))"
    using assms(2,3) a by (intro open_speeds open_number open_string) (auto simp: plain_char.simps)
  then show ?thesis
    by (simp add: memory_members_def memory_entries_def)
qed

text \<open>
  C32: a collected DIMM is reported completely.  For every module the collector makes of a
  well-formed structure with 7-bit strings, the POST body fits its 1024 bytes and is a JSON object
  with the schema, status and memory type followed by exactly the module's non-empty strings and
  non-zero numbers.
\<close>

theorem memory_post_json:
  assumes "ascii_lib_ok L" "describes_dimm st M" "module_ok M"
    and "\<forall>V \<in> {DeviceLocator M, mem_Manufacturer M, mem_SerialNumber M, mem_PartNumber M}. ascii7 V"
  shows "\<exists>Body. NucRedfishBuildMemoryPost L True (Some M) True = Some (EFI_SUCCESS, Some Body) \<and>
    length Body < 1024 \<and>
    json_text Body (JObj ([(ascii ''@odata.type'', str_val ''#Memory.v1_7_1.Memory''), (ascii ''Status'', status_ok ''Enabled''),
      (ascii ''MemoryType'', str_val ''DRAM'')] @ memory_entries M))"
proof -
  have M: "module_narrow M"
    using assms(2,3) by (rule describes_narrow)
  from close_object [OF memory_open [OF M memory_base assms(4)]] show ?thesis
    using memory_post_text [OF assms(1) M] memory_room [OF M] by simp
qed

theorem memory_post_json_witness:
  "\<exists>M Body. describes_dimm demo_dimm M \<and>
    NucRedfishBuildMemoryPost edk2_lib True (Some M) True = Some (EFI_SUCCESS, Some Body) \<and> length Body < 1024"
proof -
  have "st_formatted demo_dimm ! 0 = 17" "0 < dimm_mib demo_dimm"
    by (simp_all add: demo_dimm_def dimm_mib_def st_u16_def from_le16_def)
  with memory_device_spec [OF demo_dimm_ok] obtain M where M: "describes_dimm demo_dimm M" "module_ok M"
    by auto
  have "cstr (DeviceLocator M) = ascii ''A''" "cstr (mem_Manufacturer M) = ascii ''Kingston''"
    "cstr (mem_SerialNumber M) = []" "cstr (mem_PartNumber M) = ascii ''KVR''"
    using M(1) by (simp_all add: describes_dimm_def st_string_def demo_dimm_def)
  then have "\<forall>V \<in> {DeviceLocator M, mem_Manufacturer M, mem_SerialNumber M, mem_PartNumber M}. ascii7 V"
    by (simp add: ascii7_def ascii_def)
  from memory_post_json [OF edk2_lib_ok M this] M(1) show ?thesis
    by blast
qed

section \<open>The processor body\<close>

abbreviation processor_head :: "bool \<Rightarrow> print_item list" where
  \<open>processor_head e \<equiv> [Lit ''{"@odata.type":"#Processor.v1_14_0.Processor"'', Lit '',"Status":{"State":"'',
     Str (ascii (if e then ''Enabled'' else ''Disabled'')), Lit ''","Health":"OK"}'',
     Lit '',"ProcessorArchitecture":"x86"'', Lit '',"InstructionSet":"x86-64"'']\<close>

definition id_member :: "u8 list \<Rightarrow> u8 list" where
  \<open>id_member V = (if cstr V = [] then []
     else ascii '',"ProcessorId":{"IdentificationRegisters":"'' @ cstr V @ ascii ''"}'')\<close>

definition processor_strings :: "processor \<Rightarrow> u8 list" where
  "processor_strings P = option_member ''ProcessorType'' (ProcessorType P) @ option_member ''Socket'' (Some (Socket P)) @
     option_member ''Name'' (Some (Socket P)) @ option_member ''Manufacturer'' (Some (cpu_Manufacturer P)) @
     option_member ''Model'' (Some (cpu_Model P)) @ option_member ''SerialNumber'' (Some (cpu_SerialNumber P)) @
     option_member ''PartNumber'' (Some (cpu_PartNumber P))"

definition processor_numbers :: "processor \<Rightarrow> u8 list" where
  "processor_numbers P = number_member ''MaxSpeedMHz'' (MaxSpeedMhz P) @
     number_member ''OperatingSpeedMHz'' (cpu_OperatingSpeedMhz P) @ number_member ''TotalCores'' (TotalCores P) @
     number_member ''TotalEnabledCores'' (TotalEnabledCores P) @ number_member ''TotalThreads'' (TotalThreads P)"

text \<open>What the collector guarantees of an entry.\<close>

definition processor_narrow :: "processor \<Rightarrow> bool" where
  "processor_narrow P \<longleftrightarrow> processor_ok P \<and> (\<exists>t. ProcessorType P = RedfishProcessorType t) \<and>
     length (cstr (IdRegisters P)) \<le> 18 \<and>
     (\<forall>n \<in> {MaxSpeedMhz P, cpu_OperatingSpeedMhz P, TotalCores P, TotalEnabledCores P, TotalThreads P}. unat n < 65536)"

lemma processor_type_text:
  "\<forall>V. RedfishProcessorType t = Some V \<longrightarrow> text_ok V \<and> ascii7 V \<and> length (cstr V) \<le> 3"
  by (auto simp: RedfishProcessorType.simps text_ok_def ascii7_def literal_def ascii_def cstr_def terminated_def
      split: if_splits)

lemma processor_texts:
  assumes "processor_narrow P"
  shows "texts_ok (ProcessorType P)" "length (option_member ''ProcessorType'' (ProcessorType P)) \<le> 25"
    "V \<in> {Socket P, cpu_Manufacturer P, cpu_Model P, cpu_SerialNumber P, cpu_PartNumber P} \<Longrightarrow> texts_ok (Some V)"
proof -
  obtain t where t: "ProcessorType P = RedfishProcessorType t"
    using assms by (auto simp: processor_narrow_def)
  show "texts_ok (ProcessorType P)" "length (option_member ''ProcessorType'' (ProcessorType P)) \<le> 25"
    using processor_type_text [of t] length_option_member [of _ 3 "''ProcessorType''"]
    unfolding t by (cases "RedfishProcessorType t"; force simp: texts_ok_def text_ok_def)+
  show "V \<in> {Socket P, cpu_Manufacturer P, cpu_Model P, cpu_SerialNumber P, cpu_PartNumber P} \<Longrightarrow> texts_ok (Some V)"
    using assms by (auto simp: processor_narrow_def processor_ok_def texts_ok_def intro: field_text_ok)
qed

lemma id_step [json_steps]:
  assumes "ascii_lib_ok L" "processor_narrow P" "length b + length (id_member (IdRegisters P)) < 1024"
  shows "append_id L b P = Some (b @ id_member (IdRegisters P))"
proof -
  have P: "IdRegisters P \<noteq> []" "length (cstr (IdRegisters P)) \<le> 18"
    using assms(2) by (simp_all add: processor_narrow_def processor_ok_def)
  moreover have "cstr (IdRegisters P) = [] \<longleftrightarrow> IdRegisters P ! 0 = 0"
    using P(1) by (cases "IdRegisters P") (auto simp: cstr_def)
  ultimately show ?thesis
    using assms(1,3) SPrint_fits [OF assms(1)] cat_step [OF assms(1)]
    by (auto simp: append_id_def NUC_REDFISH_JSON_MAX_def id_member_def print_text_def)
qed

lemma counts_step [json_steps]:
  assumes "ascii_lib_ok L" "processor_narrow P" "length b + length (processor_numbers P) < 1024"
  shows "append_counts L b P = b @ processor_numbers P"
proof -
  have "unat (MaxSpeedMhz P) < 2 ^ 31" "unat (cpu_OperatingSpeedMhz P) < 2 ^ 31" "unat (TotalCores P) < 2 ^ 31"
    "unat (TotalEnabledCores P) < 2 ^ 31" "unat (TotalThreads P) < 2 ^ 31"
    using assms(2) by (auto simp: processor_narrow_def)
  then show ?thesis
    using assms(1,3) by (simp add: append_counts_def NUC_REDFISH_JSON_MAX_def processor_numbers_def number_step)
qed

text \<open>The strings of a processor all fit; what is left are the numbers, the registers and the brace.\<close>

lemma processor_post_strings:
  assumes "ascii_lib_ok L" "processor_narrow P"
    and "length (print_text (processor_head (Enabled P))) + length (processor_strings P) < 1024"
  shows "NucRedfishBuildProcessorPost L True (Some P) True =
    (do { Body \<leftarrow> append_id L (append_counts L (print_text (processor_head (Enabled P)) @ processor_strings P) P) P;
          Some (EFI_SUCCESS, Some (AsciiStrCatS L 1024 Body (ascii ''}''))) })"
proof -
  define h where "h = print_text (processor_head (Enabled P))"
  have print: "AsciiSPrint L 1024 (processor_head (Enabled P)) = h"
    unfolding h_def using assms(3) by (intro SPrint_fits [OF assms(1)]) simp
  have room: "length h + length (processor_strings P) < 1024"
    using assms(3) by (simp only: h_def)
  have "texts_ok (Some (Socket P))" "texts_ok (Some (cpu_Manufacturer P))" "texts_ok (Some (cpu_Model P))"
    "texts_ok (Some (cpu_SerialNumber P))" "texts_ok (Some (cpu_PartNumber P))"
    using processor_texts(3) [OF assms(2)] by simp_all
  then show ?thesis
    unfolding h_def [symmetric] NucRedfishBuildProcessorPost_def NUC_REDFISH_JSON_MAX_def Let_def option.case
      simp_thms if_False print
    using assms(1) room processor_texts(1) [OF assms(2)]
    by (simp add: processor_strings_def append_step)
qed

lemma processor_post_text:
  assumes "ascii_lib_ok L" "processor_narrow P"
    and "length (print_text (processor_head (Enabled P))) + length (processor_strings P) + length (processor_numbers P) +
      length (id_member (IdRegisters P)) + 1 < 1024"
  shows "NucRedfishBuildProcessorPost L True (Some P) True =
    Some (EFI_SUCCESS, Some (print_text (processor_head (Enabled P)) @ processor_strings P @ processor_numbers P @
      id_member (IdRegisters P) @ ascii ''}''))"
proof -
  define h where "h = print_text (processor_head (Enabled P))"
  have room: "length h + length (processor_strings P) + length (processor_numbers P) + length (id_member (IdRegisters P)) + 1 < 1024"
    using assms(3) by (simp only: h_def)
  then have "length h + length (processor_strings P) < 1024" by simp
  note strings = processor_post_strings [OF assms(1,2) this [unfolded h_def], folded h_def]
  show ?thesis
    unfolding h_def [symmetric] strings using assms(1,2) room by (simp add: json_steps)
qed

lemma describes_cpu_narrow:
  assumes "describes_cpu st P" "processor_ok P"
  shows "processor_narrow P"
proof -
  have "cpu_count st n w < 65536" for n w
    using unsigned_less [of "st_u16 st w", where ?'a = nat] unsigned_less [of "st_formatted st ! n", where ?'a = nat]
    by (simp add: cpu_count_def)
  then show ?thesis
    using assms unsigned_less [of "st_u16 st 0x14", where ?'a = nat] unsigned_less [of "st_u16 st 0x16", where ?'a = nat]
    by (auto simp: describes_cpu_def processor_narrow_def)
qed

lemma length_processor_head: "length (print_text (processor_head e)) \<le> 145"
  by (simp add: print_text_def)

lemma processor_room:
  assumes "processor_narrow P"
    and "\<forall>V \<in> {Socket P, cpu_Manufacturer P, cpu_Model P, cpu_SerialNumber P, cpu_PartNumber P}. length (escape (cstr V)) \<le> 63"
  shows "length (print_text (processor_head (Enabled P))) + length (processor_strings P) + length (processor_numbers P) +
      length (id_member (IdRegisters P)) + 1 < 1024"
proof -
  have strs: "length (option_member n (Some V)) \<le> length n + 69"
    if "V \<in> {Socket P, cpu_Manufacturer P, cpu_Model P, cpu_SerialNumber P, cpu_PartNumber P}" for n V
  proof -
    have "length (escape (cstr V)) \<le> 63"
      using assms(2) that by blast
    then show ?thesis
      by (simp add: option_member_def string_member_def)
  qed
  have "length (processor_strings P) \<le> 488"
    using processor_texts(2) [OF assms(1)] strs [of "Socket P" "''Socket''"] strs [of "Socket P" "''Name''"]
      strs [of "cpu_Manufacturer P" "''Manufacturer''"] strs [of "cpu_Model P" "''Model''"]
      strs [of "cpu_SerialNumber P" "''SerialNumber''"] strs [of "cpu_PartNumber P" "''PartNumber''"]
    by (simp add: processor_strings_def)
  moreover have "length (processor_numbers P) \<le> 138"
    using length_number_member [of "''MaxSpeedMHz''" "MaxSpeedMhz P"]
      length_number_member [of "''OperatingSpeedMHz''" "cpu_OperatingSpeedMhz P"]
      length_number_member [of "''TotalCores''" "TotalCores P"]
      length_number_member [of "''TotalEnabledCores''" "TotalEnabledCores P"]
      length_number_member [of "''TotalThreads''" "TotalThreads P"]
    by (simp add: processor_numbers_def)
  moreover have "length (id_member (IdRegisters P)) \<le> 80"
    using assms(1) by (simp add: id_member_def processor_narrow_def)
  ultimately show ?thesis
    using length_processor_head [of "Enabled P"] by linarith
qed

lemma processor_base:
  "open_object (print_text (processor_head e))
     [(ascii ''@odata.type'', str_val ''#Processor.v1_14_0.Processor''),
      (ascii ''Status'', status_ok (if e then ''Enabled'' else ''Disabled'')),
      (ascii ''ProcessorArchitecture'', str_val ''x86''), (ascii ''InstructionSet'', str_val ''x86-64'')]"
proof -
  define s where "s = (if e then ''Enabled'' else ''Disabled'')"
  have s: "list_all plain_char s"
    by (simp add: s_def plain_char.simps)
  have "json_members ([0x22] @ ascii ''@odata.type'' @ [0x22, 0x3a] @ [0x22] @ ascii ''#Processor.v1_14_0.Processor'' @ [0x22])
      [(ascii ''@odata.type'', str_val ''#Processor.v1_14_0.Processor'')]"
    by (intro members_one json_chars_plain text_plain) (simp_all add: plain_char.simps)
  from members_more [OF members_more [OF members_more [OF this json_chars_plain status_text [OF s]]
        json_chars_plain text_plain] json_chars_plain text_plain,
      of "''Status''" "''ProcessorArchitecture''" "''x86''" "''InstructionSet''" "''x86-64''"]
  show ?thesis
    unfolding s_def [symmetric] by (simp add: open_object_def print_text_def ascii_def plain_char.simps)
qed

definition id_entry :: "u8 list \<Rightarrow> (u8 list \<times> json) list" where
  "id_entry V = (if cstr V = [] then []
     else [(ascii ''ProcessorId'', JObj [(ascii ''IdentificationRegisters'', JStr (cstr V))])])"

lemma open_id:
  assumes "open_object b ms" "json_chars (cstr V) (cstr V)"
  shows "open_object (b @ id_member V) (ms @ id_entry V)"
proof (cases "cstr V = []")
  case False
  obtain m where m: "b = [0x7b] @ m" "json_members m ms"
    using assms(1) by (auto simp: open_object_def)
  have "json_members ([0x22] @ ascii ''IdentificationRegisters'' @ [0x22, 0x3a] @ [0x22] @ cstr V @ [0x22])
      [(ascii ''IdentificationRegisters'', JStr (cstr V))]"
    using assms(2) by (intro members_one json_chars_plain text_string) (simp_all add: plain_char.simps)
  from members_more [OF m(2) json_chars_plain text_object [OF this], of "''ProcessorId''"] show ?thesis
    using False m(1) by (simp add: open_object_def id_member_def id_entry_def ascii_def plain_char.simps)
qed (use assms(1) in \<open>simp add: id_member_def id_entry_def\<close>)

definition processor_entries :: "processor \<Rightarrow> (u8 list \<times> json) list" where
  "processor_entries P = string_entry ''ProcessorType'' (ProcessorType P) @ string_entry ''Socket'' (Some (Socket P)) @
     string_entry ''Name'' (Some (Socket P)) @ string_entry ''Manufacturer'' (Some (cpu_Manufacturer P)) @
     string_entry ''Model'' (Some (cpu_Model P)) @ string_entry ''SerialNumber'' (Some (cpu_SerialNumber P)) @
     string_entry ''PartNumber'' (Some (cpu_PartNumber P)) @ number_entry ''MaxSpeedMHz'' (MaxSpeedMhz P) @
     number_entry ''OperatingSpeedMHz'' (cpu_OperatingSpeedMhz P) @ number_entry ''TotalCores'' (TotalCores P) @
     number_entry ''TotalEnabledCores'' (TotalEnabledCores P) @ number_entry ''TotalThreads'' (TotalThreads P) @
     id_entry (IdRegisters P)"

definition json_plain :: "u8 \<Rightarrow> bool" where
  "json_plain c \<longleftrightarrow> 0x20 \<le> c \<and> c < 0x80 \<and> c \<noteq> 0x22 \<and> c \<noteq> 0x5c"

lemma json_chars_self: "list_all json_plain v \<Longrightarrow> json_chars v v"
  by (induction v) (auto simp: json_plain_def intro: json_chars.intros)

lemma hex_digit_plain: "d < 16 \<Longrightarrow> json_plain (hex_digit d)"
  by (auto simp: json_plain_def hex_digit_def word_unat_eq_iff word_le_nat_alt word_less_nat_alt unat_word_ariths unat_of_nat)

lemma hex_text_plain: "list_all json_plain (hex_text w n)"
  by (induction w n rule: hex_text.induct) (auto simp: hex_digit_plain)

lemma id_registers_plain:
  assumes "describes_cpu st P"
  shows "json_chars (cstr (IdRegisters P)) (cstr (IdRegisters P))"
proof (rule json_chars_self)
  have "list_all json_plain (ascii ''0x'')"
    by (simp add: ascii_def json_plain_def)
  then show "list_all json_plain (cstr (IdRegisters P))"
    using assms hex_text_plain by (simp add: describes_cpu_def)
qed

lemma processor_open:
  assumes "describes_cpu st P" "open_object b ms"
    and "\<forall>V \<in> {Socket P, cpu_Manufacturer P, cpu_Model P, cpu_SerialNumber P, cpu_PartNumber P}. ascii7 V"
  shows "open_object (b @ processor_strings P @ processor_numbers P @ id_member (IdRegisters P)) (ms @ processor_entries P)"
proof -
  have "ProcessorType P = RedfishProcessorType (st_formatted st ! 5)"
    using assms(1) by (simp add: describes_cpu_def)
  then have a: "ascii7 V" if "ProcessorType P = Some V" for V
    using that processor_type_text [of "st_formatted st ! 5"] by simp
  have "open_object (((((((((((((b @ option_member ''ProcessorType'' (ProcessorType P)) @ option_member ''Socket'' (Some (Socket P))) @
      option_member ''Name'' (Some (Socket P))) @ option_member ''Manufacturer'' (Some (cpu_Manufacturer P))) @
      option_member ''Model'' (Some (cpu_Model P))) @ option_member ''SerialNumber'' (Some (cpu_SerialNumber P))) @
      option_member ''PartNumber'' (Some (cpu_PartNumber P))) @ number_member ''MaxSpeedMHz'' (MaxSpeedMhz P)) @
      number_member ''OperatingSpeedMHz'' (cpu_OperatingSpeedMhz P)) @ number_member ''TotalCores'' (TotalCores P)) @
      number_member ''TotalEnabledCores'' (TotalEnabledCores P)) @ number_member ''TotalThreads'' (TotalThreads P)) @
      id_member (IdRegisters P))
    (((((((((((((ms @ string_entry ''ProcessorType'' (ProcessorType P)) @ string_entry ''Socket'' (Some (Socket P))) @
      string_entry ''Name'' (Some (Socket P))) @ string_entry ''Manufacturer'' (Some (cpu_Manufacturer P))) @
      string_entry ''Model'' (Some (cpu_Model P))) @ string_entry ''SerialNumber'' (Some (cpu_SerialNumber P))) @
      string_entry ''PartNumber'' (Some (cpu_PartNumber P))) @ number_entry ''MaxSpeedMHz'' (MaxSpeedMhz P)) @
      number_entry ''OperatingSpeedMHz'' (cpu_OperatingSpeedMhz P)) @ number_entry ''TotalCores'' (TotalCores P)) @
      number_entry ''TotalEnabledCores'' (TotalEnabledCores P)) @ number_entry ''TotalThreads'' (TotalThreads P)) @
      id_entry (IdRegisters P))"
    using assms(2,3) a id_registers_plain [OF assms(1)]
    by (intro open_id open_number open_string) (auto simp: plain_char.simps)
  then show ?thesis
    by (simp add: processor_strings_def processor_numbers_def processor_entries_def)
qed

text \<open>
  C33: a collected processor is reported completely when its escaped strings are no longer than the
  fields they come from (no quote or backslash, or shorter text): the POST body is then a JSON
  object with the schema, status and architecture followed by exactly the non-empty strings, the
  non-zero numbers and the identification registers.
\<close>

theorem processor_post_json:
  assumes "ascii_lib_ok L" "describes_cpu st P" "processor_ok P"
    and "\<forall>V \<in> {Socket P, cpu_Manufacturer P, cpu_Model P, cpu_SerialNumber P, cpu_PartNumber P}.
           ascii7 V \<and> length (escape (cstr V)) \<le> 63"
  shows "\<exists>Body. NucRedfishBuildProcessorPost L True (Some P) True = Some (EFI_SUCCESS, Some Body) \<and>
    json_text Body (JObj ([(ascii ''@odata.type'', str_val ''#Processor.v1_14_0.Processor''),
      (ascii ''Status'', status_ok (if Enabled P then ''Enabled'' else ''Disabled'')),
      (ascii ''ProcessorArchitecture'', str_val ''x86''), (ascii ''InstructionSet'', str_val ''x86-64'')] @
      processor_entries P))"
proof -
  have P: "processor_narrow P"
    using assms(2,3) by (rule describes_cpu_narrow)
  have esc: "\<forall>V \<in> {Socket P, cpu_Manufacturer P, cpu_Model P, cpu_SerialNumber P, cpu_PartNumber P}. length (escape (cstr V)) \<le> 63"
    and a7: "\<forall>V \<in> {Socket P, cpu_Manufacturer P, cpu_Model P, cpu_SerialNumber P, cpu_PartNumber P}. ascii7 V"
    using assms(4) by blast+
  from close_object [OF processor_open [OF assms(2) processor_base a7]] show ?thesis
    using processor_post_text [OF assms(1) P processor_room [OF P esc]] by (simp only: append_assoc) blast
qed

theorem processor_post_json_witness:
  "\<exists>P Body. describes_cpu demo_cpu P \<and>
    NucRedfishBuildProcessorPost edk2_lib True (Some P) True = Some (EFI_SUCCESS, Some Body)"
proof -
  have "st_formatted demo_cpu ! 0 = 4" "st_formatted demo_cpu ! 0x18 AND 0x40 \<noteq> 0" "struct_ok demo_cpu"
    by (simp_all add: demo_cpu_def struct_ok_def ascii_def encode_struct_def)
  with processor_socket_spec [OF edk2_lib_ok] obtain P where P: "describes_cpu demo_cpu P" "processor_ok P"
    by auto
  have "cstr (Socket P) = ascii ''U3E1''" "cstr (cpu_Manufacturer P) = ascii ''Intel''"
    "cstr (cpu_Model P) = ascii ''i7-5557U''" "cstr (cpu_SerialNumber P) = []" "cstr (cpu_PartNumber P) = []"
    using P(1) by (simp_all add: describes_cpu_def st_string_def demo_cpu_def)
  then have "\<forall>V \<in> {Socket P, cpu_Manufacturer P, cpu_Model P, cpu_SerialNumber P, cpu_PartNumber P}.
      ascii7 V \<and> length (escape (cstr V)) \<le> 63"
    by (simp add: ascii7_def ascii_def escape_char_def)
  from processor_post_json [OF edk2_lib_ok P this] P(1) show ?thesis
    by blast
qed

text \<open>A processor whose strings are all quotes: every escaped string is twice its field.\<close>

definition quoted :: "u8 list" where
  "quoted = replicate 63 0x22 @ [0]"

definition noisy_cpu :: processor where
  "noisy_cpu = zero_processor\<lparr>Socket := quoted, cpu_Manufacturer := quoted, cpu_Model := quoted,
     cpu_SerialNumber := quoted, cpu_PartNumber := quoted, ProcessorType := RedfishProcessorType 3,
     MaxSpeedMhz := 3100, TotalCores := 10, Enabled := True\<rparr>"

lemma quoted_text: "cstr quoted = replicate 63 0x22" "length quoted = 64" "terminated quoted"
  by (simp_all add: quoted_def terminated_def)

lemma length_quoted_member: "length (option_member n (Some quoted)) = length n + 132"
proof -
  have "length (escape (replicate k 0x22)) = 2 * k" for k
    by (induction k) (simp_all add: escape_char_def)
  then show ?thesis
    by (simp add: option_member_def string_member_def quoted_text)
qed

lemma noisy_narrow: "processor_narrow noisy_cpu"
  by (auto simp: processor_narrow_def processor_ok_def noisy_cpu_def quoted_text zero_processor_def)

lemma noisy_strings: "length (print_text (processor_head True)) = 144" "length (processor_strings noisy_cpu) = 863"
proof -
  show "length (print_text (processor_head True)) = 144"
    by (simp add: print_text_def)
  have "length (option_member ''ProcessorType'' (RedfishProcessorType 3)) = 22"
    by (simp add: RedfishProcessorType.simps option_member_def string_member_def literal_def ascii_def cstr_def escape_char_def)
  then show "length (processor_strings noisy_cpu) = 863"
    by (simp add: processor_strings_def noisy_cpu_def length_quoted_member)
qed

lemma noisy_counts:
  assumes "length b = 1007"
  shows \<open>append_counts edk2_lib b noisy_cpu = b @ ascii '',"TotalCores":10''\<close>
proof -
  have n: "dec_int 3100 = ascii ''3100''" "dec_int 10 = ascii ''10''"
    by (simp_all add: dec_int_def dec_nat.simps ascii_def)
  have "AppendJsonNumber edk2_lib b 1024 ''MaxSpeedMHz'' 3100 = b"
    using assms by (simp add: AppendJsonNumber_def edk2_lib_def print_text_def n)
  moreover have \<open>AppendJsonNumber edk2_lib b 1024 ''TotalCores'' 10 = b @ ascii '',"TotalCores":10''\<close>
    using assms by (simp add: AppendJsonNumber_def edk2_lib_def print_text_def n) (simp add: ascii_def)
  ultimately show ?thesis
    by (simp add: append_counts_def NUC_REDFISH_JSON_MAX_def noisy_cpu_def zero_processor_def AppendJsonNumber_def [of _ _ _ _ 0])
qed

text \<open>
  A processor's body is not always complete.  The 1024-byte buffer is too small for the longest
  strings the fields can hold once they are escaped; the appends that do not fit are dropped, and
  for this processor the closing brace is among them, so the body that is reported as built is not
  a JSON text.
\<close>

theorem processor_post_unclosed:
  "\<exists>Body. NucRedfishBuildProcessorPost edk2_lib True (Some noisy_cpu) True = Some (EFI_SUCCESS, Some Body) \<and>
    length Body = 1023 \<and> last Body \<noteq> 0x7d"
proof -
  define h where "h = print_text (processor_head (Enabled noisy_cpu))"
  let ?b = "h @ processor_strings noisy_cpu"
  have "Enabled noisy_cpu" by (simp add: noisy_cpu_def)
  then have len: "length h = 144" "length ?b = 1007"
    by (simp_all only: h_def length_append noisy_strings)
  have id: "append_id edk2_lib b noisy_cpu = Some b" for b
    by (simp add: append_id_def noisy_cpu_def zero_processor_def)
  have brace: \<open>AsciiStrCatS edk2_lib 1024 (?b @ ascii '',"TotalCores":10'') (ascii ''}'') = ?b @ ascii '',"TotalCores":10''\<close>
    by (rule StrCatS_full [OF edk2_lib_ok]) (simp add: len noisy_strings)
  have "length h + length (processor_strings noisy_cpu) < 1024"
    by (simp add: len noisy_strings)
  note strings = processor_post_strings [OF edk2_lib_ok noisy_narrow this [unfolded h_def], folded h_def]
  have \<open>NucRedfishBuildProcessorPost edk2_lib True (Some noisy_cpu) True =
      Some (EFI_SUCCESS, Some (?b @ ascii '',"TotalCores":10''))\<close>
    unfolding strings noisy_counts [OF len(2)] id Option.bind.simps brace ..
  then show ?thesis
    by (simp add: len noisy_strings ascii_def)
qed

end
