(* ===== verification/DriveInventory.thy ===== *)
theory DriveInventory
  imports InventoryJson
begin

text \<open>
  The drive half of NucRedfishSyncDxe/NucRedfishInventory.c: the fixed-width strings of identify
  data, the identity of an NVMe and of an ATA drive, the collection over the disk-info handles, and
  the body reported for a drive.  A handle is the record of the answers its protocols give in one
  turn of the collection loop, which asks each of them at most once, so nothing relates the answers
  of one handle to those of another.  The interface GUIDs are constants of the firmware's protocol
  library and a parameter.
\<close>

section \<open>Identify strings\<close>

text \<open>The copy with the byte swap of ATA undone; None is an access outside a buffer.\<close>

function identify_copy :: "u8 list \<Rightarrow> u8 list \<Rightarrow> bool \<Rightarrow> nat \<Rightarrow> nat \<Rightarrow> u8 list option" where
  "identify_copy Dest Source SwapPairs Length Index =
     (if Index < Length then do {
        c \<leftarrow> byte_at Source (if SwapPairs then Index XOR 1 else Index);
        Dest \<leftarrow> poke Dest Index c;
        identify_copy Dest Source SwapPairs Length (Index + 1)
      }
      else Some Dest)"
  by pat_completeness auto

termination
  by (relation "measure (\<lambda>(_, _, _, n, i). n - i)") auto

declare identify_copy.simps [simp del]

fun trim_tail :: "u8 list \<Rightarrow> nat \<Rightarrow> nat option" where
  "trim_tail Dest 0 = Some 0"
| "trim_tail Dest (Suc n) = do { c \<leftarrow> byte_at Dest n; if c \<le> 0x20 then trim_tail Dest n else Some (Suc n) }"

fun skip_spaces :: "u8 list \<Rightarrow> nat option" where
  "skip_spaces [] = None"
| "skip_spaces (c # cs) = (if c = 0x20 then map_option Suc (skip_spaces cs) else Some 0)"

definition CopyIdentifyString :: "u8 list \<Rightarrow> nat \<Rightarrow> u8 list \<Rightarrow> nat \<Rightarrow> bool \<Rightarrow> u8 list option" where
  "CopyIdentifyString Dest DestSize Source SourceLen SwapPairs =
     (if DestSize = 0 then Some Dest
      else do {
        let Length = (if DestSize \<le> SourceLen then DestSize - 1 else SourceLen);
        Dest \<leftarrow> identify_copy Dest Source SwapPairs Length 0;
        Length \<leftarrow> trim_tail Dest Length;
        Dest \<leftarrow> poke Dest Length 0;
        Start \<leftarrow> skip_spaces Dest;
        if 0 < Start then CopyMem Dest (drop Start Dest) (Length - Start + 1) else Some Dest
      })"

section \<open>Drives\<close>

record drive =
  drv_Model :: "u8 list"
  drv_SerialNumber :: "u8 list"
  Revision :: "u8 list"
  Protocol :: "u8 list option"
  MediaType :: "u8 list option"
  CapacityBytes :: u64

definition zero_drive :: drive where
  "zero_drive = \<lparr>drv_Model = zero_field, drv_SerialNumber = zero_field, Revision = zero_field,
     Protocol = None, MediaType = None, CapacityBytes = 0\<rparr>"

record disk_guids =
  gEfiDiskInfoNvmeInterfaceGuid :: efi_guid
  gEfiDiskInfoAhciInterfaceGuid :: efi_guid
  gEfiDiskInfoIdeInterfaceGuid :: efi_guid

record nvme_data =
  Mn :: "u8 list"
  Sn :: "u8 list"
  Fr :: "u8 list"

record ata_data =
  ModelName :: "u8 list"
  SerialNo :: "u8 list"
  FirmwareVer :: "u8 list"
  nominal_media_rotation_rate :: u16

record block_media =
  MediaPresent :: bool
  LastBlock :: u64
  BlockSize :: u32

text \<open>
  The answers of one handle: the disk-info protocol and its interface, the device path, the
  pass-thru controller on it and the result of the identify command, the ATA identify data, and the
  block-io protocol with its media (None is a null pointer).
\<close>

record disk_handle =
  DiskInfo :: efi_status
  Interface :: efi_guid
  DevicePath :: efi_status
  LocateDevicePath :: efi_status
  Passthru :: efi_status
  PassThru :: "efi_status \<times> nvme_data"
  Identify :: "efi_status \<times> ata_data"
  BlockIo :: efi_status
  Media :: "block_media option"

definition CollectNvmeDrive :: "disk_handle \<Rightarrow> drive \<Rightarrow> (efi_status \<times> drive) option" where
  "CollectNvmeDrive Handle Drive =
     (if EFI_ERROR (DevicePath Handle) then Some (DevicePath Handle, Drive)
      else if EFI_ERROR (LocateDevicePath Handle) then Some (LocateDevicePath Handle, Drive)
      else if EFI_ERROR (Passthru Handle) then Some (Passthru Handle, Drive)
      else (case PassThru Handle of (Status, Data) \<Rightarrow>
        if EFI_ERROR Status then Some (Status, Drive)
        else do {
          m \<leftarrow> CopyIdentifyString (drv_Model Drive) 64 (Mn Data) 40 False;
          s \<leftarrow> CopyIdentifyString (drv_SerialNumber Drive) 64 (Sn Data) 20 False;
          r \<leftarrow> CopyIdentifyString (Revision Drive) 64 (Fr Data) 8 False;
          Some (EFI_SUCCESS, Drive\<lparr>drv_Model := m, drv_SerialNumber := s, Revision := r,
            Protocol := Some (literal ''NVMe''), MediaType := Some (literal ''SSD'')\<rparr>)
        }))"

definition media_type :: "u16 \<Rightarrow> u8 list option \<Rightarrow> u8 list option" where
  "media_type rate Old = (if rate = 1 then Some (literal ''SSD'')
     else if 0x0401 \<le> rate \<and> rate \<le> 0xfffe then Some (literal ''HDD'') else Old)"

definition CollectAtaDrive :: "disk_handle \<Rightarrow> drive \<Rightarrow> (efi_status \<times> drive) option" where
  "CollectAtaDrive Handle Drive =
     (case Identify Handle of (Status, Data) \<Rightarrow>
        if EFI_ERROR Status then Some (Status, Drive)
        else do {
          m \<leftarrow> CopyIdentifyString (drv_Model Drive) 64 (ModelName Data) 40 True;
          s \<leftarrow> CopyIdentifyString (drv_SerialNumber Drive) 64 (SerialNo Data) 20 True;
          r \<leftarrow> CopyIdentifyString (Revision Drive) 64 (FirmwareVer Data) 8 True;
          Some (EFI_SUCCESS, Drive\<lparr>drv_Model := m, drv_SerialNumber := s, Revision := r,
            Protocol := Some (literal ''SATA''),
            MediaType := media_type (nominal_media_rotation_rate Data) (MediaType Drive)\<rparr>)
        })"

text \<open>The search for an earlier drive with the same serial number and model.\<close>

fun find_existing :: "drive \<Rightarrow> drive list \<Rightarrow> bool option" where
  "find_existing Drive [] = Some False"
| "find_existing Drive (E # Es) = do {
     s \<leftarrow> AsciiStrCmp (drv_SerialNumber E) (drv_SerialNumber Drive);
     if s = 0 then do {
       m \<leftarrow> AsciiStrCmp (drv_Model E) (drv_Model Drive);
       if m = 0 then Some True else find_existing Drive Es
     }
     else find_existing Drive Es
   }"

text \<open>The capacity, in 64-bit arithmetic.\<close>

definition drive_capacity :: "disk_handle \<Rightarrow> drive \<Rightarrow> drive" where
  "drive_capacity Handle Drive =
     (case Media Handle of
        Some m \<Rightarrow> if \<not> EFI_ERROR (BlockIo Handle) \<and> MediaPresent m
          then Drive\<lparr>CapacityBytes := (LastBlock m + 1) * ucast (BlockSize m)\<rparr> else Drive
      | None \<Rightarrow> Drive)"

text \<open>
  The identity of the drive behind a handle, written to the slot Drive; None for an interface that
  is skipped.
\<close>

definition collect_identity :: "disk_guids \<Rightarrow> disk_handle \<Rightarrow> drive \<Rightarrow> (efi_status \<times> drive) option option" where
  "collect_identity G Handle Drive =
     (if Interface Handle = gEfiDiskInfoNvmeInterfaceGuid G then map_option Some (CollectNvmeDrive Handle Drive)
      else if Interface Handle = gEfiDiskInfoAhciInterfaceGuid G \<or> Interface Handle = gEfiDiskInfoIdeInterfaceGuid G
      then map_option Some (CollectAtaDrive Handle Drive)
      else Some None)"

text \<open>One turn of the loop over the handles, on the array Drives of which Count slots are used.\<close>

definition collect_turn :: "disk_guids \<Rightarrow> disk_handle \<Rightarrow> drive list \<Rightarrow> nat \<Rightarrow> (drive list \<times> nat) option" where
  "collect_turn G Handle Drives Count =
     (if EFI_ERROR (DiskInfo Handle) then Some (Drives, Count)
      else do {
        Drive \<leftarrow> byte_at Drives Count;
        r \<leftarrow> collect_identity G Handle Drive;
        case r of
          None \<Rightarrow> Some (Drives, Count)
        | Some (Status, Drive) \<Rightarrow> do {
            m \<leftarrow> byte_at (drv_Model Drive) 0;
            s \<leftarrow> byte_at (drv_SerialNumber Drive) 0;
            if EFI_ERROR Status \<or> (m = 0 \<and> s = 0) then Some (Drives[Count := zero_drive], Count)
            else do {
              Existing \<leftarrow> find_existing Drive (take Count Drives);
              if Existing then Some (Drives[Count := zero_drive], Count)
              else Some (Drives[Count := drive_capacity Handle Drive], Count + 1)
            }
          }
      })"

fun drive_loop :: "disk_guids \<Rightarrow> nat \<Rightarrow> disk_handle list \<Rightarrow> drive list \<Rightarrow> nat \<Rightarrow> (drive list \<times> nat) option" where
  "drive_loop G MaxCount [] Drives Count = Some (Drives, Count)"
| "drive_loop G MaxCount (H # Hs) Drives Count =
     (if MaxCount \<le> Count then Some (Drives, Count)
      else do { (Drives, Count) \<leftarrow> collect_turn G H Drives Count; drive_loop G MaxCount Hs Drives Count })"

text \<open>
  Handles is None when the handle search fails; HaveOut: both output pointers are given.  Giving the handle
  buffer back at the end changes none of the results and has no counterpart here.
\<close>

definition NucRedfishCollectDrives ::
  "disk_guids \<Rightarrow> bool \<Rightarrow> nat \<Rightarrow> disk_handle list option \<Rightarrow> (efi_status \<times> drive list \<times> nat) option" where
  "NucRedfishCollectDrives G HaveOut MaxCount Handles =
     (if \<not> HaveOut \<or> MaxCount = 0 then Some (EFI_INVALID_PARAMETER, [], 0)
      else (case Handles of
          None \<Rightarrow> Some (EFI_SUCCESS, replicate MaxCount zero_drive, 0)
        | Some Hs \<Rightarrow> map_option (Pair EFI_SUCCESS) (drive_loop G MaxCount Hs (replicate MaxCount zero_drive) 0)))"

section \<open>The body of a drive\<close>

definition append_capacity :: "ascii_lib \<Rightarrow> u8 list \<Rightarrow> u64 \<Rightarrow> u8 list" where
  \<open>append_capacity L Body Capacity =
     (if Capacity = 0 then Body
      else AsciiStrCatS L NUC_REDFISH_JSON_MAX Body
        (AsciiSPrint L 48 [Lit '',"CapacityBytes":'', Dec (sint Capacity)]))\<close>

definition NucRedfishBuildDrivePost ::
  "ascii_lib \<Rightarrow> bool \<Rightarrow> drive option \<Rightarrow> bool \<Rightarrow> (efi_status \<times> u8 list option) option" where
  \<open>NucRedfishBuildDrivePost L Allocated Drive HaveJson =
     (case Drive of
        None \<Rightarrow> Some (EFI_INVALID_PARAMETER, None)
      | Some D \<Rightarrow>
          if \<not> HaveJson then Some (EFI_INVALID_PARAMETER, None)
          else if \<not> Allocated then Some (EFI_OUT_OF_RESOURCES, None)
          else do {
            let N = NUC_REDFISH_JSON_MAX;
            let Body = AsciiSPrint L N
              [Lit ''{"@odata.type":"#Drive.v1_4_0.Drive"'', Lit '',"Status":{"State":"Enabled","Health":"OK"}''];
            Body \<leftarrow> AppendJsonString L Body N ''Name'' (Some (drv_Model D));
            Body \<leftarrow> AppendJsonString L Body N ''Model'' (Some (drv_Model D));
            Body \<leftarrow> AppendJsonString L Body N ''SerialNumber'' (Some (drv_SerialNumber D));
            Body \<leftarrow> AppendJsonString L Body N ''Revision'' (Some (Revision D));
            Body \<leftarrow> AppendJsonString L Body N ''Protocol'' (Protocol D);
            Body \<leftarrow> (if MediaType D \<noteq> None then AppendJsonString L Body N ''MediaType'' (MediaType D) else Some Body);
            let Body = append_capacity L Body (CapacityBytes D);
            Some (EFI_SUCCESS, Some (AsciiStrCatS L N Body (ascii ''}'')))
          })\<close>

section \<open>Identify strings undone\<close>

fun swap_pairs :: "'a list \<Rightarrow> 'a list" where
  "swap_pairs (a # b # xs) = b # a # swap_pairs xs"
| "swap_pairs xs = xs"

definition unswap :: "bool \<Rightarrow> 'a list \<Rightarrow> 'a list" where
  "unswap s xs = (if s then swap_pairs xs else xs)"

lemma length_swap_pairs [simp]: "length (swap_pairs xs) = length xs"
  by (induction xs rule: swap_pairs.induct) auto

lemma length_unswap [simp]: "length (unswap s xs) = length xs"
  by (simp add: unswap_def)

lemma swap_pairs_twice [simp]: "swap_pairs (swap_pairs xs) = xs"
  by (induction xs rule: swap_pairs.induct) auto

lemma xor_one_step: "Suc (Suc j) XOR 1 = Suc (Suc (j XOR 1 :: nat))"
  using odd_pos [of j] by (auto simp: xor_one_eq simp del: One_nat_def)

lemma nth_swap_pairs:
  "even (length xs) \<Longrightarrow> i < length xs \<Longrightarrow> i XOR 1 < length xs \<and> xs ! (i XOR 1) = swap_pairs xs ! i"
proof (induction xs arbitrary: i rule: swap_pairs.induct)
  case (1 a b xs)
  consider "i = 0" | "i = 1" | j where "i = Suc (Suc j)"
    by (metis One_nat_def not0_implies_Suc)
  then show ?case
  proof cases
    case 3
    then show ?thesis using 1 by (simp add: xor_one_step del: One_nat_def)
  qed (simp_all add: xor_one_eq)
qed auto

lemma identify_copy_spec:
  assumes "s \<longrightarrow> even (length Source)" "n \<le> length Source" "n \<le> length Dest" "i \<le> n"
  shows "identify_copy Dest Source s n i = Some (take i Dest @ take (n - i) (drop i (unswap s Source)) @ drop n Dest)"
  using assms
proof (induction "n - i" arbitrary: i Dest)
  case 0
  then show ?case by (simp add: identify_copy.simps)
next
  case (Suc k)
  let ?c = "unswap s Source ! i"
  have i: "i < n" "i < length Dest" "i < length (unswap s Source)"
    using Suc by auto
  have c: "byte_at Source (if s then i XOR 1 else i) = Some ?c"
    using nth_swap_pairs [of Source i] Suc.prems i by (auto simp: unswap_def)
  have "identify_copy Dest Source s n i = identify_copy (Dest[i := ?c]) Source s n (Suc i)"
    using i c by (simp add: identify_copy.simps [of _ _ _ _ i] poke_def)
  also have "\<dots> = Some (take (Suc i) (Dest[i := ?c]) @ take (n - Suc i) (drop (Suc i) (unswap s Source)) @ drop n (Dest[i := ?c]))"
    using Suc.hyps(2) Suc.prems i by (intro Suc.hyps(1)) auto
  also have "take (Suc i) (Dest[i := ?c]) = take i Dest @ [?c]"
    using i by (simp add: take_Suc_conv_app_nth)
  also have "take (n - i) (drop i (unswap s Source)) = ?c # take (n - Suc i) (drop (Suc i) (unswap s Source))"
    using i take_Suc_drop [of i "unswap s Source" "n - Suc i"] by (simp add: Suc_diff_Suc)
  ultimately show ?case
    using i by (simp del: take_update_cancel)
qed

definition rtrim :: "u8 list \<Rightarrow> u8 list" where
  "rtrim u = rev (dropWhile (\<lambda>c. c \<le> 0x20) (rev u))"

definition trimmed :: "u8 list \<Rightarrow> u8 list" where
  "trimmed u = dropWhile (\<lambda>c. c = 0x20) (rtrim u)"

lemma rtrim_snoc [simp]: "rtrim (u @ [c]) = (if c \<le> 0x20 then rtrim u else u @ [c])"
  by (simp add: rtrim_def)

lemma rtrim_prefix: "\<exists>w. u = rtrim u @ w"
proof (induction u rule: rev_induct)
  case (snoc c u)
  then show ?case by (metis append.assoc append_Nil2 rtrim_snoc)
qed (simp add: rtrim_def)

lemma trim_tail_spec: "n \<le> length D \<Longrightarrow> trim_tail D n = Some (length (rtrim (take n D)))"
proof (induction n)
  case (Suc n)
  then show ?case by (simp add: take_Suc_conv_app_nth)
qed (simp add: rtrim_def)

lemma skip_spaces_spec: "skip_spaces (r @ 0 # rest) = Some (length (takeWhile (\<lambda>c. c = 0x20) r))"
  by (induction r) auto

lemma dropWhile_length: "dropWhile P r = drop (length (takeWhile P r)) r"
  by (induction r) auto

text \<open>The field is read up to the destination's size, unswapped and trimmed, and always terminated.\<close>

lemma CopyIdentifyString_spec:
  assumes "s \<longrightarrow> even (length Source)" "length Source = SourceLen" "0 < DestSize" "DestSize \<le> length Dest"
  shows "\<exists>rest. CopyIdentifyString Dest DestSize Source SourceLen s =
      Some (trimmed (take (DestSize - 1) (unswap s Source)) @ 0 # rest) \<and>
    length (trimmed (take (DestSize - 1) (unswap s Source))) + Suc (length rest) = length Dest"
proof -
  define n where "n = (if DestSize \<le> SourceLen then DestSize - 1 else SourceLen)"
  define u where "u = take (DestSize - 1) (unswap s Source)"
  have n: "n \<le> length Source" "n < length Dest" "length u = n" "take n (unswap s Source) = u"
    using assms by (auto simp: n_def u_def)
  have copy: "identify_copy Dest Source s n 0 = Some (u @ drop n Dest)"
    using identify_copy_spec [of s Source n Dest 0] assms(1) n by simp
  obtain w where w: "u = rtrim u @ w" using rtrim_prefix by blast
  let ?r = "rtrim u"
  have trim: "trim_tail (u @ drop n Dest) n = Some (length ?r)"
    using trim_tail_spec [of n "u @ drop n Dest"] n by simp
  obtain rest where rest: "(u @ drop n Dest)[length ?r := 0] = ?r @ 0 # rest"
  proof -
    have "u @ drop n Dest = ?r @ (w @ drop n Dest)" using w by (metis append.assoc)
    moreover have "w @ drop n Dest \<noteq> []" using n by simp
    ultimately show ?thesis
      using that by (cases "w @ drop n Dest") (simp_all add: list_update_append)
  qed
  have lens: "length ?r < length (u @ drop n Dest)" "length (?r @ 0 # rest) = length Dest"
    using arg_cong [OF w, of length] arg_cong [OF rest, of length] n by simp_all
  let ?k = "length (takeWhile (\<lambda>c. c = 0x20) ?r)"
  have k: "?k \<le> length ?r" by (simp add: length_takeWhile_le)
  have t: "trimmed u = drop ?k ?r" by (simp add: trimmed_def dropWhile_length)
  have "CopyIdentifyString Dest DestSize Source SourceLen s =
      (if 0 < ?k then CopyMem (?r @ 0 # rest) (drop ?k (?r @ 0 # rest)) (length ?r - ?k + 1) else Some (?r @ 0 # rest))"
    using assms(3) lens(1) by (simp add: CopyIdentifyString_def Let_def n_def [symmetric] copy trim poke_def rest skip_spaces_spec)
  then show ?thesis
    unfolding u_def [symmetric] t using k lens(2) by (auto simp: CopyMem_def)
qed

lemma trimmed_padded:
  assumes "t \<noteq> []" "hd t \<noteq> 0x20" "0x20 < last t"
  shows "trimmed (replicate p 0x20 @ t @ replicate q 0x20) = t"
proof -
  have "dropWhile (\<lambda>c. c \<le> 0x20) (replicate q 0x20 @ v) = dropWhile (\<lambda>c. c \<le> 0x20) v" for v :: "u8 list"
    by (induction q) auto
  moreover have "dropWhile (\<lambda>c. c \<le> 0x20) (rev t @ v) = rev t @ v" for v
    using assms(1,3) by (cases t rule: rev_cases) auto
  ultimately have "rtrim (replicate p 0x20 @ t @ replicate q 0x20) = replicate p 0x20 @ t"
    by (simp add: rtrim_def)
  moreover have "dropWhile (\<lambda>c. c = 0x20) (replicate p 0x20 @ v) = dropWhile (\<lambda>c. c = 0x20) v" for v :: "u8 list"
    by (induction p) auto
  moreover have "dropWhile (\<lambda>c. c = 0x20) t = t"
    using assms(1,2) by (cases t) auto
  ultimately show ?thesis
    by (simp add: trimmed_def)
qed

text \<open>
  C34: identify strings survive their encoding.  A text without NULs that neither starts nor ends
  with padding is recovered exactly from the fixed-width field that a drive makes of it, whatever
  spaces are put around it and whether or not the bytes of each word are swapped.
\<close>

theorem identify_roundtrip:
  assumes "t \<noteq> []" "hd t \<noteq> 0x20" "0x20 < last t" "0 \<notin> set t"
    and "fld = replicate p 0x20 @ t @ replicate q 0x20" "s \<longrightarrow> even (length fld)"
    and "length fld < DestSize" "DestSize \<le> length Dest"
  shows "\<exists>Dest'. CopyIdentifyString Dest DestSize (unswap s fld) (length fld) s = Some Dest' \<and>
    length Dest' = length Dest \<and> cstr Dest' = t"
proof -
  have "unswap s (unswap s fld) = fld"
    by (simp add: unswap_def)
  moreover have "take (DestSize - 1) fld = fld" "trimmed fld = t"
    using assms(5,7) trimmed_padded [OF assms(1-3)] by simp_all
  ultimately show ?thesis
    using CopyIdentifyString_spec [of s "unswap s fld" "length fld" DestSize Dest] assms(4,6,7,8) by auto
qed

theorem identify_roundtrip_witness:
  "\<exists>Dest'. CopyIdentifyString zero_field 64 (unswap True (ascii ''  WD Blue '')) (length ''  WD Blue '') True = Some Dest' \<and>
     cstr Dest' = ascii ''WD Blue''"
  using identify_roundtrip [of "ascii ''WD Blue''" "ascii ''  WD Blue ''" "Suc (Suc 0)" "Suc 0" True 64 zero_field]
  by (auto simp: ascii_def zero_field_def NUC_REDFISH_STR_MAX_def)

section \<open>What is collected\<close>

text \<open>The drive a handle stands for, as the report describes it.\<close>

record drive_info =
  info_model :: "u8 list"
  info_serial :: "u8 list"
  info_revision :: "u8 list"
  info_protocol :: "u8 list option"
  info_media :: "u8 list option"
  info_capacity :: u64

definition abs_drive :: "drive \<Rightarrow> drive_info" where
  "abs_drive D = \<lparr>info_model = cstr (drv_Model D), info_serial = cstr (drv_SerialNumber D),
     info_revision = cstr (Revision D), info_protocol = Protocol D, info_media = MediaType D,
     info_capacity = CapacityBytes D\<rparr>"

definition field_text :: "bool \<Rightarrow> u8 list \<Rightarrow> u8 list" where
  "field_text s src = cstr (trimmed (unswap s src) @ [0])"

definition capacity_of :: "disk_handle \<Rightarrow> u64" where
  "capacity_of H = (case Media H of
       Some m \<Rightarrow> if \<not> EFI_ERROR (BlockIo H) \<and> MediaPresent m then (LastBlock m + 1) * ucast (BlockSize m) else 0
     | None \<Rightarrow> 0)"

definition nvme_info :: "disk_handle \<Rightarrow> drive_info option" where
  "nvme_info H =
     (if EFI_ERROR (DevicePath H) \<or> EFI_ERROR (LocateDevicePath H) \<or> EFI_ERROR (Passthru H) \<or> EFI_ERROR (fst (PassThru H))
      then None
      else let d = snd (PassThru H) in
        Some \<lparr>info_model = field_text False (Mn d), info_serial = field_text False (Sn d),
          info_revision = field_text False (Fr d), info_protocol = Some (literal ''NVMe''),
          info_media = Some (literal ''SSD''), info_capacity = capacity_of H\<rparr>)"

definition ata_info :: "disk_handle \<Rightarrow> drive_info option" where
  "ata_info H =
     (if EFI_ERROR (fst (Identify H)) then None
      else let d = snd (Identify H) in
        Some \<lparr>info_model = field_text True (ModelName d), info_serial = field_text True (SerialNo d),
          info_revision = field_text True (FirmwareVer d), info_protocol = Some (literal ''SATA''),
          info_media = media_type (nominal_media_rotation_rate d) None, info_capacity = capacity_of H\<rparr>)"

definition identified :: "disk_guids \<Rightarrow> disk_handle \<Rightarrow> drive_info option" where
  "identified G H =
     (if Interface H = gEfiDiskInfoNvmeInterfaceGuid G then nvme_info H
      else if Interface H = gEfiDiskInfoAhciInterfaceGuid G \<or> Interface H = gEfiDiskInfoIdeInterfaceGuid G then ata_info H
      else None)"

definition reported :: "disk_guids \<Rightarrow> disk_handle \<Rightarrow> drive_info option" where
  "reported G H =
     (if EFI_ERROR (DiskInfo H) then None
      else (case identified G H of
          None \<Rightarrow> None
        | Some d \<Rightarrow> if info_model d = [] \<and> info_serial d = [] then None else Some d))"

definition ident :: "drive_info \<Rightarrow> u8 list \<times> u8 list" where
  "ident d = (info_serial d, info_model d)"

text \<open>The first drive of every identity, in order.\<close>

fun first_of :: "(u8 list \<times> u8 list) list \<Rightarrow> drive_info list \<Rightarrow> drive_info list" where
  "first_of seen [] = []"
| "first_of seen (d # ds) = (if ident d \<in> set seen then first_of seen ds else d # first_of (ident d # seen) ds)"

text \<open>The sizes of the identify structures, which the C types fix.\<close>

definition handle_ok :: "disk_handle \<Rightarrow> bool" where
  "handle_ok H \<longleftrightarrow> (let n = snd (PassThru H); a = snd (Identify H) in
     length (Mn n) = 40 \<and> length (Sn n) = 20 \<and> length (Fr n) = 8 \<and>
     length (ModelName a) = 40 \<and> length (SerialNo a) = 20 \<and> length (FirmwareVer a) = 8)"

definition drive_ok :: "drive \<Rightarrow> bool" where
  "drive_ok D \<longleftrightarrow> (\<forall>V \<in> {drv_Model D, drv_SerialNumber D, Revision D}. length V = 64 \<and> terminated V) \<and>
     Protocol D \<in> {Some (literal ''NVMe''), Some (literal ''SATA'')} \<and>
     MediaType D \<in> {None, Some (literal ''SSD''), Some (literal ''HDD'')}"

lemma cstr_nul_rest: "cstr (u @ 0 # rest) = cstr (u @ [0])"
  by (induction u) (auto simp: cstr_def)

text \<open>The form in which the collectors use the copy.\<close>

lemma copy_field:
  assumes "s \<longrightarrow> even (length Source)" "length Source = n" "n < 64" "length Dest = 64"
  obtains V where "CopyIdentifyString Dest 64 Source n s = Some V" "length V = 64" "terminated V"
    "cstr V = field_text s Source"
proof -
  have "take 63 (unswap s Source) = unswap s Source"
    using assms(2,3) by simp
  then obtain rest where rest: "CopyIdentifyString Dest 64 Source n s = Some (trimmed (unswap s Source) @ 0 # rest)"
    "length (trimmed (unswap s Source)) + Suc (length rest) = 64"
    using CopyIdentifyString_spec [of s Source n 64 Dest] assms by auto
  show ?thesis
    by (rule that [OF rest(1)]) (use rest(2) in \<open>simp_all add: field_text_def cstr_nul_rest [of _ rest]\<close>)
qed

lemma find_existing_spec:
  "drive_ok D \<Longrightarrow> \<forall>E \<in> set Es. drive_ok E \<Longrightarrow>
   find_existing D Es = Some (ident (abs_drive D) \<in> ident ` abs_drive ` set Es)"
proof (induction Es)
  case (Cons E Es)
  have t: "terminated (drv_SerialNumber E)" "terminated (drv_SerialNumber D)" "terminated (drv_Model E)" "terminated (drv_Model D)"
    using Cons.prems by (auto simp: drive_ok_def)
  from AsciiStrCmp_spec [OF t(1,2)] AsciiStrCmp_spec [OF t(3,4)] Cons show ?case
    by (auto simp: ident_def abs_drive_def)
qed simp

lemma capacity_spec:
  "CapacityBytes D = 0 \<Longrightarrow> drive_ok D \<Longrightarrow>
   drive_ok (drive_capacity H D) \<and> abs_drive (drive_capacity H D) = (abs_drive D)\<lparr>info_capacity := capacity_of H\<rparr>"
  by (auto simp: drive_capacity_def capacity_of_def abs_drive_def drive_ok_def split: option.splits)

lemma nvme_spec:
  assumes "handle_ok H"
  shows "case nvme_info H of
      None \<Rightarrow> \<exists>e. CollectNvmeDrive H zero_drive = Some (e, zero_drive) \<and> EFI_ERROR e
    | Some d \<Rightarrow> \<exists>D. CollectNvmeDrive H zero_drive = Some (EFI_SUCCESS, D) \<and> drive_ok D \<and> CapacityBytes D = 0 \<and>
        (abs_drive D)\<lparr>info_capacity := capacity_of H\<rparr> = d"
proof -
  obtain st n where p: "PassThru H = (st, n)" by fastforce
  have len: "length (Mn n) = 40" "length (Sn n) = 20" "length (Fr n) = 8" "length zero_field = 64"
    using assms p by (auto simp: handle_ok_def Let_def zero_field_def NUC_REDFISH_STR_MAX_def)
  obtain m where m: "CopyIdentifyString zero_field 64 (Mn n) 40 False = Some m" "length m = 64" "terminated m"
      "cstr m = field_text False (Mn n)"
    by (rule copy_field [of False "Mn n" 40 zero_field]) (use len in auto)
  obtain s where s: "CopyIdentifyString zero_field 64 (Sn n) 20 False = Some s" "length s = 64" "terminated s"
      "cstr s = field_text False (Sn n)"
    by (rule copy_field [of False "Sn n" 20 zero_field]) (use len in auto)
  obtain r where r: "CopyIdentifyString zero_field 64 (Fr n) 8 False = Some r" "length r = 64" "terminated r"
      "cstr r = field_text False (Fr n)"
    by (rule copy_field [of False "Fr n" 8 zero_field]) (use len in auto)
  show ?thesis
    using m s r by (simp add: nvme_info_def CollectNvmeDrive_def p zero_drive_def drive_ok_def abs_drive_def)
qed

lemma ata_spec:
  assumes "handle_ok H"
  shows "case ata_info H of
      None \<Rightarrow> \<exists>e. CollectAtaDrive H zero_drive = Some (e, zero_drive) \<and> EFI_ERROR e
    | Some d \<Rightarrow> \<exists>D. CollectAtaDrive H zero_drive = Some (EFI_SUCCESS, D) \<and> drive_ok D \<and> CapacityBytes D = 0 \<and>
        (abs_drive D)\<lparr>info_capacity := capacity_of H\<rparr> = d"
proof -
  obtain st a where p: "Identify H = (st, a)" by fastforce
  have len: "length (ModelName a) = 40" "length (SerialNo a) = 20" "length (FirmwareVer a) = 8" "length zero_field = 64"
    using assms p by (auto simp: handle_ok_def Let_def zero_field_def NUC_REDFISH_STR_MAX_def)
  obtain m where m: "CopyIdentifyString zero_field 64 (ModelName a) 40 True = Some m" "length m = 64" "terminated m"
      "cstr m = field_text True (ModelName a)"
    by (rule copy_field [of True "ModelName a" 40 zero_field]) (use len in auto)
  obtain s where s: "CopyIdentifyString zero_field 64 (SerialNo a) 20 True = Some s" "length s = 64" "terminated s"
      "cstr s = field_text True (SerialNo a)"
    by (rule copy_field [of True "SerialNo a" 20 zero_field]) (use len in auto)
  obtain r where r: "CopyIdentifyString zero_field 64 (FirmwareVer a) 8 True = Some r" "length r = 64" "terminated r"
      "cstr r = field_text True (FirmwareVer a)"
    by (rule copy_field [of True "FirmwareVer a" 8 zero_field]) (use len in auto)
  show ?thesis
    using m s r by (simp add: ata_info_def CollectAtaDrive_def p zero_drive_def drive_ok_def abs_drive_def media_type_def)
qed

lemma identity_spec:
  assumes "handle_ok H"
  shows "case identified G H of
      None \<Rightarrow> collect_identity G H zero_drive = Some None \<or>
        (\<exists>e. collect_identity G H zero_drive = Some (Some (e, zero_drive)) \<and> EFI_ERROR e)
    | Some d \<Rightarrow> \<exists>D. collect_identity G H zero_drive = Some (Some (EFI_SUCCESS, D)) \<and> drive_ok D \<and> CapacityBytes D = 0 \<and>
        (abs_drive D)\<lparr>info_capacity := capacity_of H\<rparr> = d"
  using nvme_spec [OF assms] ata_spec [OF assms]
  by (auto simp: identified_def collect_identity_def split: option.splits)

definition slots_ok :: "nat \<Rightarrow> drive list \<Rightarrow> nat \<Rightarrow> bool" where
  "slots_ok MaxCount Drives Count \<longleftrightarrow> length Drives = MaxCount \<and> Count \<le> MaxCount \<and>
     (\<forall>D \<in> set (take Count Drives). drive_ok D) \<and> (\<forall>D \<in> set (drop Count Drives). D = zero_drive)"

lemma first_char: "length V = 64 \<Longrightarrow> byte_at V 0 = Some (V ! 0) \<and> (V ! 0 = 0 \<longleftrightarrow> cstr V = [])"
  by (cases V) (auto simp: cstr_def)

lemma turn_spec:
  assumes "handle_ok H" "slots_ok n Drives Count" "Count < n"
  shows "case reported G H of
      None \<Rightarrow> collect_turn G H Drives Count = Some (Drives, Count)
    | Some d \<Rightarrow>
        if ident d \<in> ident ` abs_drive ` set (take Count Drives) then collect_turn G H Drives Count = Some (Drives, Count)
        else (\<exists>D. collect_turn G H Drives Count = Some (Drives[Count := D], Count + 1) \<and> drive_ok D \<and> abs_drive D = d)"
proof -
  have zero: "Drives ! Count = zero_drive" "Count < length Drives"
    using assms(2,3) Cons_nth_drop_Suc [of Count Drives, symmetric] by (auto simp: slots_ok_def)
  then have same: "Drives[Count := zero_drive] = Drives"
    by (metis list_update_id)
  have olds: "\<forall>E \<in> set (take Count Drives). drive_ok E"
    using assms(2) by (simp add: slots_ok_def)
  show ?thesis
  proof (cases "identified G H")
    case None
    then show ?thesis
      using identity_spec [OF assms(1), of G] zero same
      by (auto simp: reported_def collect_turn_def zero_drive_def zero_field_def NUC_REDFISH_STR_MAX_def)
  next
    case (Some d)
    with identity_spec [OF assms(1), of G] obtain D where D:
      "collect_identity G H zero_drive = Some (Some (EFI_SUCCESS, D))" "drive_ok D" "CapacityBytes D = 0"
      "(abs_drive D)\<lparr>info_capacity := capacity_of H\<rparr> = d"
      by auto
    have chars: "byte_at (drv_Model D) 0 = Some (drv_Model D ! 0)" "drv_Model D ! 0 = 0 \<longleftrightarrow> info_model d = []"
      "byte_at (drv_SerialNumber D) 0 = Some (drv_SerialNumber D ! 0)" "drv_SerialNumber D ! 0 = 0 \<longleftrightarrow> info_serial d = []"
      using D(2,4) first_char [of "drv_Model D"] first_char [of "drv_SerialNumber D"]
      by (auto simp: drive_ok_def abs_drive_def)
    have "ident (abs_drive D) = ident d"
      using D(4) by (auto simp: ident_def abs_drive_def)
    then have "find_existing D (take Count Drives) = Some (ident d \<in> ident ` abs_drive ` set (take Count Drives))"
      using find_existing_spec [OF D(2) olds] by simp
    moreover have "drive_ok (drive_capacity H D)" "abs_drive (drive_capacity H D) = d"
      using capacity_spec [OF D(3,2), of H] D(4) by simp_all
    ultimately show ?thesis
      using D(1) chars zero same by (auto simp: reported_def collect_turn_def Some)
  qed
qed

lemma slots_ok_add:
  assumes "slots_ok n Drives Count" "Count < n" "drive_ok D"
  shows "slots_ok n (Drives[Count := D]) (Count + 1)" "take (Count + 1) (Drives[Count := D]) = take Count Drives @ [D]"
proof -
  have "Count < length Drives" using assms(1,2) by (simp add: slots_ok_def)
  then show t: "take (Count + 1) (Drives[Count := D]) = take Count Drives @ [D]"
    by (simp add: take_Suc_conv_app_nth)
  have "set (drop (Count + 1) Drives) \<subseteq> set (drop Count Drives)"
    by (intro set_drop_subset_set_drop) simp
  then have "\<forall>E \<in> set (drop (Count + 1) Drives). E = zero_drive"
    using assms(1) by (auto simp: slots_ok_def)
  then show "slots_ok n (Drives[Count := D]) (Count + 1)"
    using assms t by (simp add: slots_ok_def del: take_Suc_conv_app_nth)
qed

lemma drive_loop_spec:
  assumes "\<forall>H \<in> set Hs. handle_ok H" "slots_ok n Drives Count" "set seen = ident ` abs_drive ` set (take Count Drives)"
  shows "\<exists>Drives' Count'. drive_loop G n Hs Drives Count = Some (Drives', Count') \<and> slots_ok n Drives' Count' \<and>
    map abs_drive (take Count' Drives') =
      take n (map abs_drive (take Count Drives) @ first_of seen (List.map_filter (reported G) Hs))"
  using assms
proof (induction Hs arbitrary: Drives Count seen)
  case Nil
  then show ?case by (auto simp: slots_ok_def map_filter_simps)
next
  case (Cons H Hs)
  have "length (take Count Drives) = Count"
    using Cons.prems(2) by (simp add: slots_ok_def)
  show ?case
  proof (cases "n \<le> Count")
    case True
    with Cons.prems(2) \<open>length (take Count Drives) = Count\<close> show ?thesis
      by (auto simp: slots_ok_def)
  next
    case False
    note turn = turn_spec [of H n Drives Count G]
    show ?thesis
    proof (cases "\<exists>d. reported G H = Some d \<and> ident d \<notin> set seen")
      case True
      then obtain d where d: "reported G H = Some d" "ident d \<notin> set seen" by blast
      then obtain D where D: "collect_turn G H Drives Count = Some (Drives[Count := D], Count + 1)" "drive_ok D" "abs_drive D = d"
        using turn Cons.prems False by auto
      note add = slots_ok_add [OF Cons.prems(2) _ D(2)]
      have "set (ident d # seen) = ident ` abs_drive ` set (take (Count + 1) (Drives[Count := D]))"
        using add(2) False Cons.prems(3) D(3) by auto
      moreover have "n - Count = Suc (n - Suc Count)" "min (length Drives) Count = Count" "min (length Drives) (Suc Count) = Suc Count"
        using False Cons.prems(2) by (auto simp: slots_ok_def)
      ultimately show ?thesis
        using Cons.IH [OF _ add(1), of "ident d # seen"] False Cons.prems(1) D add(2) d by (simp add: map_filter_simps)
    next
      case False': False
      then have "collect_turn G H Drives Count = Some (Drives, Count)"
        using turn Cons.prems False by (auto split: option.splits if_splits)
      moreover have "first_of seen (List.map_filter (reported G) (H # Hs)) = first_of seen (List.map_filter (reported G) Hs)"
        using False' by (auto simp: map_filter_simps split: option.splits)
      ultimately show ?thesis
        using Cons.IH [OF _ Cons.prems(2,3)] Cons.prems(1) False by simp
    qed
  qed
qed

text \<open>
  C13: the drives collected.  For every set of handles, whatever their protocols answer, no buffer is
  overrun, and the used slots describe exactly the first drive of every identity (serial number and
  model) in the order of the handles, as many as fit; every other slot is zero, also after a handle
  that had been identified and was then dropped.
\<close>

theorem collect_drives_spec:
  assumes "0 < MaxCount" "\<forall>H \<in> set Hs. handle_ok H"
  shows "\<exists>Drives Count. NucRedfishCollectDrives G True MaxCount (Some Hs) = Some (EFI_SUCCESS, Drives, Count) \<and>
    length Drives = MaxCount \<and> Count \<le> MaxCount \<and>
    map abs_drive (take Count Drives) = take MaxCount (first_of [] (List.map_filter (reported G) Hs)) \<and>
    (\<forall>D \<in> set (take Count Drives). drive_ok D) \<and> (\<forall>D \<in> set (drop Count Drives). D = zero_drive)"
proof -
  have "slots_ok MaxCount (replicate MaxCount zero_drive) 0"
    by (simp add: slots_ok_def)
  from drive_loop_spec [OF assms(2) this, of "[]" G] assms(1) show ?thesis
    by (auto simp: NucRedfishCollectDrives_def slots_ok_def)
qed

definition demo_guids :: disk_guids where
  "demo_guids = \<lparr>gEfiDiskInfoNvmeInterfaceGuid = \<lparr>Data1 = 1, Data2 = 0, Data3 = 0, Data4 = []\<rparr>,
     gEfiDiskInfoAhciInterfaceGuid = \<lparr>Data1 = 2, Data2 = 0, Data3 = 0, Data4 = []\<rparr>,
     gEfiDiskInfoIdeInterfaceGuid = \<lparr>Data1 = 3, Data2 = 0, Data3 = 0, Data4 = []\<rparr>\<rparr>"

text \<open>Two namespaces of one NVMe controller, and a USB disk.\<close>

definition pad :: "nat \<Rightarrow> string \<Rightarrow> u8 list" where
  "pad n s = ascii s @ replicate (n - length s) 0x20"

definition demo_disk :: "u32 \<Rightarrow> disk_handle" where
  "demo_disk i = \<lparr>DiskInfo = EFI_SUCCESS, Interface = \<lparr>Data1 = i, Data2 = 0, Data3 = 0, Data4 = []\<rparr>,
     DevicePath = EFI_SUCCESS, LocateDevicePath = EFI_SUCCESS, Passthru = EFI_SUCCESS,
     PassThru = (EFI_SUCCESS, \<lparr>Mn = pad 40 ''970 EVO'', Sn = pad 20 ''S4'', Fr = pad 8 ''2B''\<rparr>),
     Identify = (EFI_UNSUPPORTED, \<lparr>ModelName = pad 40 '''', SerialNo = pad 20 '''', FirmwareVer = pad 8 '''',
       nominal_media_rotation_rate = 0\<rparr>),
     BlockIo = EFI_SUCCESS, Media = Some \<lparr>MediaPresent = True, LastBlock = 999, BlockSize = 512\<rparr>\<rparr>"

lemma field_text_pad:
  "s \<noteq> [] \<Longrightarrow> hd (ascii s) \<noteq> 0x20 \<Longrightarrow> 0x20 < last (ascii s) \<Longrightarrow> 0 \<notin> set (ascii s) \<Longrightarrow>
   field_text False (pad n s) = ascii s"
  using trimmed_padded [of "ascii s" 0 "n - length s"]
  by (simp add: field_text_def unswap_def pad_def) (simp add: ascii_def)

theorem collect_drives_spec_witness:
  "\<exists>Drives. NucRedfishCollectDrives demo_guids True 8 (Some [demo_disk 1, demo_disk 1, demo_disk 9]) =
      Some (EFI_SUCCESS, Drives, 1) \<and> cstr (drv_Model (Drives ! 0)) = ascii ''970 EVO'' \<and> CapacityBytes (Drives ! 0) = 512000"
proof -
  let ?d = "\<lparr>info_model = ascii ''970 EVO'', info_serial = ascii ''S4'', info_revision = ascii ''2B'',
    info_protocol = Some (literal ''NVMe''), info_media = Some (literal ''SSD''), info_capacity = 512000\<rparr>"
  have t: "field_text False (pad 40 ''970 EVO'') = ascii ''970 EVO''" "field_text False (pad 20 ''S4'') = ascii ''S4''"
    "field_text False (pad 8 ''2B'') = ascii ''2B''"
    by (intro field_text_pad; simp add: ascii_def)+
  have "reported demo_guids (demo_disk 1) = Some ?d" "reported demo_guids (demo_disk 9) = None"
    by (simp_all add: reported_def identified_def nvme_info_def demo_disk_def demo_guids_def t capacity_of_def)
      (simp add: ascii_def)
  then have "first_of [] (List.map_filter (reported demo_guids) [demo_disk 1, demo_disk 1, demo_disk 9]) = [?d]"
    by (simp add: map_filter_simps ident_def)
  moreover have "handle_ok (demo_disk i)" for i
    by (simp add: handle_ok_def demo_disk_def pad_def)
  ultimately obtain Drives Count where D:
    "NucRedfishCollectDrives demo_guids True 8 (Some [demo_disk 1, demo_disk 1, demo_disk 9]) = Some (EFI_SUCCESS, Drives, Count)"
    "length Drives = 8" "Count \<le> 8" "map abs_drive (take Count Drives) = [?d]"
    using collect_drives_spec [of 8 "[demo_disk 1, demo_disk 1, demo_disk 9]" demo_guids] by auto
  have "Count = 1" using arg_cong [OF D(4), of length] D(2,3) by simp
  moreover have "abs_drive (Drives ! 0) = ?d"
    using D(2,4) \<open>Count = 1\<close> by (cases Drives) auto
  ultimately show ?thesis
    using D(1) by (auto simp: abs_drive_def)
qed

section \<open>The drive body is JSON\<close>

abbreviation drive_head :: "print_item list" where
  \<open>drive_head \<equiv> [Lit ''{"@odata.type":"#Drive.v1_4_0.Drive"'', Lit '',"Status":{"State":"Enabled","Health":"OK"}'']\<close>

lemma length_drive_head: "length (print_text drive_head) = 79"
  by (simp add: print_text_def)

lemma drive_base:
  "open_object (print_text drive_head)
     [(ascii ''@odata.type'', str_val ''#Drive.v1_4_0.Drive''), (ascii ''Status'', status_ok ''Enabled'')]"
proof -
  have "json_members ([0x22] @ ascii ''@odata.type'' @ [0x22, 0x3a] @ [0x22] @ ascii ''#Drive.v1_4_0.Drive'' @ [0x22])
      [(ascii ''@odata.type'', str_val ''#Drive.v1_4_0.Drive'')]"
    by (intro members_one json_chars_plain text_plain) (simp_all add: plain_char.simps)
  from members_more [OF this json_chars_plain status_text, of "''Status''" "''Enabled''"] show ?thesis
    by (simp add: open_object_def print_text_def ascii_def plain_char.simps)
qed

definition capacity_member :: "u64 \<Rightarrow> u8 list" where
  \<open>capacity_member c = (if c = 0 then [] else ascii '',"CapacityBytes":'' @ dec_nat (unat c))\<close>

definition capacity_entry :: "u64 \<Rightarrow> (u8 list \<times> json) list" where
  "capacity_entry c = (if c = 0 then [] else [(ascii ''CapacityBytes'', JNum (unat c))])"

lemma length_capacity_member: "unat c < 2 ^ 63 \<Longrightarrow> length (capacity_member c) \<le> 36"
  using length_dec_nat [of 19 "unat c"] by (simp add: capacity_member_def)

lemma sint_small64: "unat (w :: u64) < 2 ^ 63 \<Longrightarrow> sint w = int (unat w)"
proof -
  assume "unat w < 2 ^ 63"
  then have "int (unat w) < int (2 ^ 63)"
    by (simp only: of_nat_less_iff)
  then show ?thesis
    using signed_take_bit_int_eq_self [of 63 "uint w"] unsigned_greater_eq [of w, where ?'a = int]
    by (simp add: sint_uint)
qed

lemma capacity_step:
  assumes "ascii_lib_ok L" "unat c < 2 ^ 63" "length b + length (capacity_member c) < 1024"
  shows "append_capacity L b c = b @ capacity_member c"
proof (cases "c = 0")
  case False
  have \<open>print_text [Lit '',"CapacityBytes":'', Dec (sint c)] = capacity_member c\<close>
    using False sint_small64 [OF assms(2)] by (simp add: print_text_def capacity_member_def dec_int_def)
  moreover have "length (capacity_member c) < 48"
    using length_capacity_member [OF assms(2)] by simp
  ultimately show ?thesis
    using False assms by (simp add: append_capacity_def NUC_REDFISH_JSON_MAX_def SPrint_fits StrCatS_fits)
qed (simp add: append_capacity_def capacity_member_def)

lemma open_capacity: "open_object b ms \<Longrightarrow> open_object (b @ capacity_member c) (ms @ capacity_entry c)"
proof (cases "c = 0")
  case False
  assume "open_object b ms"
  then obtain m where m: "b = [0x7b] @ m" "json_members m ms"
    by (auto simp: open_object_def)
  from members_more [OF m(2) json_chars_plain text_number [of "unat c"], of "''CapacityBytes''"] show ?thesis
    using False m(1) by (simp add: open_object_def capacity_member_def capacity_entry_def ascii_def plain_char.simps)
qed (simp add: capacity_member_def capacity_entry_def)

definition drive_members :: "drive \<Rightarrow> u8 list" where
  "drive_members D = option_member ''Name'' (Some (drv_Model D)) @ option_member ''Model'' (Some (drv_Model D)) @
     option_member ''SerialNumber'' (Some (drv_SerialNumber D)) @ option_member ''Revision'' (Some (Revision D)) @
     option_member ''Protocol'' (Protocol D) @ option_member ''MediaType'' (MediaType D) @ capacity_member (CapacityBytes D)"

definition drive_entries :: "drive \<Rightarrow> (u8 list \<times> json) list" where
  "drive_entries D = string_entry ''Name'' (Some (drv_Model D)) @ string_entry ''Model'' (Some (drv_Model D)) @
     string_entry ''SerialNumber'' (Some (drv_SerialNumber D)) @ string_entry ''Revision'' (Some (Revision D)) @
     string_entry ''Protocol'' (Protocol D) @ string_entry ''MediaType'' (MediaType D) @ capacity_entry (CapacityBytes D)"

lemma drive_texts:
  assumes "drive_ok D"
  shows "text_ok (drv_Model D)" "text_ok (drv_SerialNumber D)" "text_ok (Revision D)" "texts_ok (Protocol D)" "texts_ok (MediaType D)"
    "Protocol D = Some V \<or> MediaType D = Some V \<Longrightarrow> ascii7 V"
    "length (option_member ''Protocol'' (Protocol D)) \<le> 22" "length (option_member ''MediaType'' (MediaType D)) \<le> 21"
proof -
  have lit: "text_ok (literal s) \<and> ascii7 (literal s) \<and> length (option_member n (Some (literal s))) \<le> length n + 14"
    if "s \<in> {''NVMe'', ''SATA'', ''SSD'', ''HDD''}" for s n
    using that by (auto simp: text_ok_def ascii7_def literal_def ascii_def cstr_def terminated_def option_member_def
        string_member_def escape_char_def)
  note lits = lit [of "''NVMe''" "''Protocol''", simplified] lit [of "''SATA''" "''Protocol''", simplified]
    lit [of "''SSD''" "''MediaType''", simplified] lit [of "''HDD''" "''MediaType''", simplified]
  show "text_ok (drv_Model D)" "text_ok (drv_SerialNumber D)" "text_ok (Revision D)"
    using assms by (auto simp: drive_ok_def intro: field_text_ok)
  show "texts_ok (Protocol D)" "texts_ok (MediaType D)" "Protocol D = Some V \<or> MediaType D = Some V \<Longrightarrow> ascii7 V"
    using assms lits by (auto simp: drive_ok_def texts_ok_def)
  show "length (option_member ''Protocol'' (Protocol D)) \<le> 22"
    using assms lits by (auto simp: drive_ok_def)
  show "length (option_member ''MediaType'' (MediaType D)) \<le> 21"
    using assms by (auto simp: drive_ok_def option_member_def string_member_def literal_def ascii_def cstr_def escape_char_def)
qed

lemma drive_room:
  assumes "drive_ok D" "unat (CapacityBytes D) < 2 ^ 63"
  shows "length (print_text drive_head) + length (drive_members D) + 1 < 1024"
proof -
  have strs: "length (option_member n (Some V)) \<le> length n + 132" if "text_ok V" for n V
    using length_string_member [OF that, of n] by (simp add: option_member_def)
  note t = drive_texts [OF assms(1)]
  show ?thesis
    using strs [OF t(1), of "''Name''"] strs [OF t(1), of "''Model''"] strs [OF t(2), of "''SerialNumber''"]
      strs [OF t(3), of "''Revision''"] t(7,8) length_capacity_member [OF assms(2)]
    by (simp add: drive_members_def length_drive_head)
qed

lemma drive_post_text:
  assumes "ascii_lib_ok L" "drive_ok D" "unat (CapacityBytes D) < 2 ^ 63"
  shows "NucRedfishBuildDrivePost L True (Some D) True =
    Some (EFI_SUCCESS, Some (print_text drive_head @ drive_members D @ ascii ''}''))"
proof -
  define h where "h = print_text drive_head"
  have print: "AsciiSPrint L 1024 drive_head = h"
    using length_drive_head unfolding h_def by (intro SPrint_fits [OF assms(1)]) simp
  have room: "length h + length (drive_members D) + 1 < 1024"
    using drive_room [OF assms(2,3)] by (simp only: h_def)
  have media: "(if MediaType D \<noteq> None then AppendJsonString L b N ''MediaType'' (MediaType D) else Some b) =
      AppendJsonString L b N ''MediaType'' (MediaType D)" for b N
    by (cases "MediaType D") simp_all
  note t = drive_texts(1-5) [OF assms(2)]
  then have "texts_ok (Some (drv_Model D))" "texts_ok (Some (drv_SerialNumber D))" "texts_ok (Some (Revision D))"
    by (simp_all add: texts_ok_def)
  then show ?thesis
    unfolding h_def [symmetric] NucRedfishBuildDrivePost_def NUC_REDFISH_JSON_MAX_def Let_def option.case simp_thms if_False print media
    using assms(1,3) room t(4,5) by (simp add: drive_members_def capacity_step json_steps)
qed

text \<open>
  a collected drive is reported completely.  For every drive the collector produces, with 7-bit
  identify strings and a capacity below 2^63 bytes, the POST body fits its buffer and is a JSON
  object with the schema and status followed by exactly the non-empty strings and the capacity.
\<close>

theorem drive_post_json:
  assumes "ascii_lib_ok L" "drive_ok D" "unat (CapacityBytes D) < 2 ^ 63"
    and "\<forall>V \<in> {drv_Model D, drv_SerialNumber D, Revision D}. ascii7 V"
  shows "\<exists>Body. NucRedfishBuildDrivePost L True (Some D) True = Some (EFI_SUCCESS, Some Body) \<and> length Body < 1024 \<and>
    json_text Body (JObj ([(ascii ''@odata.type'', str_val ''#Drive.v1_4_0.Drive''), (ascii ''Status'', status_ok ''Enabled'')] @
      drive_entries D))"
proof -
  have "open_object (((((((print_text drive_head @ option_member ''Name'' (Some (drv_Model D))) @
      option_member ''Model'' (Some (drv_Model D))) @ option_member ''SerialNumber'' (Some (drv_SerialNumber D))) @
      option_member ''Revision'' (Some (Revision D))) @ option_member ''Protocol'' (Protocol D)) @
      option_member ''MediaType'' (MediaType D)) @ capacity_member (CapacityBytes D))
    ((((((([(ascii ''@odata.type'', str_val ''#Drive.v1_4_0.Drive''), (ascii ''Status'', status_ok ''Enabled'')] @
      string_entry ''Name'' (Some (drv_Model D))) @
      string_entry ''Model'' (Some (drv_Model D))) @ string_entry ''SerialNumber'' (Some (drv_SerialNumber D))) @
      string_entry ''Revision'' (Some (Revision D))) @ string_entry ''Protocol'' (Protocol D)) @
      string_entry ''MediaType'' (MediaType D)) @ capacity_entry (CapacityBytes D))"
    using assms(4) drive_texts(6) [OF assms(2)]
    by (intro open_capacity open_string drive_base) (auto simp: plain_char.simps)
  from close_object [OF this] show ?thesis
    using drive_post_text [OF assms(1-3)] drive_room [OF assms(2,3)] by (simp add: drive_members_def drive_entries_def)
qed

theorem drive_post_json_witness:
  "\<exists>D Body. cstr (drv_SerialNumber D) = ascii ''S4'' \<and>
    NucRedfishBuildDrivePost edk2_lib True (Some D) True = Some (EFI_SUCCESS, Some Body) \<and> length Body < 1024"
proof -
  let ?D = "zero_drive\<lparr>drv_SerialNumber := ascii ''S4'' @ replicate 62 0, Protocol := Some (literal ''NVMe''), CapacityBytes := 512\<rparr>"
  have s: "cstr (ascii ''S4'' @ replicate 62 0) = ascii ''S4''" "cstr (replicate 64 0) = []"
    by (simp_all add: ascii_def cstr_def)
  have "drive_ok ?D" "\<forall>V \<in> {drv_Model ?D, drv_SerialNumber ?D, Revision ?D}. ascii7 V"
    by (simp_all add: drive_ok_def zero_drive_def zero_field_def NUC_REDFISH_STR_MAX_def terminated_def ascii7_def s)
      (simp add: ascii_def)
  from drive_post_json [OF edk2_lib_ok this(1) _ this(2)] s show ?thesis
    by (intro exI [of _ ?D]) auto
qed

end
