(* ===== verification/FirmwareStatus.thy ===== *)
theory FirmwareStatus
  imports InventoryJson
begin

text \<open>
  The firmware half of NucRedfishSyncDxe/NucRedfishInventory.c: the text of a GUID, the conversion of
  descriptor strings, the search for the platform's firmware management instance, and the software
  inventory PATCH.  As for drives, a handle is the record of the answers it gives in one turn of the
  search loop.  What the loop acquires from and returns to the pool is recorded.
\<close>

section \<open>Texts\<close>

definition NUC_REDFISH_FIRMWARE_INVENTORY_ID :: string where
  "NUC_REDFISH_FIRMWARE_INVENTORY_ID = ''BiosFirmware''"

definition mNucRedfishFirmwareImageTypeId :: efi_guid where
  "mNucRedfishFirmwareImageTypeId = \<lparr>Data1 = 0xd25f89e1, Data2 = 0x94ec, Data3 = 0x4533,
     Data4 = [0x80, 0xb9, 0x7f, 0x88, 0x55, 0xce, 0x0a, 0x94]\<rparr>"

definition guid_items :: "efi_guid \<Rightarrow> print_item list" where
  "guid_items g = (let h = \<lambda>i. Hex 2 (unat (Data4 g ! i)) in
     [Hex 8 (unat (Data1 g)), Lit ''-'', Hex 4 (unat (Data2 g)), Lit ''-'', Hex 4 (unat (Data3 g)), Lit ''-'',
      h 0, h 1, Lit ''-'', h 2, h 3, h 4, h 5, h 6, h 7])"

definition RenderFmpGuid :: "ascii_lib \<Rightarrow> efi_guid \<Rightarrow> u8 list \<Rightarrow> nat \<Rightarrow> u8 list" where
  "RenderFmpGuid L Guid Text TextSize = print_into Text (AsciiSPrint L TextSize (guid_items Guid))"

text \<open>The loop of the conversion; None is an access outside a buffer.\<close>

fun fmp_copy :: "u16 list \<Rightarrow> u8 list \<Rightarrow> nat \<Rightarrow> nat \<Rightarrow> u8 list option" where
  "fmp_copy Source Dest Index 0 = poke Dest Index 0"
| "fmp_copy Source Dest Index (Suc room) = do {
     c \<leftarrow> byte_at Source Index;
     if c = 0 then poke Dest Index 0
     else do {
       Dest \<leftarrow> poke Dest Index (if c < 0x80 then ucast c else 0x3f);
       fmp_copy Source Dest (Index + 1) room
     }
   }"

definition CopyFmpString :: "u16 list option \<Rightarrow> u8 list \<Rightarrow> nat \<Rightarrow> u8 list option" where
  "CopyFmpString Source Dest DestSize =
     (if DestSize = 0 then Some Dest
      else do {
        Dest \<leftarrow> poke Dest 0 0;
        case Source of
          None \<Rightarrow> Some Dest
        | Some S \<Rightarrow> fmp_copy S Dest 0 (DestSize - 1)
      })"

section \<open>The platform's firmware\<close>

record firmware_status =
  fw_Name :: "u8 list"
  fw_Version :: "u8 list"
  fw_ImageTypeId :: "u8 list"
  VersionNumber :: u32
  LowestSupportedVersion :: u32
  fw_LastAttemptVersion :: u32
  fw_LastAttemptStatus :: u32
  HasLastAttempt :: bool
  Updateable :: bool

definition zero_status :: firmware_status where
  "zero_status = \<lparr>fw_Name = zero_field, fw_Version = zero_field, fw_ImageTypeId = replicate 37 0, VersionNumber = 0,
     LowestSupportedVersion = 0, fw_LastAttemptVersion = 0, fw_LastAttemptStatus = 0, HasLastAttempt = False,
     Updateable = False\<rparr>"

record image_descriptor =
  img_ImageTypeId :: efi_guid
  ImageIdName :: "u16 list option"
  VersionName :: "u16 list option"
  img_Version :: u32
  LowestSupportedImageVersion :: u32
  AttributesSetting :: u64
  img_LastAttemptVersion :: u32
  img_LastAttemptStatus :: u32

definition IMAGE_ATTRIBUTE_IMAGE_UPDATABLE :: u64 where "IMAGE_ATTRIBUTE_IMAGE_UPDATABLE = 1"
definition LAST_ATTEMPT_STATUS_SUCCESS :: u32 where "LAST_ATTEMPT_STATUS_SUCCESS = 0"

text \<open>
  The answers of one handle: the protocol, the size query, the allocation, the descriptor, and
  whether a package version name came with it.
\<close>

record fmp_handle =
  FmpProtocol :: efi_status
  SizeQuery :: efi_status
  InfoAllocated :: bool
  ImageInfo :: efi_status
  Info :: image_descriptor
  fh_DescriptorVersion :: u32
  fh_DescriptorCount :: u8
  PackageVersionName :: bool

datatype fw_buffer = HandlesBuffer | InfoBuffer | NameBuffer

datatype pool_event = Acquire fw_buffer | Release fw_buffer

text \<open>The status taken from a matching descriptor.\<close>

definition fill_status :: "ascii_lib \<Rightarrow> fmp_handle \<Rightarrow> firmware_status \<Rightarrow> firmware_status option" where
  "fill_status L H Status = do {
     let D = Info H;
     let guid = RenderFmpGuid L (img_ImageTypeId D) (fw_ImageTypeId Status) 37;
     name \<leftarrow> CopyFmpString (ImageIdName D) (fw_Name Status) 64;
     ver \<leftarrow> CopyFmpString (VersionName D) (fw_Version Status) 64;
     let Status = Status\<lparr>fw_ImageTypeId := guid, fw_Name := name, fw_Version := ver, VersionNumber := img_Version D,
       LowestSupportedVersion := LowestSupportedImageVersion D,
       Updateable := (AttributesSetting D AND IMAGE_ATTRIBUTE_IMAGE_UPDATABLE \<noteq> 0)\<rparr>;
     Some (if 3 \<le> fh_DescriptorVersion H \<and>
         (img_LastAttemptStatus D \<noteq> LAST_ATTEMPT_STATUS_SUCCESS \<or> img_LastAttemptVersion D \<noteq> 0)
       then Status\<lparr>fw_LastAttemptVersion := img_LastAttemptVersion D, fw_LastAttemptStatus := img_LastAttemptStatus D,
         HasLastAttempt := True\<rparr>
       else Status)
   }"

definition platform_image :: "fmp_handle \<Rightarrow> bool" where
  "platform_image H \<longleftrightarrow> \<not> EFI_ERROR (ImageInfo H) \<and> 0 < fh_DescriptorCount H \<and>
     img_ImageTypeId (Info H) = mNucRedfishFirmwareImageTypeId"

text \<open>The loop: it ends with the first match.  Next to the status and Found, the buffers taken and freed.\<close>

fun firmware_loop ::
  "ascii_lib \<Rightarrow> fmp_handle list \<Rightarrow> firmware_status \<Rightarrow> (firmware_status \<times> bool \<times> pool_event list) option" where
  "firmware_loop L [] Status = Some (Status, False, [])"
| "firmware_loop L (H # Hs) Status =
     (if EFI_ERROR (FmpProtocol H) then firmware_loop L Hs Status
      else if SizeQuery H \<noteq> EFI_BUFFER_TOO_SMALL then firmware_loop L Hs Status
      else if \<not> InfoAllocated H then firmware_loop L Hs Status
      else do {
        let names = (if PackageVersionName H then [Acquire NameBuffer, Release NameBuffer] else []);
        let used = [Acquire InfoBuffer] @ names @ [Release InfoBuffer];
        if platform_image H then do { Status \<leftarrow> fill_status L H Status; Some (Status, True, used) }
        else do { (Status, Found, es) \<leftarrow> firmware_loop L Hs Status; Some (Status, Found, used @ es) }
      })"

text \<open>Handles is None when no instance is installed; Have: the output pointer is given.\<close>

definition NucRedfishCollectFirmwareStatus ::
  "ascii_lib \<Rightarrow> bool \<Rightarrow> fmp_handle list option \<Rightarrow> (efi_status \<times> firmware_status \<times> pool_event list) option" where
  "NucRedfishCollectFirmwareStatus L Have Handles =
     (if \<not> Have then Some (EFI_INVALID_PARAMETER, zero_status, [])
      else (case Handles of
          None \<Rightarrow> Some (EFI_NOT_FOUND, zero_status, [])
        | Some Hs \<Rightarrow> do {
            (Status, Found, es) \<leftarrow> firmware_loop L Hs zero_status;
            Some (if Found then EFI_SUCCESS else EFI_NOT_FOUND, Status, [Acquire HandlesBuffer] @ es @ [Release HandlesBuffer])
          }))"

section \<open>The inventory PATCH\<close>

definition oem_numbers :: "ascii_lib \<Rightarrow> firmware_status \<Rightarrow> u8 list \<Rightarrow> u8 list" where
  \<open>oem_numbers L S Body =
     (let N = NUC_REDFISH_JSON_MAX;
          Body = AsciiStrCatS L N Body (AsciiSPrint L 160
            [Lit '',"Oem":{"PiBmc":{"FirmwareVersion":'', Dec (uint (VersionNumber S)),
             Lit '',"LowestSupportedVersion":'', Dec (uint (LowestSupportedVersion S))])
      in if HasLastAttempt S
         then AsciiStrCatS L N Body (AsciiSPrint L 160
            [Lit '',"LastAttemptVersion":'', Dec (uint (fw_LastAttemptVersion S)),
             Lit '',"LastAttemptStatus":'', Dec (uint (fw_LastAttemptStatus S))])
         else Body)\<close>

definition NucRedfishBuildFirmwareInventoryPatch ::
  "ascii_lib \<Rightarrow> bool \<Rightarrow> firmware_status option \<Rightarrow> bool \<Rightarrow> (efi_status \<times> u8 list option) option" where
  \<open>NucRedfishBuildFirmwareInventoryPatch L Allocated Status HaveJson =
     (case Status of
        None \<Rightarrow> Some (EFI_INVALID_PARAMETER, None)
      | Some S \<Rightarrow>
          if \<not> HaveJson then Some (EFI_INVALID_PARAMETER, None)
          else if \<not> Allocated then Some (EFI_OUT_OF_RESOURCES, None)
          else do {
            let N = NUC_REDFISH_JSON_MAX;
            c \<leftarrow> byte_at (fw_Version S) 0;
            let Body = AsciiSPrint L N
              [Lit ''{"@odata.type":"#SoftwareInventory.v1_2_3.SoftwareInventory"'',
               Lit '',"Id":"'', Str (ascii NUC_REDFISH_FIRMWARE_INVENTORY_ID), Lit ''"'',
               Lit '',"Version":"'', Str (if c \<noteq> 0 then cstr (fw_Version S) else ascii ''unknown''), Lit ''"'',
               Lit '',"Updateable":'', Str (ascii (if Updateable S then ''true'' else ''false'')),
               Lit '',"Status":{"State":"Enabled","Health":"OK"}''];
            Body \<leftarrow> AppendJsonString L Body N ''Name'' (Some (fw_Name S));
            Body \<leftarrow> AppendJsonString L Body N ''SoftwareId'' (Some (fw_ImageTypeId S));
            let Body = oem_numbers L S Body;
            Some (EFI_SUCCESS, Some (AsciiStrCatS L N Body (ascii ''}}}'')))
          })\<close>

section \<open>GUID texts\<close>

lemma hex_byte_parts:
  "hex_text 8 n = hex_text 2 (n div 2 ^ 24) @ hex_text 2 (n div 2 ^ 16) @ hex_text 2 (n div 2 ^ 8) @ hex_text 2 n"
  "hex_text 4 n = hex_text 2 (n div 2 ^ 8) @ hex_text 2 n"
proof -
  show four: "hex_text 4 n = hex_text 2 (n div 2 ^ 8) @ hex_text 2 n" for n
    using hex_text_split [of 2 2 n] by simp
  have "n div 65536 div 256 = n div 16777216"
    by (simp add: div_mult2_eq [symmetric])
  then show "hex_text 8 n = hex_text 2 (n div 2 ^ 24) @ hex_text 2 (n div 2 ^ 16) @ hex_text 2 (n div 2 ^ 8) @ hex_text 2 n"
    using hex_text_split [of 4 4 n] four [of n] four [of "n div 2 ^ 16"] by simp
qed

lemma hex_of_byte: "hex_text 2 (n mod 256) = hex_text 2 n"
  using hex_text_mod [of 2 n] by simp

lemma unat_drop_bit_eq: "unat (drop_bit k (w :: 'a::len word)) = unat w div 2 ^ k"
  using unsigned_less [of w, where ?'a = nat]
  by (simp add: unsigned_drop_bit_eq take_bit_drop_bit take_bit_nat_eq_self flip: drop_bit_eq_div)

lemma unat_low_byte:
  "unat (ucast (drop_bit k (w :: u32)) :: u8) = unat w div 2 ^ k mod 256"
  "unat (ucast (drop_bit k (v :: u16)) :: u8) = unat v div 2 ^ k mod 256"
  unfolding unsigned_ucast_eq take_bit_eq_mod unat_drop_bit_eq by simp_all

lemma unat_low_byte0: "unat (ucast (w :: u32) :: u8) = unat w mod 256" "unat (ucast (v :: u16) :: u8) = unat v mod 256"
  using unat_low_byte(1) [of 0 w] unat_low_byte(2) [of 0 v] by simp_all

lemma guid_items_text:
  assumes "length (Data4 g) = 8"
  shows "print_text (uuid_items (guid_bytes g)) = print_text (guid_items g)"
proof -
  obtain a b c d e f g' h where d4: "Data4 g = [a, b, c, d, e, f, g', h]"
    using assms by (auto simp: numeral_eq_Suc length_Suc_conv)
  show ?thesis
    unfolding uuid_items_def guid_items_def guid_bytes_def le32_def le16_def Let_def print_text_def d4
    by (simp add: nth_Cons' unat_low_byte0 unat_drop_bit_eq hex_of_byte hex_byte_parts)
qed

lemma length_guid_bytes: "length (Data4 g) = 8 \<Longrightarrow> length (guid_bytes g) = 16"
  by (simp add: guid_bytes_def)

text \<open>
  C35: one text per identifier.  The UUID of the SMBIOS system structure and the GUID of the firmware
  descriptor are stored in the same byte order but rendered by different routines, the first byte by
  byte with the leading fields reversed, the second from the typed fields; for every GUID both give
  the same text, except that the SMBIOS routine declines the two values reserved for an unset UUID.
\<close>

theorem uuid_guid_agree:
  assumes "ascii_lib_ok L" "length (Data4 g) = 8"
  shows "RenderSmbiosUuid L (guid_bytes g) Text =
    (if guid_bytes g = replicate 16 0 \<or> guid_bytes g = replicate 16 0xff then (False, Text)
     else (True, RenderFmpGuid L g Text 37))"
proof -
  have "guid_bytes g = replicate 16 v \<longleftrightarrow> (\<forall>b \<in> set (guid_bytes g). b = v)" for v
    using replicate_length_same [of "guid_bytes g" v] length_guid_bytes [OF assms(2)] by auto
  moreover have "AsciiSPrint L 37 (uuid_items (guid_bytes g)) = AsciiSPrint L 37 (guid_items g)"
    using assms(1) guid_items_text [OF assms(2)] by (simp add: ascii_lib_ok_def)
  ultimately show ?thesis
    by (simp add: RenderSmbiosUuid_def RenderFmpGuid_def fold_or_zero fold_and_ones)
qed

lemma hex_byte: "hex_text 2 n = [hex_digit (n div 16 mod 16), hex_digit (n mod 16)]"
  by (simp add: numeral_2_eq_2)

theorem uuid_guid_agree_witness:
  "RenderSmbiosUuid edk2_lib (guid_bytes mNucRedfishFirmwareImageTypeId) (replicate 37 0) =
     (True, ascii ''D25F89E1-94EC-4533-80B9-7F8855CE0A94'' @ [0])"
proof -
  let ?g = mNucRedfishFirmwareImageTypeId
  have "length (Data4 ?g) = 8" "hd (guid_bytes ?g) = 0xe1"
    by (simp_all add: mNucRedfishFirmwareImageTypeId_def guid_bytes_def le32_def)
  then have "guid_bytes ?g \<noteq> replicate 16 0" "guid_bytes ?g \<noteq> replicate 16 0xff"
    by auto
  moreover have "print_text (guid_items ?g) = ascii ''D25F89E1-94EC-4533-80B9-7F8855CE0A94''"
    by (simp add: guid_items_def mNucRedfishFirmwareImageTypeId_def print_text_def hex_byte_parts hex_byte hex_digit_def ascii_def)
  ultimately show ?thesis
    using uuid_guid_agree [OF edk2_lib_ok \<open>length (Data4 ?g) = 8\<close>]
    by (simp add: RenderFmpGuid_def print_into_def SPrint_fits [OF edk2_lib_ok])
qed

section \<open>Descriptor strings\<close>

definition wide_text :: "u16 list \<Rightarrow> u16 list" where
  "wide_text S = takeWhile (\<lambda>c. c \<noteq> 0) S"

definition narrow_char :: "u16 \<Rightarrow> u8" where
  "narrow_char c = (if c < 0x80 then ucast c else 0x3f)"

definition wide_ok :: "u16 list option \<Rightarrow> bool" where
  "wide_ok S \<longleftrightarrow> (\<forall>s. S = Some s \<longrightarrow> 0 \<in> set s)"

definition narrowed :: "u16 list option \<Rightarrow> u8 list" where
  "narrowed S = (case S of None \<Rightarrow> [] | Some s \<Rightarrow> map narrow_char (take 63 (wide_text s)))"

lemma fmp_copy_spec:
  assumes "0 \<in> set (drop i S)" "i + room < length Dest"
  shows "\<exists>rest. fmp_copy S Dest i room = Some (take i Dest @ map narrow_char (take room (wide_text (drop i S))) @ 0 # rest) \<and>
    i + length (take room (wide_text (drop i S))) + Suc (length rest) = length Dest"
  using assms
proof (induction room arbitrary: i Dest)
  case 0
  then have "Dest = take i Dest @ Dest ! i # drop (Suc i) Dest"
    by (simp add: id_take_nth_drop)
  then have "Dest[i := 0] = take i Dest @ 0 # drop (Suc i) Dest"
    using 0 by (simp add: upd_conv_take_nth_drop)
  then show ?case
    using 0 by (simp add: poke_def)
next
  case (Suc room)
  then have i: "i < length S" "i < length Dest"
    by (auto intro: ccontr)
  then have S: "drop i S = S ! i # drop (Suc i) S"
    by (simp add: Cons_nth_drop_Suc)
  show ?case
  proof (cases "S ! i = 0")
    case True
    then show ?thesis
      using i S by (simp add: poke_def wide_text_def upd_conv_take_nth_drop)
  next
    case False
    have "0 \<in> set (drop (Suc i) S)"
      using Suc.prems(1) S False by auto
    moreover have "take (Suc i) (Dest[i := narrow_char (S ! i)]) = take i Dest @ [narrow_char (S ! i)]"
      using i by (simp add: take_Suc_conv_app_nth)
    ultimately show ?thesis
      using Suc.IH [of "Suc i" "Dest[i := narrow_char (S ! i)]"] Suc.prems(2) i S False
      by (simp add: poke_def wide_text_def narrow_char_def [symmetric])
  qed
qed

lemma narrow_char_ascii: "c \<noteq> 0 \<Longrightarrow> narrow_char c \<noteq> 0 \<and> narrow_char c < 0x80"
proof -
  assume "c \<noteq> 0"
  show ?thesis
  proof (cases "c < 0x80")
    case True
    then have "unat c < 128" by (simp add: word_less_nat_alt)
    then have "unat (ucast c :: u8) = unat c"
      by (simp add: unsigned_ucast_eq take_bit_nat_eq_self)
    with True \<open>unat c < 128\<close> \<open>c \<noteq> 0\<close> show ?thesis
      by (auto simp: narrow_char_def word_less_nat_alt word_unat_eq_iff)
  qed (simp add: narrow_char_def)
qed

lemma narrowed_chars: "0 \<notin> set (narrowed S)" "list_all (\<lambda>c. c < 0x80) (narrowed S)"
proof -
  have "c \<noteq> 0" if "c \<in> set (take 63 (wide_text s))" for c s
    using that by (auto simp: wide_text_def dest: in_set_takeD set_takeWhileD)
  then show "0 \<notin> set (narrowed S)" "list_all (\<lambda>c. c < 0x80) (narrowed S)"
    using narrow_char_ascii by (auto simp: narrowed_def list_all_iff split: option.splits)
qed

text \<open>The converted string is the 7-bit prefix that fits, terminated, in a field of the same size.\<close>

lemma copy_fmp:
  assumes "wide_ok S" "length Dest = 64"
  obtains V where "CopyFmpString S Dest 64 = Some V" "length V = 64" "terminated V" "cstr V = narrowed S"
proof (cases S)
  case None
  then show ?thesis
    using assms(2) by (intro that [of "Dest[0 := 0]"])
      (auto simp: CopyFmpString_def poke_def narrowed_def terminated_def cstr_def set_update_memI upd_conv_take_nth_drop)
next
  case (Some s)
  have "0 \<in> set (drop 0 s)" using assms(1) Some by (simp add: wide_ok_def)
  from fmp_copy_spec [OF this, of 63 "Dest[0 := 0]"] assms(2) obtain rest where r:
    "fmp_copy s (Dest[0 := 0]) 0 63 = Some (narrowed S @ 0 # rest)" "length (narrowed S) + Suc (length rest) = 64"
    by (auto simp: narrowed_def Some)
  show ?thesis
    using assms(2) r narrowed_chars(1) [of S] by (intro that [of "narrowed S @ 0 # rest"]) (auto simp: CopyFmpString_def poke_def Some)
qed

section \<open>Which instance is reported\<close>

definition answers :: "fmp_handle \<Rightarrow> bool" where
  "answers H \<longleftrightarrow> \<not> EFI_ERROR (FmpProtocol H) \<and> SizeQuery H = EFI_BUFFER_TOO_SMALL \<and> InfoAllocated H \<and> platform_image H"

text \<open>What a status says of the descriptor it was taken from.\<close>

definition describes_image :: "ascii_lib \<Rightarrow> fmp_handle \<Rightarrow> firmware_status \<Rightarrow> bool" where
  "describes_image L H S \<longleftrightarrow> (let D = Info H in
     cstr (fw_Name S) = narrowed (ImageIdName D) \<and> cstr (fw_Version S) = narrowed (VersionName D) \<and>
     fw_ImageTypeId S = RenderFmpGuid L mNucRedfishFirmwareImageTypeId (replicate 37 0) 37 \<and>
     VersionNumber S = img_Version D \<and> LowestSupportedVersion S = LowestSupportedImageVersion D \<and>
     (Updateable S \<longleftrightarrow> bit (AttributesSetting D) 0) \<and>
     (HasLastAttempt S \<longleftrightarrow> 3 \<le> fh_DescriptorVersion H \<and> (img_LastAttemptStatus D, img_LastAttemptVersion D) \<noteq> (0, 0)) \<and>
     (fw_LastAttemptStatus S, fw_LastAttemptVersion S) =
       (if HasLastAttempt S then (img_LastAttemptStatus D, img_LastAttemptVersion D) else (0, 0)))"

definition status_fields :: "firmware_status \<Rightarrow> bool" where
  "status_fields S \<longleftrightarrow> (\<forall>V \<in> {fw_Name S, fw_Version S}. length V = 64 \<and> terminated V)"

definition strings_ok :: "fmp_handle \<Rightarrow> bool" where
  "strings_ok H \<longleftrightarrow> wide_ok (ImageIdName (Info H)) \<and> wide_ok (VersionName (Info H))"

lemma fill_status_spec:
  assumes "strings_ok H" "platform_image H"
  shows "\<exists>S. fill_status L H zero_status = Some S \<and> describes_image L H S \<and> status_fields S"
proof -
  obtain n where n: "CopyFmpString (ImageIdName (Info H)) zero_field 64 = Some n" "length n = 64" "terminated n"
      "cstr n = narrowed (ImageIdName (Info H))"
    by (rule copy_fmp [of "ImageIdName (Info H)" zero_field])
      (use assms in \<open>auto simp: strings_ok_def zero_field_def NUC_REDFISH_STR_MAX_def\<close>)
  obtain v where v: "CopyFmpString (VersionName (Info H)) zero_field 64 = Some v" "length v = 64" "terminated v"
      "cstr v = narrowed (VersionName (Info H))"
    by (rule copy_fmp [of "VersionName (Info H)" zero_field])
      (use assms in \<open>auto simp: strings_ok_def zero_field_def NUC_REDFISH_STR_MAX_def\<close>)
  have "AttributesSetting (Info H) AND 1 \<noteq> 0 \<longleftrightarrow> bit (AttributesSetting (Info H)) 0"
    by (simp add: and_one_eq bit_0 odd_iff_mod_2_eq_one)
  then show ?thesis
    using n v assms(2)
    by (simp add: fill_status_def zero_status_def describes_image_def status_fields_def platform_image_def Let_def
        IMAGE_ATTRIBUTE_IMAGE_UPDATABLE_def LAST_ATTEMPT_STATUS_SUCCESS_def)
qed

text \<open>The buffers held after a sequence of pool events; None if one is freed that is not held.\<close>

fun outstanding :: "fw_buffer list \<Rightarrow> pool_event list \<Rightarrow> fw_buffer list option" where
  "outstanding held [] = Some held"
| "outstanding held (Acquire b # es) = outstanding (b # held) es"
| "outstanding held (Release b # es) = (if b \<in> set held then outstanding (remove1 b held) es else None)"

lemma outstanding_append:
  "outstanding held (es @ es') = (case outstanding held es of None \<Rightarrow> None | Some h \<Rightarrow> outstanding h es')"
  by (induction held es rule: outstanding.induct) auto

lemma firmware_loop_spec:
  assumes "\<forall>H \<in> set Hs. strings_ok H"
  shows "\<exists>S Found es. firmware_loop L Hs zero_status = Some (S, Found, es) \<and> (\<forall>held. outstanding held es = Some held) \<and>
    (case find answers Hs of
       None \<Rightarrow> \<not> Found \<and> S = zero_status
     | Some H \<Rightarrow> Found \<and> describes_image L H S \<and> status_fields S)"
  using assms
proof (induction Hs)
  case (Cons H Hs)
  then obtain S Found es where IH: "firmware_loop L Hs zero_status = Some (S, Found, es)"
    "\<forall>held. outstanding held es = Some held"
    "case find answers Hs of None \<Rightarrow> \<not> Found \<and> S = zero_status | Some H \<Rightarrow> Found \<and> describes_image L H S \<and> status_fields S"
    by auto
  show ?case
  proof (cases "answers H")
    case True
    then have "platform_image H" by (simp add: answers_def)
    with fill_status_spec [of H L] Cons.prems obtain S' where
      "fill_status L H zero_status = Some S'" "describes_image L H S'" "status_fields S'"
      by auto
    with True show ?thesis
      by (auto simp: answers_def [of H])
  next
    case False
    then show ?thesis
      using IH by (auto simp: answers_def [of H] outstanding_append)
  qed
qed auto

text \<open>
  C36: the firmware reported.  For every list of firmware management instances and whatever each
  answers, the status is taken from the first instance that yields a descriptor of this platform's
  image: its strings cut to their fields, its versions, and its last attempt exactly when the
  descriptor is recent enough to carry one and the pair is not the all-zero default.  Without such an
  instance the answer is EFI\_NOT\_FOUND and nothing is filled in.  Either way everything taken from
  the pool is returned.
\<close>

theorem firmware_status_spec:
  assumes "\<forall>H \<in> set Hs. strings_ok H"
  shows "\<exists>Status S es. NucRedfishCollectFirmwareStatus L True (Some Hs) = Some (Status, S, es) \<and> outstanding [] es = Some [] \<and>
    (case find answers Hs of
       None \<Rightarrow> Status = EFI_NOT_FOUND \<and> S = zero_status
     | Some H \<Rightarrow> Status = EFI_SUCCESS \<and> describes_image L H S \<and> status_fields S)"
  using firmware_loop_spec [OF assms, of L]
  by (auto simp: NucRedfishCollectFirmwareStatus_def outstanding_append split: option.splits)

definition demo_fmp :: "u32 \<Rightarrow> fmp_handle" where
  "demo_fmp v = \<lparr>FmpProtocol = EFI_SUCCESS, SizeQuery = EFI_BUFFER_TOO_SMALL, InfoAllocated = True, ImageInfo = EFI_SUCCESS,
     Info = \<lparr>img_ImageTypeId = mNucRedfishFirmwareImageTypeId, ImageIdName = None, VersionName = Some [0x34, 0x100, 0],
       img_Version = v, LowestSupportedImageVersion = 1, AttributesSetting = 5, img_LastAttemptVersion = 7,
       img_LastAttemptStatus = 0\<rparr>,
     fh_DescriptorVersion = 3, fh_DescriptorCount = 1, PackageVersionName = True\<rparr>"

theorem firmware_status_spec_witness:
  "\<exists>S es. NucRedfishCollectFirmwareStatus edk2_lib True (Some [demo_fmp 7 \<lparr>fh_DescriptorCount := 0\<rparr>, demo_fmp 8, demo_fmp 9]) =
     Some (EFI_SUCCESS, S, es) \<and> VersionNumber S = 8 \<and> HasLastAttempt S \<and> Updateable S \<and> cstr (fw_Version S) = [0x34, 0x3f]"
proof -
  let ?Hs = "[demo_fmp 7 \<lparr>fh_DescriptorCount := 0\<rparr>, demo_fmp 8, demo_fmp 9]"
  have "\<forall>H \<in> set ?Hs. strings_ok H" "find answers ?Hs = Some (demo_fmp 8)"
    by (simp_all add: strings_ok_def wide_ok_def answers_def platform_image_def demo_fmp_def)
  from firmware_status_spec [OF this(1), of edk2_lib] this(2) obtain S es where
    "NucRedfishCollectFirmwareStatus edk2_lib True (Some ?Hs) = Some (EFI_SUCCESS, S, es)" "describes_image edk2_lib (demo_fmp 8) S"
    by auto
  then show ?thesis
    by (simp add: describes_image_def demo_fmp_def narrowed_def wide_text_def narrow_char_def bit_0 Let_def)
qed

section \<open>The PATCH is JSON when the version is plain\<close>

definition plain_byte :: "u8 \<Rightarrow> bool" where
  "plain_byte c \<longleftrightarrow> 0x20 \<le> c \<and> c < 0x80 \<and> c \<noteq> 0x22 \<and> c \<noteq> 0x5c"

lemma json_chars_bytes: "list_all plain_byte v \<Longrightarrow> json_chars v v"
  by (induction v) (auto simp: plain_byte_def intro: json_chars.intros)

definition version_text :: "firmware_status \<Rightarrow> u8 list" where
  "version_text S = (if cstr (fw_Version S) = [] then ascii ''unknown'' else cstr (fw_Version S))"

definition firmware_head :: "u8 list \<Rightarrow> bool \<Rightarrow> u8 list" where
  \<open>firmware_head v u = ascii ''{"@odata.type":"#SoftwareInventory.v1_2_3.SoftwareInventory","Id":"BiosFirmware","Version":"'' @
     v @ ascii ''","Updateable":'' @ ascii (if u then ''true'' else ''false'') @
     ascii '',"Status":{"State":"Enabled","Health":"OK"}''\<close>

definition oem_member :: "firmware_status \<Rightarrow> u8 list" where
  \<open>oem_member S = ascii '',"Oem":{"PiBmc":{"FirmwareVersion":'' @ dec_nat (unat (VersionNumber S)) @
     ascii '',"LowestSupportedVersion":'' @ dec_nat (unat (LowestSupportedVersion S)) @
     (if HasLastAttempt S then ascii '',"LastAttemptVersion":'' @ dec_nat (unat (fw_LastAttemptVersion S)) @
        ascii '',"LastAttemptStatus":'' @ dec_nat (unat (fw_LastAttemptStatus S)) else [])\<close>

lemma dec_uint: "dec_int (uint (w :: u32)) = dec_nat (unat w)"
  by (simp add: dec_int_def)

lemma length_dec_u32: "length (dec_nat (unat (w :: u32))) \<le> 10"
  using unsigned_less [of w, where ?'a = nat] by (intro length_dec_nat) auto

lemma length_oem_member: "length (oem_member S) \<le> 165"
  using length_dec_u32 [of "VersionNumber S"] length_dec_u32 [of "LowestSupportedVersion S"]
    length_dec_u32 [of "fw_LastAttemptVersion S"] length_dec_u32 [of "fw_LastAttemptStatus S"]
  by (simp add: oem_member_def)

lemma oem_step:
  assumes "ascii_lib_ok L" "length b + length (oem_member S) < 1024"
  shows "oem_numbers L S b = b @ oem_member S"
proof -
  let ?u = "dec_nat (unat (VersionNumber S))" and ?l = "dec_nat (unat (LowestSupportedVersion S))"
    and ?v = "dec_nat (unat (fw_LastAttemptVersion S))" and ?s = "dec_nat (unat (fw_LastAttemptStatus S))"
  have "length ?u \<le> 10" "length ?l \<le> 10" "length ?v \<le> 10" "length ?s \<le> 10"
    by (rule length_dec_u32)+
  then have \<open>AsciiSPrint L 160 [Lit '',"Oem":{"PiBmc":{"FirmwareVersion":'', Dec (uint (VersionNumber S)),
        Lit '',"LowestSupportedVersion":'', Dec (uint (LowestSupportedVersion S))] =
      ascii '',"Oem":{"PiBmc":{"FirmwareVersion":'' @ ?u @ ascii '',"LowestSupportedVersion":'' @ ?l\<close>
    \<open>AsciiSPrint L 160 [Lit '',"LastAttemptVersion":'', Dec (uint (fw_LastAttemptVersion S)),
        Lit '',"LastAttemptStatus":'', Dec (uint (fw_LastAttemptStatus S))] =
      ascii '',"LastAttemptVersion":'' @ ?v @ ascii '',"LastAttemptStatus":'' @ ?s\<close>
    by (simp_all add: SPrint_fits [OF assms(1)] print_text_def dec_uint)
  then show ?thesis
    using assms by (simp add: oem_numbers_def NUC_REDFISH_JSON_MAX_def StrCatS_fits oem_member_def split: if_splits)
qed

definition oem_entries :: "firmware_status \<Rightarrow> (u8 list \<times> json) list" where
  "oem_entries S = [(ascii ''FirmwareVersion'', JNum (unat (VersionNumber S))),
     (ascii ''LowestSupportedVersion'', JNum (unat (LowestSupportedVersion S)))] @
     (if HasLastAttempt S then [(ascii ''LastAttemptVersion'', JNum (unat (fw_LastAttemptVersion S))),
        (ascii ''LastAttemptStatus'', JNum (unat (fw_LastAttemptStatus S)))] else [])"

definition oem_value :: "firmware_status \<Rightarrow> json" where
  "oem_value S = JObj [(ascii ''PiBmc'', JObj (oem_entries S))]"

lemma members_num:
  "json_members m ms \<Longrightarrow> list_all plain_char k \<Longrightarrow>
   json_members (m @ [0x2c, 0x22] @ ascii k @ [0x22, 0x3a] @ dec_nat n) (ms @ [(ascii k, JNum n)])"
  by (intro members_more json_chars_plain text_number)

lemma oem_text: \<open>json_text (drop 7 (oem_member S) @ ascii ''}}'') (oem_value S)\<close>
proof -
  have base: "json_members ([0x22] @ ascii ''FirmwareVersion'' @ [0x22, 0x3a] @ dec_nat (unat (VersionNumber S)))
      [(ascii ''FirmwareVersion'', JNum (unat (VersionNumber S)))]"
    by (intro members_one json_chars_plain text_number) (simp add: plain_char.simps)
  have two: "json_members (([0x22] @ ascii ''FirmwareVersion'' @ [0x22, 0x3a] @ dec_nat (unat (VersionNumber S))) @
      [0x2c, 0x22] @ ascii ''LowestSupportedVersion'' @ [0x22, 0x3a] @ dec_nat (unat (LowestSupportedVersion S)))
      ([(ascii ''FirmwareVersion'', JNum (unat (VersionNumber S)))] @
       [(ascii ''LowestSupportedVersion'', JNum (unat (LowestSupportedVersion S)))])"
    by (intro members_num base) (simp add: plain_char.simps)
  have four: "json_members (((([0x22] @ ascii ''FirmwareVersion'' @ [0x22, 0x3a] @ dec_nat (unat (VersionNumber S))) @
      [0x2c, 0x22] @ ascii ''LowestSupportedVersion'' @ [0x22, 0x3a] @ dec_nat (unat (LowestSupportedVersion S))) @
      [0x2c, 0x22] @ ascii ''LastAttemptVersion'' @ [0x22, 0x3a] @ dec_nat (unat (fw_LastAttemptVersion S))) @
      [0x2c, 0x22] @ ascii ''LastAttemptStatus'' @ [0x22, 0x3a] @ dec_nat (unat (fw_LastAttemptStatus S)))
      ((([(ascii ''FirmwareVersion'', JNum (unat (VersionNumber S)))] @
       [(ascii ''LowestSupportedVersion'', JNum (unat (LowestSupportedVersion S)))]) @
       [(ascii ''LastAttemptVersion'', JNum (unat (fw_LastAttemptVersion S)))]) @
       [(ascii ''LastAttemptStatus'', JNum (unat (fw_LastAttemptStatus S)))])"
    by (intro members_num two) (simp_all add: plain_char.simps)
  have wrap: "json_text ([0x7b, 0x22] @ ascii ''PiBmc'' @ [0x22, 0x3a, 0x7b] @ m @ [0x7d, 0x7d]) (JObj [(ascii ''PiBmc'', JObj ms)])"
    if "json_members m ms" for m ms
    using text_object [OF members_one [OF json_chars_plain text_object [OF that], of "''PiBmc''"]]
    by (simp add: plain_char.simps)
  show ?thesis
    using wrap [OF two] wrap [OF four]
    by (cases "HasLastAttempt S") (simp_all add: oem_value_def oem_entries_def oem_member_def ascii_def)
qed

lemma oem_close:
  assumes "open_object b ms"
  shows "json_text (b @ oem_member S @ ascii ''}}}'') (JObj (ms @ [(ascii ''Oem'', oem_value S)]))"
proof -
  obtain m where m: "b = [0x7b] @ m" "json_members m ms"
    using assms by (auto simp: open_object_def)
  have \<open>oem_member S = ascii '',"Oem":'' @ drop 7 (oem_member S)\<close>
    by (simp add: oem_member_def ascii_def)
  then have "b @ oem_member S @ ascii ''}}}'' = [0x7b] @ (m @ [0x2c, 0x22] @ ascii ''Oem'' @ [0x22, 0x3a] @
      (drop 7 (oem_member S) @ ascii ''}}'')) @ [0x7d]"
    using m(1) by (simp add: ascii_def)
  then show ?thesis
    using text_object [OF members_more [OF m(2) json_chars_plain oem_text [of S], of "''Oem''"]] by (simp add: plain_char.simps)
qed

lemma firmware_base:
  assumes "json_chars v v'"
  shows "open_object (firmware_head v u)
    [(ascii ''@odata.type'', str_val ''#SoftwareInventory.v1_2_3.SoftwareInventory''), (ascii ''Id'', str_val ''BiosFirmware''),
     (ascii ''Version'', JStr v'), (ascii ''Updateable'', JBool u), (ascii ''Status'', status_ok ''Enabled'')]"
proof -
  have schema: "json_members ([0x22] @ ascii ''@odata.type'' @ [0x22, 0x3a] @
      [0x22] @ ascii ''#SoftwareInventory.v1_2_3.SoftwareInventory'' @ [0x22])
      [(ascii ''@odata.type'', str_val ''#SoftwareInventory.v1_2_3.SoftwareInventory'')]"
    by (intro members_one json_chars_plain text_plain) (simp_all add: plain_char.simps)
  have bool: "json_text (ascii (if u then ''true'' else ''false'')) (JBool u)"
    by (cases u) (simp_all add: text_true text_false)
  from members_more [OF members_more [OF members_more [OF members_more [OF schema json_chars_plain text_plain]
      json_chars_plain text_string [OF assms]] json_chars_plain bool] json_chars_plain status_text,
      of "''Id''" "''BiosFirmware''" "''Version''" "''Updateable''" "''Status''" "''Enabled''"]
  show ?thesis
    by (simp add: open_object_def firmware_head_def ascii_def plain_char.simps)
qed

definition firmware_text :: "firmware_status \<Rightarrow> u8 list" where
  "firmware_text S = firmware_head (version_text S) (Updateable S) @ option_member ''Name'' (Some (fw_Name S)) @
     option_member ''SoftwareId'' (Some (fw_ImageTypeId S)) @ oem_member S @ ascii ''}}}''"

text \<open>What the collector guarantees: two 64-byte fields and the text of the GUID.\<close>

definition firmware_ok :: "firmware_status \<Rightarrow> bool" where
  "firmware_ok S \<longleftrightarrow> status_fields S \<and> terminated (fw_ImageTypeId S) \<and> length (cstr (fw_ImageTypeId S)) \<le> 36"

lemma version_text_cases:
  assumes "status_fields S"
  obtains c where "byte_at (fw_Version S) 0 = Some c" "(if c \<noteq> 0 then cstr (fw_Version S) else ascii ''unknown'') = version_text S"
proof -
  have "length (fw_Version S) = 64"
    using assms by (simp add: status_fields_def)
  then show ?thesis
    by (intro that [of "fw_Version S ! 0"]; cases "fw_Version S") (auto simp: version_text_def cstr_def)
qed

lemma firmware_room:
  assumes "firmware_ok S"
  shows "length (firmware_text S) < 1024"
proof -
  have t: "text_ok (fw_Name S)" "text_ok (fw_Version S)"
    using assms by (auto simp: firmware_ok_def status_fields_def intro: field_text_ok)
  have "length (version_text S) \<le> 63"
    using t(2) by (simp add: version_text_def text_ok_def)
  moreover have "length (option_member ''SoftwareId'' (Some (fw_ImageTypeId S))) \<le> 88"
    using assms length_option_member [of "fw_ImageTypeId S" 36 "''SoftwareId''"] by (simp add: firmware_ok_def)
  ultimately show ?thesis
    using length_string_member [OF t(1), of "''Name''"] length_oem_member [of S]
    by (simp add: firmware_text_def firmware_head_def option_member_def)
qed

lemma firmware_patch_text:
  assumes "ascii_lib_ok L" "firmware_ok S"
  shows "NucRedfishBuildFirmwareInventoryPatch L True (Some S) True = Some (EFI_SUCCESS, Some (firmware_text S))"
proof -
  obtain c where c: "byte_at (fw_Version S) 0 = Some c" "(if c \<noteq> 0 then cstr (fw_Version S) else ascii ''unknown'') = version_text S"
    using assms(2) version_text_cases by (auto simp: firmware_ok_def)
  define h where "h = firmware_head (version_text S) (Updateable S)"
  have room: "length h + length (option_member ''Name'' (Some (fw_Name S))) +
      length (option_member ''SoftwareId'' (Some (fw_ImageTypeId S))) + length (oem_member S) + 3 < 1024"
    using firmware_room [OF assms(2)] by (simp add: firmware_text_def h_def)
  have print: \<open>AsciiSPrint L 1024 [Lit ''{"@odata.type":"#SoftwareInventory.v1_2_3.SoftwareInventory"'',
       Lit '',"Id":"'', Str (ascii NUC_REDFISH_FIRMWARE_INVENTORY_ID), Lit ''"'', Lit '',"Version":"'', Str (version_text S), Lit ''"'',
       Lit '',"Updateable":'', Str (ascii (if Updateable S then ''true'' else ''false'')),
       Lit '',"Status":{"State":"Enabled","Health":"OK"}''] = h\<close> (is "AsciiSPrint L 1024 ?items = h")
  proof -
    have "print_text ?items = h"
      by (simp add: print_text_def h_def firmware_head_def NUC_REDFISH_FIRMWARE_INVENTORY_ID_def) (simp add: ascii_def)
    then show ?thesis
      using room SPrint_fits [OF assms(1), of ?items 1024] by simp
  qed
  have "texts_ok (Some (fw_Name S))" "texts_ok (Some (fw_ImageTypeId S))"
    using assms(2) by (auto simp: texts_ok_def firmware_ok_def status_fields_def text_ok_def intro: field_text_ok [unfolded text_ok_def, THEN conjunct2])
  then show ?thesis
    unfolding firmware_text_def h_def [symmetric] NucRedfishBuildFirmwareInventoryPatch_def NUC_REDFISH_JSON_MAX_def
      Let_def option.case simp_thms if_False c Option.bind.simps print
    using assms(1) room by (simp add: append_step cat_step oem_step)
qed

definition firmware_entries :: "firmware_status \<Rightarrow> (u8 list \<times> json) list" where
  "firmware_entries S = [(ascii ''@odata.type'', str_val ''#SoftwareInventory.v1_2_3.SoftwareInventory''),
      (ascii ''Id'', str_val ''BiosFirmware''), (ascii ''Version'', JStr (version_text S)), (ascii ''Updateable'', JBool (Updateable S)),
      (ascii ''Status'', status_ok ''Enabled'')] @ string_entry ''Name'' (Some (fw_Name S)) @
      string_entry ''SoftwareId'' (Some (fw_ImageTypeId S)) @ [(ascii ''Oem'', oem_value S)]"

lemma firmware_text_json:
  assumes "list_all plain_byte (cstr (fw_Version S))" "ascii7 (fw_Name S)" "ascii7 (fw_ImageTypeId S)"
  shows "json_text (firmware_text S) (JObj (firmware_entries S))"
proof -
  have "list_all plain_byte (ascii ''unknown'')"
    by (simp add: plain_byte_def ascii_def)
  then have v: "json_chars (version_text S) (version_text S)"
    using assms(1) by (intro json_chars_bytes) (simp add: version_text_def)
  have "open_object ((firmware_head (version_text S) (Updateable S) @ option_member ''Name'' (Some (fw_Name S))) @
      option_member ''SoftwareId'' (Some (fw_ImageTypeId S)))
    (([(ascii ''@odata.type'', str_val ''#SoftwareInventory.v1_2_3.SoftwareInventory''),
      (ascii ''Id'', str_val ''BiosFirmware''), (ascii ''Version'', JStr (version_text S)), (ascii ''Updateable'', JBool (Updateable S)),
      (ascii ''Status'', status_ok ''Enabled'')] @ string_entry ''Name'' (Some (fw_Name S))) @
      string_entry ''SoftwareId'' (Some (fw_ImageTypeId S)))"
    using assms(2,3) by (intro open_string firmware_base v) (auto simp: plain_char.simps)
  from oem_close [OF this, of S] show ?thesis
    by (simp add: firmware_text_def firmware_entries_def)
qed

text \<open>
  C40: the firmware PATCH.  For a collected status whose name and GUID text are 7-bit and whose version
  has no quote, backslash or control character, the body fits its buffer and is a JSON object: schema,
  id, the version or the word unknown, whether it can be updated, the status, the name and the GUID
  unless empty, and the vendor object, which has the last attempt exactly when there is one.
\<close>

theorem firmware_patch_json:
  assumes "ascii_lib_ok L" "firmware_ok S" "list_all plain_byte (cstr (fw_Version S))"
    and "ascii7 (fw_Name S)" "ascii7 (fw_ImageTypeId S)"
  shows "\<exists>Body. NucRedfishBuildFirmwareInventoryPatch L True (Some S) True = Some (EFI_SUCCESS, Some Body) \<and> length Body < 1024 \<and>
    json_text Body (JObj (firmware_entries S))"
  using firmware_patch_text [OF assms(1,2)] firmware_room [OF assms(2)] firmware_text_json [OF assms(3-5)] by blast

definition demo_status :: "u8 list \<Rightarrow> firmware_status" where
  "demo_status v = zero_status\<lparr>fw_Version := v @ replicate (64 - length v) 0, VersionNumber := 8\<rparr>"

lemma demo_status_ok:
  assumes "0 \<notin> set v" "length v < 64"
  shows "firmware_ok (demo_status v)" "cstr (fw_Version (demo_status v)) = v" "ascii7 (fw_Name (demo_status v))"
    "ascii7 (fw_ImageTypeId (demo_status v))"
proof -
  obtain k where k: "64 - length v = Suc k"
    using assms(2) by (cases "64 - length v") auto
  have z: "cstr (replicate (Suc n) 0) = []" for n
    by (simp add: cstr_def)
  show "firmware_ok (demo_status v)" "cstr (fw_Version (demo_status v)) = v" "ascii7 (fw_Name (demo_status v))"
    "ascii7 (fw_ImageTypeId (demo_status v))"
    using assms k z [of 63] z [of 36]
    by (auto simp: demo_status_def zero_status_def firmware_ok_def status_fields_def ascii7_def zero_field_def
        NUC_REDFISH_STR_MAX_def terminated_def)
qed

theorem firmware_patch_json_witness:
  "\<exists>Body v. NucRedfishBuildFirmwareInventoryPatch edk2_lib True (Some (demo_status (ascii ''4.22''))) True = Some (EFI_SUCCESS, Some Body) \<and>
     json_text Body v"
proof -
  have "list_all plain_byte (ascii ''4.22'')" "0 \<notin> set (ascii ''4.22'')" "length (ascii ''4.22'') < 64"
    by (simp_all add: plain_byte_def ascii_def)
  with firmware_patch_json [OF edk2_lib_ok demo_status_ok(1) _ demo_status_ok(3,4)] demo_status_ok(2) show ?thesis
    by metis
qed

section \<open>The version is not escaped\<close>

text \<open>The number of quotes in a text that no backslash precedes.\<close>

fun open_quotes :: "u8 list \<Rightarrow> nat" where
  "open_quotes [] = 0"
| "open_quotes [c] = of_bool (c = 0x22)"
| "open_quotes (c # d # cs) = (if c = 0x5c then open_quotes cs else of_bool (c = 0x22) + open_quotes (d # cs))"

lemma open_quotes_cons: "c \<noteq> 0x5c \<Longrightarrow> open_quotes (c # cs) = of_bool (c = 0x22) + open_quotes cs"
  by (cases cs) auto

lemma open_quotes_chars: "json_chars cs s \<Longrightarrow> open_quotes (cs @ r) = open_quotes r"
  by (induction rule: json_chars.induct) (auto simp: open_quotes_cons)

lemma open_quotes_plain: "list_all plain_byte cs \<Longrightarrow> open_quotes (cs @ r) = open_quotes r"
  by (rule open_quotes_chars [OF json_chars_bytes])

lemma dec_nat_plain: "list_all plain_byte (dec_nat n)"
proof (induction n rule: dec_nat.induct)
  case (1 n)
  have "plain_byte (0x30 + of_nat d)" if "d < 10" for d
    using that by (auto simp: plain_byte_def word_less_nat_alt word_le_nat_alt unat_word_ariths unat_of_nat word_unat_eq_iff)
  then show ?case
    using 1 by (simp add: dec_nat.simps [of n])
qed

lemma json_even_quotes:
  "json_text t v \<Longrightarrow> \<exists>k. \<forall>r. open_quotes (t @ r) = 2 * k + open_quotes r"
  "json_members m ms \<Longrightarrow> \<exists>k. \<forall>r. open_quotes (m @ r) = 2 * k + open_quotes r"
proof (induction rule: json_text_json_members.inducts)
  case (text_string cs s)
  then show ?case
    by (intro exI [of _ 1]) (simp add: open_quotes_cons open_quotes_chars)
next
  case (text_number n)
  show ?case
    by (intro exI [of _ 0]) (simp add: open_quotes_plain dec_nat_plain)
next
  case text_true
  show ?case
    by (intro exI [of _ 0]) (simp add: ascii_def open_quotes_cons)
next
  case text_false
  show ?case
    by (intro exI [of _ 0]) (simp add: ascii_def open_quotes_cons)
next
  case (text_array t v)
  then obtain k where "\<forall>r. open_quotes (t @ r) = 2 * k + open_quotes r" by blast
  then show ?case
    by (intro exI [of _ k]) (simp add: open_quotes_cons)
next
  case (text_object m ms)
  then obtain k where "\<forall>r. open_quotes (m @ r) = 2 * k + open_quotes r" by blast
  then show ?case
    by (intro exI [of _ k]) (simp add: open_quotes_cons)
next
  case (members_one k' k t v)
  then obtain j where "\<forall>r. open_quotes (t @ r) = 2 * j + open_quotes r" by blast
  with members_one show ?case
    by (intro exI [of _ "Suc j"]) (simp add: open_quotes_cons open_quotes_chars)
next
  case (members_more m ms k' k t v)
  then obtain i j where "\<forall>r. open_quotes (m @ r) = 2 * i + open_quotes r" "\<forall>r. open_quotes (t @ r) = 2 * j + open_quotes r"
    by blast
  with members_more show ?case
    by (intro exI [of _ "i + Suc j"]) (simp add: open_quotes_cons open_quotes_chars)
qed

lemma json_text_even: "json_text t v \<Longrightarrow> even (open_quotes t)"
proof -
  assume "json_text t v"
  then obtain k where "\<forall>r. open_quotes (t @ r) = 2 * k + open_quotes r"
    using json_even_quotes(1) by blast
  from spec [OF this, of "[]"] show ?thesis by simp
qed

text \<open>
  a quote in the version breaks the PATCH.  The version is inserted without the escaping that the
  other strings get: for the one-character version string consisting of a quote, a value the collector
  can produce, the body reported as built is no JSON text.
\<close>

theorem firmware_version_unescaped:
  "\<exists>Body. NucRedfishBuildFirmwareInventoryPatch edk2_lib True (Some (demo_status [0x22])) True = Some (EFI_SUCCESS, Some Body) \<and>
    \<not> (\<exists>v. json_text Body v)"
proof -
  let ?S = "demo_status [0x22]"
  have ok: "firmware_ok ?S" "version_text ?S = [0x22]"
    using demo_status_ok [of "[0x22]"] by (simp_all add: version_text_def)
  have z: "cstr (replicate 64 0) = []" "cstr (replicate 37 0) = []"
    by (simp_all add: cstr_def)
  have d: "open_quotes (dec_nat n @ r) = open_quotes r" for n r
    by (rule open_quotes_plain [OF dec_nat_plain])
  have "open_quotes (firmware_text ?S) = 33"
    unfolding firmware_text_def firmware_head_def oem_member_def ok(2)
    by (simp add: demo_status_def zero_status_def option_member_def string_member_def zero_field_def NUC_REDFISH_STR_MAX_def
        z ascii_def open_quotes_cons d)
  then have "\<not> json_text (firmware_text ?S) v" for v
    using json_text_even [of "firmware_text ?S" v] by auto
  then show ?thesis
    using firmware_patch_text [OF edk2_lib_ok ok(1)] by blast
qed

section \<open>What the PATCH does to an earlier record\<close>

text \<open>
  The merge of a PATCH into the stored resource is the management controller's, and is a parameter;
  the comment in the source says how it works: key by key at the top level.
\<close>

definition top_level_merge ::
  "((u8 list \<times> json) list \<Rightarrow> (u8 list \<times> json) list \<Rightarrow> (u8 list \<times> json) list) \<Rightarrow> bool" where
  "top_level_merge f \<longleftrightarrow>
     (\<forall>old new k. map_of (f old new) k = (case map_of new k of None \<Rightarrow> map_of old k | Some v \<Rightarrow> Some v))"

text \<open>
  reporting without a last attempt erases the stored one.  The vendor object is sent on every
  boot; with a merge that works at the top level, a PATCH for a status without a last attempt leaves
  a vendor object without one, whatever had been stored.
\<close>

theorem last_attempt_wiped:
  assumes "ascii_lib_ok L" "firmware_ok S" "list_all plain_byte (cstr (fw_Version S))"
    and "ascii7 (fw_Name S)" "ascii7 (fw_ImageTypeId S)" "\<not> HasLastAttempt S" "top_level_merge merge"
  shows "\<exists>Body ms Pi. NucRedfishBuildFirmwareInventoryPatch L True (Some S) True = Some (EFI_SUCCESS, Some Body) \<and>
    json_text Body (JObj ms) \<and>
    map_of (merge stored ms) (ascii ''Oem'') = Some (JObj [(ascii ''PiBmc'', JObj Pi)]) \<and>
    map_of Pi (ascii ''LastAttemptVersion'') = None \<and> map_of Pi (ascii ''LastAttemptStatus'') = None"
proof -
  have "map_of (firmware_entries S) (ascii ''Oem'') = Some (oem_value S)"
    by (auto simp: firmware_entries_def string_entry_def map_add_def ascii_def split: if_splits)
  then have "map_of (merge stored (firmware_entries S)) (ascii ''Oem'') = Some (oem_value S)"
    using assms(7) by (simp add: top_level_merge_def)
  moreover have "map_of (oem_entries S) (ascii ''LastAttemptVersion'') = None" "map_of (oem_entries S) (ascii ''LastAttemptStatus'') = None"
    using assms(6) by (simp_all add: oem_entries_def ascii_def)
  ultimately show ?thesis
    using firmware_patch_text [OF assms(1,2)] firmware_text_json [OF assms(3-5)] by (metis oem_value_def)
qed

definition overwrite :: "(u8 list \<times> json) list \<Rightarrow> (u8 list \<times> json) list \<Rightarrow> (u8 list \<times> json) list" where
  "overwrite old new = new @ old"

theorem last_attempt_wiped_witness:
  "\<exists>Body ms Pi. NucRedfishBuildFirmwareInventoryPatch edk2_lib True (Some (demo_status (ascii ''4.22''))) True = Some (EFI_SUCCESS, Some Body) \<and>
    json_text Body (JObj ms) \<and>
    map_of (overwrite [(ascii ''Oem'', JObj [(ascii ''PiBmc'', JObj [(ascii ''LastAttemptStatus'', JNum 1)])])] ms) (ascii ''Oem'') =
      Some (JObj [(ascii ''PiBmc'', JObj Pi)]) \<and> map_of Pi (ascii ''LastAttemptStatus'') = None"
proof -
  have v: "list_all plain_byte (ascii ''4.22'')" "0 \<notin> set (ascii ''4.22'')" "length (ascii ''4.22'') < 64"
    by (simp_all add: plain_byte_def ascii_def)
  note ok = demo_status_ok [OF v(2,3)]
  have "\<not> HasLastAttempt (demo_status (ascii ''4.22''))" "top_level_merge overwrite"
    by (auto simp: demo_status_def zero_status_def top_level_merge_def overwrite_def map_add_def split: option.splits)
  from last_attempt_wiped [OF edk2_lib_ok ok(1) _ ok(3,4) this] v(1) ok(2) show ?thesis
    by metis
qed

end
