(* ===== verification/BootOptions.thy ===== *)
theory BootOptions
  imports AsciiText
begin

text \<open>
  The choice of a boot option in NucRedfishSyncDxe/NucRedfishSyncDxe.c: the tests on device paths and
  the search for the first option of the class that a boot override names.  The file path of an
  option is the list of its nodes before the end node, each with its type and sub-type; None is a
  null pointer.  The node numbers and option attributes are those of the UEFI specification.
\<close>

type_synonym path_node = "u8 \<times> u8"

record load_option =
  OptionNumber :: u16
  Attributes :: u32
  FilePath :: "path_node list option"

definition MESSAGING_DEVICE_PATH :: u8 where "MESSAGING_DEVICE_PATH = 0x03"
definition MEDIA_DEVICE_PATH :: u8 where "MEDIA_DEVICE_PATH = 0x04"
definition MEDIA_HARDDRIVE_DP :: u8 where "MEDIA_HARDDRIVE_DP = 0x01"
definition MSG_ATAPI_DP :: u8 where "MSG_ATAPI_DP = 0x01"
definition MSG_SCSI_DP :: u8 where "MSG_SCSI_DP = 0x02"
definition MSG_USB_DP :: u8 where "MSG_USB_DP = 0x05"
definition MSG_MAC_ADDR_DP :: u8 where "MSG_MAC_ADDR_DP = 0x0b"
definition MSG_SATA_DP :: u8 where "MSG_SATA_DP = 0x12"
definition MSG_NVME_NAMESPACE_DP :: u8 where "MSG_NVME_NAMESPACE_DP = 0x17"
definition MSG_UFS_DP :: u8 where "MSG_UFS_DP = 0x19"
definition MSG_SD_DP :: u8 where "MSG_SD_DP = 0x1a"
definition MSG_EMMC_DP :: u8 where "MSG_EMMC_DP = 0x1d"
definition LOAD_OPTION_CATEGORY :: u32 where "LOAD_OPTION_CATEGORY = 0x1f00"
definition LOAD_OPTION_CATEGORY_APP :: u32 where "LOAD_OPTION_CATEGORY_APP = 0x100"

lemmas node_numbers = MESSAGING_DEVICE_PATH_def MEDIA_DEVICE_PATH_def MEDIA_HARDDRIVE_DP_def MSG_ATAPI_DP_def
  MSG_SCSI_DP_def MSG_USB_DP_def MSG_MAC_ADDR_DP_def MSG_SATA_DP_def MSG_NVME_NAMESPACE_DP_def MSG_UFS_DP_def
  MSG_SD_DP_def MSG_EMMC_DP_def

section \<open>Tests on an option\<close>

fun has_node_walk :: "u8 \<Rightarrow> u8 \<Rightarrow> path_node list \<Rightarrow> bool" where
  "has_node_walk Type SubType [] = False"
| "has_node_walk Type SubType ((t, s) # Nodes) =
     (if t = Type \<and> s = SubType then True else has_node_walk Type SubType Nodes)"

definition OptionHasNode :: "load_option option \<Rightarrow> u8 \<Rightarrow> u8 \<Rightarrow> bool" where
  "OptionHasNode Option Type SubType =
     (case Option of
        None \<Rightarrow> False
      | Some O' \<Rightarrow> (case FilePath O' of None \<Rightarrow> False | Some Nodes \<Rightarrow> has_node_walk Type SubType Nodes))"

fun network_walk :: "bool \<Rightarrow> path_node list \<Rightarrow> bool" where
  "network_walk HasMac [] = HasMac"
| "network_walk HasMac ((t, s) # Nodes) =
     (if t \<noteq> MESSAGING_DEVICE_PATH then network_walk HasMac Nodes
      else if s = MSG_USB_DP then False
      else if s = MSG_MAC_ADDR_DP then network_walk True Nodes
      else network_walk HasMac Nodes)"

definition OptionIsNetworkBoot :: "load_option option \<Rightarrow> bool" where
  "OptionIsNetworkBoot Option =
     (case Option of
        None \<Rightarrow> False
      | Some O' \<Rightarrow> (case FilePath O' of None \<Rightarrow> False | Some Nodes \<Rightarrow> network_walk False Nodes))"

definition storage_nodes :: "u8 list" where
  "storage_nodes = [MSG_NVME_NAMESPACE_DP, MSG_SATA_DP, MSG_ATAPI_DP, MSG_SCSI_DP, MSG_EMMC_DP, MSG_SD_DP, MSG_UFS_DP]"

fun disk_walk :: "path_node list \<Rightarrow> bool" where
  "disk_walk [] = False"
| "disk_walk ((t, s) # Nodes) =
     (if t \<noteq> MESSAGING_DEVICE_PATH then disk_walk Nodes
      else if s \<in> set storage_nodes then True
      else disk_walk Nodes)"

definition OptionIsDiskBoot :: "load_option option \<Rightarrow> bool" where
  "OptionIsDiskBoot Option =
     (case Option of
        None \<Rightarrow> False
      | Some O' \<Rightarrow>
          (case FilePath O' of
             None \<Rightarrow> False
           | Some Nodes \<Rightarrow>
               if OptionHasNode Option MEDIA_DEVICE_PATH MEDIA_HARDDRIVE_DP then True else disk_walk Nodes))"

section \<open>The search\<close>

text \<open>
  One turn: the class named by Target, tested on one option.  For a name that is no class, Found
  keeps its value.
\<close>

definition override_match :: "u8 list \<Rightarrow> load_option \<Rightarrow> bool \<Rightarrow> bool option" where
  "override_match Target Option Found = do {
     setup \<leftarrow> AsciiStrCmp Target (literal ''BiosSetup'');
     if setup = 0 then Some (Attributes Option AND LOAD_OPTION_CATEGORY = LOAD_OPTION_CATEGORY_APP)
     else do {
       pxe \<leftarrow> AsciiStrCmp Target (literal ''Pxe'');
       if pxe = 0 then Some (OptionIsNetworkBoot (Some Option))
       else do {
         hdd \<leftarrow> AsciiStrCmp Target (literal ''Hdd'');
         Some (if hdd = 0 then OptionIsDiskBoot (Some Option) else Found)
       }
     }
   }"

text \<open>The inner None is the end of the options without a match.\<close>

fun override_loop :: "u8 list \<Rightarrow> load_option list \<Rightarrow> nat \<Rightarrow> bool \<Rightarrow> nat option option" where
  "override_loop Target [] Index Found = Some None"
| "override_loop Target (Option # Options) Index Found = do {
     Found \<leftarrow> override_match Target Option Found;
     if Found then Some (Some Index) else override_loop Target Options (Index + 1) Found
   }"

section \<open>Which option is chosen\<close>

lemma has_node_iff: "has_node_walk t s Nodes \<longleftrightarrow> (t, s) \<in> set Nodes"
  by (induction Nodes rule: has_node_walk.induct) auto

lemma network_iff:
  "network_walk m Nodes \<longleftrightarrow> (3, 0x05) \<notin> set Nodes \<and> (m \<or> (3, 0x0b) \<in> set Nodes)"
  by (induction m Nodes rule: network_walk.induct) (auto simp: node_numbers)

lemma disk_iff: "disk_walk Nodes \<longleftrightarrow> (\<exists>s \<in> {0x17, 0x12, 0x01, 0x02, 0x1d, 0x1a, 0x19}. (3, s) \<in> set Nodes)"
  by (induction Nodes rule: disk_walk.induct) (auto simp: node_numbers storage_nodes_def)

definition option_nodes :: "load_option \<Rightarrow> path_node set" where
  "option_nodes O' = (case FilePath O' of None \<Rightarrow> {} | Some Nodes \<Rightarrow> set Nodes)"

text \<open>The three classes, as sets of options; no other name is a class.\<close>

definition in_class :: "u8 list \<Rightarrow> load_option \<Rightarrow> bool" where
  "in_class target O' \<longleftrightarrow>
     (target = ascii ''BiosSetup'' \<and> Attributes O' AND 0x1f00 = 0x100) \<or>
     (target = ascii ''Pxe'' \<and> (3, 0x0b) \<in> option_nodes O' \<and> (3, 0x05) \<notin> option_nodes O') \<or>
     (target = ascii ''Hdd'' \<and> ((4, 0x01) \<in> option_nodes O' \<or>
        (\<exists>s \<in> {0x17, 0x12, 0x01, 0x02, 0x1d, 0x1a, 0x19}. (3, s) \<in> option_nodes O')))"

lemma network_class: "OptionIsNetworkBoot (Some O') \<longleftrightarrow> (3, 0x0b) \<in> option_nodes O' \<and> (3, 0x05) \<notin> option_nodes O'"
  by (auto simp: OptionIsNetworkBoot_def option_nodes_def network_iff split: option.splits)

lemma disk_class:
  "OptionIsDiskBoot (Some O') \<longleftrightarrow> (4, 0x01) \<in> option_nodes O' \<or>
     (\<exists>s \<in> {0x17, 0x12, 0x01, 0x02, 0x1d, 0x1a, 0x19}. (3, s) \<in> option_nodes O')"
  by (auto simp: OptionIsDiskBoot_def OptionHasNode_def option_nodes_def has_node_iff disk_iff node_numbers split: option.splits)

lemma cstr_literal: "0 \<notin> set (ascii s) \<Longrightarrow> cstr (literal s) = ascii s"
  by (simp add: literal_def)

lemma target_names:
  "cstr (literal ''BiosSetup'') = ascii ''BiosSetup''" "cstr (literal ''Pxe'') = ascii ''Pxe''"
  "cstr (literal ''Hdd'') = ascii ''Hdd''" "cstr (literal ''None'') = ascii ''None''" "cstr (literal ''Once'') = ascii ''Once''"
  by (intro cstr_literal; simp add: ascii_def)+

lemma override_match_spec:
  assumes "terminated Target"
  shows "override_match Target O' False = Some (in_class (cstr Target) O')"
proof -
  obtain a b c where cmp: "AsciiStrCmp Target (literal ''BiosSetup'') = Some a" "a = 0 \<longleftrightarrow> cstr Target = ascii ''BiosSetup''"
    "AsciiStrCmp Target (literal ''Pxe'') = Some b" "b = 0 \<longleftrightarrow> cstr Target = ascii ''Pxe''"
    "AsciiStrCmp Target (literal ''Hdd'') = Some c" "c = 0 \<longleftrightarrow> cstr Target = ascii ''Hdd''"
    using AsciiStrCmp_spec [OF assms terminated_literal, of "''BiosSetup''"]
      AsciiStrCmp_spec [OF assms terminated_literal, of "''Pxe''"]
      AsciiStrCmp_spec [OF assms terminated_literal, of "''Hdd''"]
    by (auto simp: target_names)
  have "ascii ''BiosSetup'' \<noteq> ascii ''Pxe''" "ascii ''BiosSetup'' \<noteq> ascii ''Hdd''" "ascii ''Pxe'' \<noteq> ascii ''Hdd''"
    by (simp_all add: ascii_def)
  with cmp show ?thesis
    by (auto simp: override_match_def in_class_def network_class disk_class LOAD_OPTION_CATEGORY_def LOAD_OPTION_CATEGORY_APP_def)
qed

fun first_match :: "u8 list \<Rightarrow> load_option list \<Rightarrow> nat option" where
  "first_match target [] = None"
| "first_match target (O' # Options) = (if in_class target O' then Some 0 else map_option Suc (first_match target Options))"

lemma first_match_None: "first_match target Options = None \<longleftrightarrow> (\<forall>O' \<in> set Options. \<not> in_class target O')"
  by (induction Options) auto

lemma first_match_Some:
  "first_match target Options = Some i \<longleftrightarrow>
     i < length Options \<and> in_class target (Options ! i) \<and> (\<forall>j < i. \<not> in_class target (Options ! j))"
proof (induction Options arbitrary: i)
  case (Cons O' Options)
  show ?case
    using Cons [of "i - 1"] by (cases i) (auto simp: less_Suc_eq_0_disj)
qed simp

lemma override_loop_spec:
  assumes "terminated Target"
  shows "override_loop Target Options n False = Some (map_option (\<lambda>i. n + i) (first_match (cstr Target) Options))"
  by (induction Options arbitrary: n) (auto simp: override_match_spec [OF assms] option.map_comp comp_def intro!: option.map_cong)

end
