(* ===== verification/RedfishSync.thy ===== *)
theory RedfishSync
  imports DriveInventory FirmwareStatus BootOptions
begin

text \<open>
  NucRedfishSyncDxe/NucRedfishSyncDxe.c: the exchange with the management controller over the Redfish
  host interface, from the service root to the boot override, and the config handler that runs it
  once per boot.

  The Redfish client library, the boot manager, the variable and reset services, the pool and the
  sources of the inventory are the environment: one answer function per service, each given the trace
  of all calls so far.  A request answers with the parsed JSON value of its payload, or None when the
  response has no payload or the payload no value.  A step returns
  False when control does not come back from it: after the reset, which does not return, and after a
  read outside a buffer, which is recorded as a fault.
\<close>

section \<open>The environment\<close>

datatype sync_event =
    CreateService bool
  | HttpGet string efi_status "json option"
  | HttpPatch string "u8 list" efi_status
  | HttpPost string "u8 list" efi_status
  | FreeResponse
  | SyncStall nat
  | LocateSmbios
  | LocateDisks
  | LocateFmps
  | AllocBody bool
  | FreeBody
  | GetLoadOptions "load_option list option"
  | FreeLoadOptions
  | SetBootNext u16 u32 efi_status
  | ResetCold
  | InstallConfigHandler efi_status
  | SyncFault

type_synonym sync_trace = "sync_event list"

record sync_env =
  e_Lib :: ascii_lib
  e_Guids :: disk_guids
  e_CreateService :: "sync_trace \<Rightarrow> bool"
  e_Get :: "sync_trace \<Rightarrow> string \<Rightarrow> efi_status \<times> json option"
  e_Patch :: "sync_trace \<Rightarrow> string \<Rightarrow> u8 list \<Rightarrow> efi_status"
  e_Post :: "sync_trace \<Rightarrow> string \<Rightarrow> u8 list \<Rightarrow> efi_status"
  e_Smbios :: "sync_trace \<Rightarrow> u8 list list option"
  e_Disks :: "sync_trace \<Rightarrow> disk_handle list option"
  e_Fmps :: "sync_trace \<Rightarrow> fmp_handle list option"
  e_Alloc :: "sync_trace \<Rightarrow> bool"
  e_LoadOptions :: "sync_trace \<Rightarrow> load_option list option"
  e_SetBootNext :: "sync_trace \<Rightarrow> u16 \<Rightarrow> efi_status"
  e_InstallProtocol :: "sync_trace \<Rightarrow> efi_status"

type_synonym 'a sync = "(sync_event, 'a) prog"

definition httpGet :: "sync_env \<Rightarrow> string \<Rightarrow> (efi_status \<times> json option) sync" where
  "httpGet E uri = ask (\<lambda>t. e_Get E t uri) (\<lambda>(s, p). HttpGet uri s p)"

definition httpPatch :: "sync_env \<Rightarrow> string \<Rightarrow> u8 list \<Rightarrow> efi_status sync" where
  "httpPatch E uri body = ask (\<lambda>t. e_Patch E t uri body) (HttpPatch uri body)"

definition httpPost :: "sync_env \<Rightarrow> string \<Rightarrow> u8 list \<Rightarrow> efi_status sync" where
  "httpPost E uri body = ask (\<lambda>t. e_Post E t uri body) (HttpPost uri body)"

definition locateSmbios :: "sync_env \<Rightarrow> u8 list list option sync" where
  "locateSmbios E = ask (e_Smbios E) (\<lambda>_. LocateSmbios)"

definition locateDisks :: "sync_env \<Rightarrow> disk_handle list option sync" where
  "locateDisks E = ask (e_Disks E) (\<lambda>_. LocateDisks)"

definition locateFmps :: "sync_env \<Rightarrow> fmp_handle list option sync" where
  "locateFmps E = ask (e_Fmps E) (\<lambda>_. LocateFmps)"

definition fault :: "bool sync" where
  "fault = do { tell SyncFault; State_Monad.return False }"

text \<open>The next step is taken only when control came back from the one before.\<close>

definition continue_with :: "bool sync \<Rightarrow> bool sync \<Rightarrow> bool sync" where
  "continue_with m k = do { ok \<leftarrow> m; if ok then k else State_Monad.return False }"

section \<open>Constants\<close>

definition NUC_REDFISH_SERVICE_ROOT_URI :: string where "NUC_REDFISH_SERVICE_ROOT_URI = ''/redfish/v1/''"
definition NUC_REDFISH_SYSTEM_URI :: string where "NUC_REDFISH_SYSTEM_URI = ''/redfish/v1/Systems/1''"
definition NUC_REDFISH_MEMORY_URI :: string where "NUC_REDFISH_MEMORY_URI = ''/redfish/v1/Systems/1/Memory''"
definition NUC_REDFISH_PROCESSORS_URI :: string where
  "NUC_REDFISH_PROCESSORS_URI = ''/redfish/v1/Systems/1/Processors''"
definition NUC_REDFISH_DRIVES_URI :: string where "NUC_REDFISH_DRIVES_URI = ''/redfish/v1/Systems/1/Storage/1/Drives''"
definition NUC_REDFISH_FIRMWARE_INVENTORY_URI :: string where
  "NUC_REDFISH_FIRMWARE_INVENTORY_URI = ''/redfish/v1/UpdateService/FirmwareInventory/BiosFirmware''"
definition NUC_REDFISH_MEDIA_RETRIES :: nat where "NUC_REDFISH_MEDIA_RETRIES = 8"
definition NUC_REDFISH_MEDIA_RETRY_STALL :: nat where "NUC_REDFISH_MEDIA_RETRY_STALL = 2000000"
definition NUC_REDFISH_MEMORY_MAX :: nat where "NUC_REDFISH_MEMORY_MAX = 8"
definition NUC_REDFISH_PROCESSOR_MAX :: nat where "NUC_REDFISH_PROCESSOR_MAX = 4"
definition NUC_REDFISH_DRIVE_MAX :: nat where "NUC_REDFISH_DRIVE_MAX = 8"

section \<open>The boot override\<close>

text \<open>
  The search with its boot manager calls.  The inner None is EFI\_NOT\_FOUND; a match comes with the
  options, which the caller then owns.
\<close>

definition FindBootOverrideOption :: "sync_env \<Rightarrow> u8 list option \<Rightarrow> (load_option list \<times> nat) option option sync" where
  "FindBootOverrideOption E Target =
     (case Target of
        None \<Rightarrow> State_Monad.return (Some None)
      | Some T \<Rightarrow>
          (case AsciiStrCmp T (literal ''None'') of
             None \<Rightarrow> do { tell SyncFault; State_Monad.return None }
           | Some c \<Rightarrow>
               if c = 0 then State_Monad.return (Some None)
               else do {
                 Options \<leftarrow> ask (e_LoadOptions E) GetLoadOptions;
                 case Options of
                   None \<Rightarrow> State_Monad.return (Some None)
                 | Some Os \<Rightarrow>
                     if Os = [] then State_Monad.return (Some None)
                     else (case override_loop T Os 0 False of
                         None \<Rightarrow> do { tell SyncFault; State_Monad.return None }
                       | Some None \<Rightarrow> do { tell FreeLoadOptions; State_Monad.return (Some None) }
                       | Some (Some Match) \<Rightarrow> State_Monad.return (Some (Some (Os, Match))))
               }))"

definition ApplyMatchedOption :: "sync_env \<Rightarrow> load_option \<Rightarrow> bool sync" where
  "ApplyMatchedOption E Option = do {
     let BootNext = OptionNumber Option;
     Status \<leftarrow> ask (\<lambda>t. e_SetBootNext E t BootNext) (SetBootNext BootNext 7);
     if EFI_ERROR Status then State_Monad.return True
     else do { tell ResetCold; State_Monad.return False }
   }"

fun JsonObjectGetValue :: "json \<Rightarrow> string \<Rightarrow> json option" where
  "JsonObjectGetValue (JObj ms) Name = map_of ms (ascii Name)"
| "JsonObjectGetValue _ Name = None"

fun JsonValueIsObject :: "json \<Rightarrow> bool" where
  "JsonValueIsObject (JObj ms) = True"
| "JsonValueIsObject _ = False"

fun JsonValueGetAsciiString :: "json \<Rightarrow> u8 list option" where
  "JsonValueGetAsciiString (JStr s) = Some (s @ [0])"
| "JsonValueGetAsciiString _ = None"

definition json_string_member :: "json \<Rightarrow> string \<Rightarrow> u8 list option" where
  "json_string_member v Name = Option.bind (JsonObjectGetValue v Name) JsonValueGetAsciiString"

definition clear_override :: "u8 list" where
  \<open>clear_override = ascii ''{"Boot":{"BootSourceOverrideEnabled":"Disabled"}}''\<close>

text \<open>Acknowledge the matched option, and only then act on it.\<close>

definition acknowledge_and_apply :: "sync_env \<Rightarrow> load_option list \<Rightarrow> nat \<Rightarrow> bool sync" where
  "acknowledge_and_apply E Options Match = do {
     Status \<leftarrow> httpPatch E NUC_REDFISH_SYSTEM_URI clear_override;
     tell FreeResponse;
     if EFI_ERROR Status then do { tell FreeLoadOptions; State_Monad.return True }
     else continue_with (ApplyMatchedOption E (Options ! Match)) (do { tell FreeLoadOptions; State_Monad.return True })
   }"

definition HandleBootOverride :: "sync_env \<Rightarrow> json option \<Rightarrow> bool sync" where
  "HandleBootOverride E Payload =
     (case Payload of
        None \<Rightarrow> State_Monad.return True
      | Some Root \<Rightarrow>
          if \<not> JsonValueIsObject Root then State_Monad.return True
          else (case JsonObjectGetValue Root ''Boot'' of
              None \<Rightarrow> State_Monad.return True
            | Some Boot \<Rightarrow>
                if \<not> JsonValueIsObject Boot then State_Monad.return True
                else (case json_string_member Boot ''BootSourceOverrideEnabled'' of
                    None \<Rightarrow> State_Monad.return True
                  | Some OverrideEnabled \<Rightarrow>
                      (case AsciiStrCmp OverrideEnabled (literal ''Once'') of
                         None \<Rightarrow> fault
                       | Some c \<Rightarrow>
                           if c \<noteq> 0 then State_Monad.return True
                           else do {
                             r \<leftarrow> FindBootOverrideOption E (json_string_member Boot ''BootSourceOverrideTarget'');
                             case r of
                               None \<Rightarrow> State_Monad.return False
                             | Some None \<Rightarrow> State_Monad.return True
                             | Some (Some (Options, Match)) \<Rightarrow> acknowledge_and_apply E Options Match
                           }))))"

section \<open>The reports\<close>

text \<open>
  A body is built with the allocator's answer; the outer None is a fault, the inner None a body that
  is not sent.
\<close>

definition build_body ::
  "sync_env \<Rightarrow> (bool \<Rightarrow> (efi_status \<times> u8 list option) option) \<Rightarrow> u8 list option option sync" where
  "build_body E build = do {
     Ok \<leftarrow> ask (e_Alloc E) AllocBody;
     case build Ok of
       None \<Rightarrow> do { tell SyncFault; State_Monad.return None }
     | Some (Status, Body) \<Rightarrow> State_Monad.return (Some (if EFI_ERROR Status then None else Body))
   }"

fun post_loop ::
  "sync_env \<Rightarrow> string \<Rightarrow> ('a \<Rightarrow> bool \<Rightarrow> (efi_status \<times> u8 list option) option) \<Rightarrow> 'a list \<Rightarrow> bool sync" where
  "post_loop E uri build [] = State_Monad.return True"
| "post_loop E uri build (x # xs) = do {
     r \<leftarrow> build_body E (build x);
     case r of
       None \<Rightarrow> State_Monad.return False
     | Some None \<Rightarrow> post_loop E uri build xs
     | Some (Some Body) \<Rightarrow> do {
         _ \<leftarrow> httpPost E uri Body;
         tell FreeResponse;
         tell FreeBody;
         post_loop E uri build xs
       }
   }"

definition ReportProcessors :: "sync_env \<Rightarrow> bool sync" where
  "ReportProcessors E = do {
     Smbios \<leftarrow> locateSmbios E;
     case NucRedfishCollectProcessors (e_Lib E) True NUC_REDFISH_PROCESSOR_MAX Smbios of
       None \<Rightarrow> fault
     | Some (Status, Processors) \<Rightarrow>
         if EFI_ERROR Status \<or> Processors = [] then State_Monad.return True
         else post_loop E NUC_REDFISH_PROCESSORS_URI
           (\<lambda>P Ok. NucRedfishBuildProcessorPost (e_Lib E) Ok (Some P) True) Processors
   }"

definition ReportMemory :: "sync_env \<Rightarrow> bool sync" where
  "ReportMemory E = do {
     Smbios \<leftarrow> locateSmbios E;
     case NucRedfishCollectMemory True NUC_REDFISH_MEMORY_MAX Smbios of
       None \<Rightarrow> fault
     | Some (Status, Modules) \<Rightarrow>
         if EFI_ERROR Status \<or> Modules = [] then State_Monad.return True
         else post_loop E NUC_REDFISH_MEMORY_URI
           (\<lambda>M Ok. NucRedfishBuildMemoryPost (e_Lib E) Ok (Some M) True) Modules
   }"

definition ReportDrives :: "sync_env \<Rightarrow> bool sync" where
  "ReportDrives E = do {
     Handles \<leftarrow> locateDisks E;
     case NucRedfishCollectDrives (e_Guids E) True NUC_REDFISH_DRIVE_MAX Handles of
       None \<Rightarrow> fault
     | Some (Status, Drives, Count) \<Rightarrow>
         if EFI_ERROR Status \<or> Count = 0 then State_Monad.return True
         else post_loop E NUC_REDFISH_DRIVES_URI
           (\<lambda>D Ok. NucRedfishBuildDrivePost (e_Lib E) Ok (Some D) True) (take Count Drives)
   }"

text \<open>Sending a body as a PATCH and releasing it; nothing for a body that was not built.\<close>

definition patch_body :: "sync_env \<Rightarrow> string \<Rightarrow> u8 list option option \<Rightarrow> bool sync" where
  "patch_body E uri r =
     (case r of
        None \<Rightarrow> State_Monad.return False
      | Some None \<Rightarrow> State_Monad.return True
      | Some (Some Body) \<Rightarrow> do {
          _ \<leftarrow> httpPatch E uri Body;
          tell FreeResponse;
          tell FreeBody;
          State_Monad.return True
        })"

definition ReportFirmwareInventory :: "sync_env \<Rightarrow> bool sync" where
  "ReportFirmwareInventory E = do {
     Handles \<leftarrow> locateFmps E;
     case NucRedfishCollectFirmwareStatus (e_Lib E) True Handles of
       None \<Rightarrow> fault
     | Some (Status, FirmwareStatus, _) \<Rightarrow>
         if EFI_ERROR Status then State_Monad.return True
         else do {
           r \<leftarrow> build_body E (\<lambda>Ok. NucRedfishBuildFirmwareInventoryPatch (e_Lib E) Ok (Some FirmwareStatus) True);
           patch_body E NUC_REDFISH_FIRMWARE_INVENTORY_URI r
         }
   }"

section \<open>The exchange\<close>

text \<open>The requests for the service root, with the number of attempts left (at least one).\<close>

fun root_loop :: "sync_env \<Rightarrow> nat \<Rightarrow> efi_status sync" where
  "root_loop E 0 = State_Monad.return EFI_NO_MEDIA"
| "root_loop E (Suc n) = do {
     (Status, _) \<leftarrow> httpGet E NUC_REDFISH_SERVICE_ROOT_URI;
     tell FreeResponse;
     if Status \<noteq> EFI_NO_MEDIA \<or> n = 0 then State_Monad.return Status
     else do { tell (SyncStall NUC_REDFISH_MEDIA_RETRY_STALL); root_loop E n }
   }"

definition report_system :: "sync_env \<Rightarrow> bool sync" where
  "report_system E = do {
     Smbios \<leftarrow> locateSmbios E;
     case NucRedfishCollectInventory (e_Lib E) Smbios of
       None \<Rightarrow> fault
     | Some (_, Inventory) \<Rightarrow> do {
         r \<leftarrow> build_body E (\<lambda>Ok. NucRedfishBuildSystemPatch (e_Lib E) Ok (Some Inventory) True);
         patch_body E NUC_REDFISH_SYSTEM_URI r
       }
   }"

definition read_back :: "sync_env \<Rightarrow> bool sync" where
  "read_back E = do {
     (Status, Payload) \<leftarrow> httpGet E NUC_REDFISH_SYSTEM_URI;
     continue_with (if EFI_ERROR Status then State_Monad.return True else HandleBootOverride E Payload)
       (do { tell FreeResponse; State_Monad.return True })
   }"

definition NucRedfishSync :: "sync_env \<Rightarrow> bool sync" where
  "NucRedfishSync E = do {
     Service \<leftarrow> ask (e_CreateService E) CreateService;
     if \<not> Service then State_Monad.return True
     else do {
       Status \<leftarrow> root_loop E NUC_REDFISH_MEDIA_RETRIES;
       if EFI_ERROR Status then State_Monad.return True
       else continue_with (report_system E)
         (continue_with (ReportMemory E)
           (continue_with (ReportProcessors E)
             (continue_with (ReportDrives E)
               (continue_with (ReportFirmwareInventory E) (read_back E)))))
     }
   }"

section \<open>The config handler\<close>

text \<open>
  The service information, with its REST EX handle (None is the null handle); the status is None
  when control does not come back.
\<close>

definition NucRedfishConfigHandlerInit ::
  "sync_env \<Rightarrow> bool \<Rightarrow> nat option option \<Rightarrow> (efi_status option \<times> bool) sync" where
  "NucRedfishConfigHandlerInit E mSyncDone ServiceInfo =
     (case ServiceInfo of
        None \<Rightarrow> State_Monad.return (Some EFI_SUCCESS, mSyncDone)
      | Some RestExHandle \<Rightarrow>
          if RestExHandle = None then State_Monad.return (Some EFI_NOT_READY, mSyncDone)
          else if mSyncDone then State_Monad.return (Some EFI_SUCCESS, mSyncDone)
          else do {
            let mSyncDone = True;
            ok \<leftarrow> NucRedfishSync E;
            State_Monad.return (if ok then Some EFI_SUCCESS else None, mSyncDone)
          })"

definition NucRedfishConfigHandlerStop :: efi_status where
  "NucRedfishConfigHandlerStop = EFI_SUCCESS"

definition NucRedfishSyncDxeEntryPoint :: "sync_env \<Rightarrow> efi_status sync" where
  "NucRedfishSyncDxeEntryPoint E = ask (e_InstallProtocol E) InstallConfigHandler"

section \<open>Runs of the override\<close>

lemmas sync_services = httpGet_def httpPatch_def httpPost_def locateSmbios_def locateDisks_def locateFmps_def

lemma continue_yields:
  assumes "yields m P" and "\<And>es. P False es \<Longrightarrow> Q False es"
    and "\<And>es. P True es \<Longrightarrow> yields k (\<lambda>r es'. Q r (es @ es'))"
  shows "yields (continue_with m k) Q"
  unfolding continue_with_def
proof (rule yields_bind [OF assms(1)])
  fix r es
  assume "P r es"
  then show "yields (if r then k else State_Monad.return False) (\<lambda>r' es'. Q r' (es @ es'))"
    using assms(2,3) by (cases r) (auto intro: yields_return)
qed

text \<open>The class of boot source a payload asks for: only a one-time override counts.\<close>

definition json_member :: "json option \<Rightarrow> string \<Rightarrow> json option" where
  "json_member v Name = Option.bind v (\<lambda>j. JsonObjectGetValue j Name)"

fun json_string :: "json option \<Rightarrow> u8 list option" where
  "json_string (Some (JStr s)) = Some (cstr (s @ [0]))"
| "json_string _ = None"

definition requested :: "json option \<Rightarrow> u8 list option" where
  "requested Payload = (let Boot = json_member Payload ''Boot'' in
     if json_string (json_member Boot ''BootSourceOverrideEnabled'') = Some (ascii ''Once'')
     then (case json_string (json_member Boot ''BootSourceOverrideTarget'') of
         Some t \<Rightarrow> if t = ascii ''None'' then None else Some t | None \<Rightarrow> None)
     else None)"

text \<open>
  The runs of the override handler for a payload: nothing requested; no options; no option of the
  class; the acknowledgement refused; the variable refused; or the reset.
\<close>

inductive override_run :: "json option \<Rightarrow> bool \<Rightarrow> sync_trace \<Rightarrow> bool" where
  nothing: "requested P = None \<Longrightarrow> override_run P True []"
| no_options: "requested P = Some target \<Longrightarrow> Options \<in> {None, Some []} \<Longrightarrow> override_run P True [GetLoadOptions Options]"
| no_match: "requested P = Some target \<Longrightarrow> Options \<noteq> [] \<Longrightarrow> first_match target Options = None \<Longrightarrow>
    override_run P True [GetLoadOptions (Some Options), FreeLoadOptions]"
| refused: "requested P = Some target \<Longrightarrow> first_match target Options = Some i \<Longrightarrow> EFI_ERROR s \<Longrightarrow>
    override_run P True [GetLoadOptions (Some Options), HttpPatch NUC_REDFISH_SYSTEM_URI clear_override s, FreeResponse, FreeLoadOptions]"
| not_staged: "requested P = Some target \<Longrightarrow> first_match target Options = Some i \<Longrightarrow> \<not> EFI_ERROR s \<Longrightarrow> EFI_ERROR s' \<Longrightarrow>
    override_run P True [GetLoadOptions (Some Options), HttpPatch NUC_REDFISH_SYSTEM_URI clear_override s, FreeResponse,
      SetBootNext (OptionNumber (Options ! i)) 7 s', FreeLoadOptions]"
| reset: "requested P = Some target \<Longrightarrow> first_match target Options = Some i \<Longrightarrow> \<not> EFI_ERROR s \<Longrightarrow> \<not> EFI_ERROR s' \<Longrightarrow>
    override_run P False [GetLoadOptions (Some Options), HttpPatch NUC_REDFISH_SYSTEM_URI clear_override s, FreeResponse,
      SetBootNext (OptionNumber (Options ! i)) 7 s', ResetCold]"

inductive_cases override_runE: "override_run P ok es"
inductive_simps override_run_Nil: "override_run P ok []"

lemma acknowledge_yields:
  assumes "requested P = Some target" "first_match target Options = Some i"
  shows "yields (acknowledge_and_apply E Options i) (\<lambda>ok es. override_run P ok (GetLoadOptions (Some Options) # es))"
  unfolding acknowledge_and_apply_def ApplyMatchedOption_def continue_with_def httpPatch_def
  using assms by (auto simp: Let_def intro!: yields_intros override_run.intros)

definition find_run :: "u8 list option \<Rightarrow> (load_option list \<times> nat) option option \<Rightarrow> sync_trace \<Rightarrow> bool" where
  "find_run T r es \<longleftrightarrow>
     (case T of
        None \<Rightarrow> r = Some None \<and> es = []
      | Some t \<Rightarrow>
          (cstr t = ascii ''None'' \<and> r = Some None \<and> es = []) \<or>
          (cstr t \<noteq> ascii ''None'' \<and>
           (\<exists>Options. (Options \<in> {None, Some []} \<and> r = Some None \<and> es = [GetLoadOptions Options]) \<or>
             (\<exists>Os. Options = Some Os \<and> Os \<noteq> [] \<and> first_match (cstr t) Os = None \<and> r = Some None \<and> es = [GetLoadOptions Options, FreeLoadOptions]) \<or>
             (\<exists>Os i. Options = Some Os \<and> first_match (cstr t) Os = Some i \<and> r = Some (Some (Os, i)) \<and> es = [GetLoadOptions Options]))))"

lemma find_yields:
  assumes "\<And>t. T = Some t \<Longrightarrow> terminated t"
  shows "yields (FindBootOverrideOption E T) (find_run T)"
proof (cases T)
  case (Some t)
  then have t: "terminated t" using assms by blast
  obtain c where c: "AsciiStrCmp t (literal ''None'') = Some c" "c = 0 \<longleftrightarrow> cstr t = ascii ''None''"
    using AsciiStrCmp_spec [OF t terminated_literal, of "''None''"] by (auto simp: target_names)
  have loop: "override_loop t Os 0 False = Some (first_match (cstr t) Os)" for Os
    using override_loop_spec [OF t, of Os 0] by (simp add: option.map_ident)
  show ?thesis
    unfolding FindBootOverrideOption_def Some option.case c(1) loop
    using c(2) by (auto simp: find_run_def intro!: yields_intros)
qed (auto simp: FindBootOverrideOption_def find_run_def intro!: yields_intros)

lemma json_string_member: "json_string (json_member (Some v) Name) = map_option cstr (json_string_member v Name)"
  "json_string_member v Name = Some t \<Longrightarrow> terminated t"
proof -
  show "json_string (json_member (Some v) Name) = map_option cstr (json_string_member v Name)"
  proof (cases "JsonObjectGetValue v Name")
    case (Some j)
    then show ?thesis by (cases j) (simp_all add: json_member_def json_string_member_def)
  qed (simp add: json_member_def json_string_member_def)
  show "json_string_member v Name = Some t \<Longrightarrow> terminated t"
  proof (cases "JsonObjectGetValue v Name")
    case (Some j)
    then show "json_string_member v Name = Some t \<Longrightarrow> terminated t"
      by (cases j) (auto simp: json_string_member_def)
  qed (simp add: json_string_member_def)
qed

lemma not_object: "\<not> JsonValueIsObject v \<Longrightarrow> JsonObjectGetValue v Name = None"
  by (cases v) auto

lemma HandleBootOverride_yields: "yields (HandleBootOverride E P) (override_run P)"
proof -
  have none: "override_run P True []" if "\<And>Boot. json_member P ''Boot'' = Some Boot \<Longrightarrow>
      json_string (json_member (Some Boot) ''BootSourceOverrideEnabled'') \<noteq> Some (ascii ''Once'')"
  proof (rule override_run.nothing)
    show "requested P = None"
      using that by (cases "json_member P ''Boot''") (auto simp: requested_def Let_def json_member_def [of None])
  qed
  show ?thesis
  proof (cases "\<exists>Root Boot. P = Some Root \<and> JsonObjectGetValue Root ''Boot'' = Some Boot \<and> JsonValueIsObject Boot")
    case False
    then have "override_run P True []"
      by (intro none) (auto simp: json_member_def not_object bind_eq_Some_conv)
    then show ?thesis
      using False by (auto simp: HandleBootOverride_def not_object intro!: yields_intros)
  next
    case True
    then obtain Root Boot where r: "P = Some Root" "JsonObjectGetValue Root ''Boot'' = Some Boot" "JsonValueIsObject Boot"
      by blast
    then have root: "JsonValueIsObject Root" "json_member P ''Boot'' = Some Boot"
      using not_object [of Root "''Boot''"] by (auto simp: json_member_def)
    show ?thesis
    proof (cases "json_string_member Boot ''BootSourceOverrideEnabled''")
      case None
      have "override_run P True []"
        by (rule none) (use root None in \<open>simp add: json_string_member(1)\<close>)
      with None r root show ?thesis
        by (auto simp: HandleBootOverride_def intro!: yields_intros)
    next
      case (Some e)
      obtain c where c: "AsciiStrCmp e (literal ''Once'') = Some c" "c = 0 \<longleftrightarrow> cstr e = ascii ''Once''"
        using AsciiStrCmp_spec [OF json_string_member(2) [OF Some] terminated_literal, of "''Once''"] by (auto simp: target_names)
      let ?T = "json_string_member Boot ''BootSourceOverrideTarget''"
      have idle: "override_run P True []" if "c \<noteq> 0"
        by (rule none) (use root Some c that in \<open>simp add: json_string_member(1)\<close>)
      have req: "requested P = (case ?T of None \<Rightarrow> None | Some t \<Rightarrow> if cstr t = ascii ''None'' then None else Some (cstr t))"
        if "c = 0"
        using that root Some c by (simp add: requested_def Let_def json_string_member(1) split: option.splits)
      have "yields (do { r \<leftarrow> FindBootOverrideOption E ?T;
          case r of None \<Rightarrow> State_Monad.return False | Some None \<Rightarrow> State_Monad.return True
          | Some (Some (Options, Match)) \<Rightarrow> acknowledge_and_apply E Options Match }) (override_run P)" if "c = 0"
      proof (rule yields_bind [OF find_yields [OF json_string_member(2)]])
        fix r es
        assume "find_run ?T r es"
        then show "yields (case r of None \<Rightarrow> State_Monad.return False | Some None \<Rightarrow> State_Monad.return True
            | Some (Some (Options, Match)) \<Rightarrow> acknowledge_and_apply E Options Match) (\<lambda>r' es'. override_run P r' (es @ es'))"
          using req [OF that]
          by (auto simp: find_run_def split: option.splits if_splits
              intro!: yields_intros override_run.intros intro: acknowledge_yields)
      qed
      with Some c r root idle show ?thesis
        by (auto simp: HandleBootOverride_def intro!: yields_intros)
    qed
  qed
qed

section \<open>Runs of the exchange\<close>

text \<open>The polling of the service root: silent attempts with a stall after each, then the one that counts.\<close>

inductive poll_run :: "nat \<Rightarrow> efi_status \<Rightarrow> sync_trace \<Rightarrow> bool" where
  answered: "s \<noteq> EFI_NO_MEDIA \<or> n = 0 \<Longrightarrow> poll_run (Suc n) s [HttpGet NUC_REDFISH_SERVICE_ROOT_URI s p, FreeResponse]"
| silent: "poll_run (Suc n) s es \<Longrightarrow>
    poll_run (Suc (Suc n)) s ([HttpGet NUC_REDFISH_SERVICE_ROOT_URI EFI_NO_MEDIA p, FreeResponse, SyncStall 2000000] @ es)"

lemma root_loop_yields: "yields (root_loop E (Suc n)) (poll_run (Suc n))"
proof (induction n)
  case 0
  show ?case
    by (auto simp: sync_services intro!: yields_intros poll_run.intros)
next
  case (Suc n)
  have "yields (root_loop E (Suc n)) (\<lambda>r es. poll_run (Suc (Suc n)) r
      (HttpGet NUC_REDFISH_SERVICE_ROOT_URI EFI_NO_MEDIA p # FreeResponse # SyncStall NUC_REDFISH_MEDIA_RETRY_STALL # es))" for p
    by (rule yields_weaken [OF Suc.IH]) (use poll_run.silent in \<open>auto simp: NUC_REDFISH_MEDIA_RETRY_STALL_def\<close>)
  then show ?case
    unfolding root_loop.simps(2) [of E "Suc n"]
    by (auto simp: sync_services intro!: yields_intros poll_run.answered)
qed

text \<open>What the reports do: requests that are not GET, locating, building and releasing.\<close>

fun report_event :: "sync_event \<Rightarrow> bool" where
  "report_event (HttpPatch uri body s) \<longleftrightarrow> True"
| "report_event (HttpPost uri body s) \<longleftrightarrow> True"
| "report_event FreeResponse \<longleftrightarrow> True"
| "report_event LocateSmbios \<longleftrightarrow> True"
| "report_event LocateDisks \<longleftrightarrow> True"
| "report_event LocateFmps \<longleftrightarrow> True"
| "report_event (AllocBody b) \<longleftrightarrow> True"
| "report_event FreeBody \<longleftrightarrow> True"
| "report_event SyncFault \<longleftrightarrow> True"
| "report_event _ \<longleftrightarrow> False"

fun held_change :: "sync_event \<Rightarrow> int \<times> int \<times> int" where
  "held_change (HttpGet _ _ _) = (1, 0, 0)"
| "held_change (HttpPatch _ _ _) = (1, 0, 0)"
| "held_change (HttpPost _ _ _) = (1, 0, 0)"
| "held_change FreeResponse = (- 1, 0, 0)"
| "held_change (AllocBody b) = (0, if b then 1 else 0, 0)"
| "held_change FreeBody = (0, - 1, 0)"
| "held_change (GetLoadOptions Options) = (0, 0, if Options = None then 0 else 1)"
| "held_change FreeLoadOptions = (0, 0, - 1)"
| "held_change _ = (0, 0, 0)"

text \<open>Responses, bodies and option lists still held after a trace.\<close>

definition sync_held :: "sync_trace \<Rightarrow> int \<times> int \<times> int" where
  "sync_held es = (sum_list (map (fst \<circ> held_change) es), sum_list (map (fst \<circ> snd \<circ> held_change) es),
     sum_list (map (snd \<circ> snd \<circ> held_change) es))"

lemma sync_held_simps [simp]:
  "sync_held [] = (0, 0, 0)"
  "sync_held (e # es) = (case held_change e of (a, b, c) \<Rightarrow> case sync_held es of (a', b', c') \<Rightarrow> (a + a', b + b', c + c'))"
  "sync_held (es @ es') = (case sync_held es of (a, b, c) \<Rightarrow> case sync_held es' of (a', b', c') \<Rightarrow> (a + a', b + b', c + c'))"
  by (simp_all add: sync_held_def split: prod.splits)

definition reporting :: "bool \<Rightarrow> sync_trace \<Rightarrow> bool" where
  "reporting ok es \<longleftrightarrow> (\<forall>e \<in> set es. report_event e) \<and> (if ok then sync_held es = (0, 0, 0) else SyncFault \<in> set es)"

lemma reporting_append [intro]: "reporting True es \<Longrightarrow> reporting ok es' \<Longrightarrow> reporting ok (es @ es')"
  by (auto simp: reporting_def)

lemma reporting_Nil [simp]: "reporting True []"
  by (simp add: reporting_def)

text \<open>
  The contract of a body builder towards the reports: without memory it fails, with memory it succeeds
  with a body.
\<close>

definition builds :: "(bool \<Rightarrow> (efi_status \<times> u8 list option) option) \<Rightarrow> bool" where
  "builds build \<longleftrightarrow> build False = Some (EFI_OUT_OF_RESOURCES, None) \<and>
     (\<forall>r. build True = Some r \<longrightarrow> (\<exists>Body. r = (EFI_SUCCESS, Some Body)))"

lemma builds_bodies:
  "builds (\<lambda>Ok. NucRedfishBuildSystemPatch L Ok (Some I) True)"
  "builds (\<lambda>Ok. NucRedfishBuildMemoryPost L Ok (Some M) True)"
  "builds (\<lambda>Ok. NucRedfishBuildProcessorPost L Ok (Some P) True)"
  "builds (\<lambda>Ok. NucRedfishBuildDrivePost L Ok (Some D) True)"
  "builds (\<lambda>Ok. NucRedfishBuildFirmwareInventoryPatch L Ok (Some S) True)"
  by (auto simp: builds_def NucRedfishBuildSystemPatch_def NucRedfishBuildMemoryPost_def NucRedfishBuildProcessorPost_def
      NucRedfishBuildDrivePost_def NucRedfishBuildFirmwareInventoryPatch_def Let_def bind_eq_Some_conv)

definition built :: "u8 list option option \<Rightarrow> sync_trace \<Rightarrow> bool" where
  "built r es \<longleftrightarrow> (case r of
       None \<Rightarrow> es = [AllocBody True, SyncFault]
     | Some None \<Rightarrow> es = [AllocBody False]
     | Some (Some Body) \<Rightarrow> es = [AllocBody True])"

lemma build_body_yields:
  assumes "builds build"
  shows "yields (build_body E build) built"
proof -
  have "yields (case build Ok of None \<Rightarrow> do { tell SyncFault; State_Monad.return None }
      | Some (Status, Body) \<Rightarrow> State_Monad.return (Some (if EFI_ERROR Status then None else Body))) (\<lambda>r es. built r (AllocBody Ok # es))" for Ok
  proof (cases Ok)
    case True
    then show ?thesis
      using assms by (cases "build True") (auto simp: builds_def built_def intro!: yields_intros)
  next
    case False
    then show ?thesis
      using assms by (auto simp: builds_def built_def intro!: yields_intros)
  qed
  then show ?thesis
    unfolding build_body_def by (rule yields_ask_bind)
qed

lemma reporting_built:
  "built None es \<Longrightarrow> reporting False es"
  "built (Some None) es \<Longrightarrow> reporting True es"
  "built (Some (Some Body)) es \<Longrightarrow> reporting True (es @ [HttpPost uri b s, FreeResponse, FreeBody])"
  "built (Some (Some Body)) es \<Longrightarrow> reporting True (es @ [HttpPatch uri b s, FreeResponse, FreeBody])"
  by (auto simp: built_def reporting_def)

lemma post_loop_yields:
  assumes "\<And>x. builds (build x)"
  shows "yields (post_loop E uri build xs) reporting"
proof (induction xs)
  case (Cons x xs)
  have send: "yields (do { _ \<leftarrow> httpPost E uri Body; tell FreeResponse; tell FreeBody; post_loop E uri build xs })
      (\<lambda>ok es'. reporting ok (es @ es'))" if "built (Some (Some Body)) es" for Body es
  proof -
    have "yields (post_loop E uri build xs) (\<lambda>ok es'. reporting ok (es @ HttpPost uri Body s # FreeResponse # FreeBody # es'))" for s
      by (rule yields_weaken [OF Cons.IH]) (use reporting_append [OF reporting_built(3) [OF that]] in force)
    then show ?thesis
      unfolding httpPost_def by (intro yields_intros) simp
  qed
  have skip: "yields (post_loop E uri build xs) (\<lambda>ok es'. reporting ok (es @ es'))" if "built (Some None) es" for es
    by (rule yields_weaken [OF Cons.IH]) (use reporting_append [OF reporting_built(2) [OF that]] in blast)
  show ?case
    unfolding post_loop.simps
  proof (rule yields_bind [OF build_body_yields [OF assms]])
    fix r es
    assume b: "built r es"
    show "yields (case r of None \<Rightarrow> State_Monad.return False | Some None \<Rightarrow> post_loop E uri build xs
        | Some (Some Body) \<Rightarrow> do { _ \<leftarrow> httpPost E uri Body; tell FreeResponse; tell FreeBody; post_loop E uri build xs })
        (\<lambda>ok es'. reporting ok (es @ es'))"
    proof (cases r)
      case None
      with b show ?thesis
        using reporting_built(1) by (auto intro!: yields_intros)
    next
      case (Some b')
      with b send skip show ?thesis by (cases b') auto
    qed
  qed
qed (auto intro!: yields_intros)

lemma fault_yields: "Q False [SyncFault] \<Longrightarrow> yields fault Q"
  unfolding fault_def by (intro yields_intros)

lemma reporting_start: "reporting ok es \<Longrightarrow> e \<in> {LocateSmbios, LocateDisks, LocateFmps} \<Longrightarrow> reporting ok (e # es)"
  by (auto simp: reporting_def)

lemma reporting_fault: "e \<in> {LocateSmbios, LocateDisks, LocateFmps} \<Longrightarrow> reporting False [e, SyncFault]"
  by (auto simp: reporting_def)

lemmas post_after = yields_weaken [OF post_loop_yields]

lemma list_reports_yield:
  "yields (ReportMemory E) reporting" "yields (ReportProcessors E) reporting" "yields (ReportDrives E) reporting"
  unfolding ReportMemory_def ReportProcessors_def ReportDrives_def sync_services
  by (auto intro!: yields_intros fault_yields reporting_start reporting_fault post_after builds_bodies split: option.splits)

lemma patch_body_yields: "built r es \<Longrightarrow> yields (patch_body E uri r) (\<lambda>ok es'. reporting ok (es @ es'))"
  unfolding patch_body_def httpPatch_def
  by (auto intro!: yields_intros intro: reporting_built split: option.splits)

lemma build_and_patch:
  assumes "builds build" "e \<in> {LocateSmbios, LocateDisks, LocateFmps}"
  shows "yields (do { r \<leftarrow> build_body E build; patch_body E uri r }) (\<lambda>ok es. reporting ok (e # es))"
  by (rule yields_bind [OF build_body_yields [OF assms(1)]])
    (rule yields_weaken [OF patch_body_yields], use reporting_start [OF _ assms(2)] in auto)

lemma patch_reports_yield: "yields (report_system E) reporting" "yields (ReportFirmwareInventory E) reporting"
  unfolding report_system_def ReportFirmwareInventory_def sync_services
  by (auto intro!: yields_intros fault_yields reporting_start reporting_fault build_and_patch builds_bodies split: option.splits)

text \<open>A run of the rest after reports that came back, or of reports that did not.\<close>

definition after_reports :: "(bool \<Rightarrow> sync_trace \<Rightarrow> bool) \<Rightarrow> bool \<Rightarrow> sync_trace \<Rightarrow> bool" where
  "after_reports R ok es \<longleftrightarrow> (\<not> ok \<and> reporting False es) \<or> (\<exists>rep es'. es = rep @ es' \<and> reporting True rep \<and> R ok es')"

lemma after_reports_start: "yields k R \<Longrightarrow> yields k (after_reports R)"
  by (erule yields_weaken) (metis after_reports_def append_Nil reporting_Nil)

lemma after_reports_step:
  assumes "yields m reporting" "yields k (after_reports R)"
  shows "yields (continue_with m k) (after_reports R)"
proof (rule continue_yields [OF assms(1)])
  fix es
  assume es: "reporting True es"
  have "after_reports R ok (es @ es')" if "after_reports R ok es'" for ok es'
    using that es unfolding after_reports_def by (metis append.assoc reporting_append)
  then show "yields k (\<lambda>ok es'. after_reports R ok (es @ es'))"
    by (rule yields_weaken [OF assms(2)])
qed (simp add: after_reports_def)

definition read_back_run :: "bool \<Rightarrow> sync_trace \<Rightarrow> bool" where
  "read_back_run ok es \<longleftrightarrow> (\<exists>s P ov. es = HttpGet NUC_REDFISH_SYSTEM_URI s P # ov @ (if ok then [FreeResponse] else []) \<and>
     (if EFI_ERROR s then ok \<and> ov = [] else override_run P ok ov))"

lemma read_back_yields: "yields (read_back E) read_back_run"
proof -
  have "yields (continue_with (if EFI_ERROR s then State_Monad.return True else HandleBootOverride E P)
      (do { tell FreeResponse; State_Monad.return True })) (\<lambda>ok es. read_back_run ok (HttpGet NUC_REDFISH_SYSTEM_URI s P # es))" for s P
  proof (rule continue_yields)
    show "yields (if EFI_ERROR s then State_Monad.return True else HandleBootOverride E P)
        (\<lambda>ok es. if EFI_ERROR s then ok \<and> es = [] else override_run P ok es)"
      using HandleBootOverride_yields by (auto intro!: yields_intros)
  qed (auto simp: read_back_run_def intro!: yields_intros split: if_splits)
  then show ?thesis
    unfolding read_back_def httpGet_def by (intro yields_intros) auto
qed

text \<open>
  The runs of the whole exchange: no service; no answer at the service root; or the reports and what
  follows them.
\<close>

inductive sync_run :: "bool \<Rightarrow> sync_trace \<Rightarrow> bool" where
  no_service: "sync_run True [CreateService False]"
| no_answer: "poll_run 8 s es \<Longrightarrow> EFI_ERROR s \<Longrightarrow> sync_run True (CreateService True # es)"
| exchange: "poll_run 8 s es \<Longrightarrow> \<not> EFI_ERROR s \<Longrightarrow> after_reports read_back_run ok es' \<Longrightarrow>
    sync_run ok (CreateService True # es @ es')"

inductive_cases sync_runE: "sync_run ok es"

lemma NucRedfishSync_yields: "yields (NucRedfishSync E) sync_run"
proof -
  let ?rest = "continue_with (report_system E) (continue_with (ReportMemory E) (continue_with (ReportProcessors E)
    (continue_with (ReportDrives E) (continue_with (ReportFirmwareInventory E) (read_back E)))))"
  have rest: "yields ?rest (after_reports read_back_run)"
    by (intro after_reports_step patch_reports_yield list_reports_yield after_reports_start read_back_yields)
  have "yields (do { Status \<leftarrow> root_loop E 8; if EFI_ERROR Status then State_Monad.return True else ?rest })
      (\<lambda>ok es. sync_run ok (CreateService True # es))"
  proof (rule yields_bind)
    show "yields (root_loop E 8) (poll_run 8)"
      using root_loop_yields [of E 7] by (simp add: eval_nat_numeral)
  next
    fix s es
    assume poll: "poll_run 8 s es"
    have "yields ?rest (\<lambda>ok es'. sync_run ok (CreateService True # es @ es'))" if "\<not> EFI_ERROR s"
      by (rule yields_weaken [OF rest]) (use poll that in \<open>rule sync_run.exchange\<close>)
    then show "yields (if EFI_ERROR s then State_Monad.return True else ?rest) (\<lambda>ok es'. sync_run ok (CreateService True # es @ es'))"
      using poll by (auto intro!: yields_intros sync_run.no_answer)
  qed
  then show ?thesis
    unfolding NucRedfishSync_def NUC_REDFISH_MEDIA_RETRIES_def by (auto intro!: yields_intros sync_run.no_service)
qed

section \<open>The override is applied only when acknowledged\<close>

text \<open>Everything that changes what is booted.\<close>

fun boot_event :: "sync_event \<Rightarrow> bool" where
  "boot_event (SetBootNext _ _ _) \<longleftrightarrow> True"
| "boot_event ResetCold \<longleftrightarrow> True"
| "boot_event _ \<longleftrightarrow> False"

lemma poll_run_events: "poll_run n s es \<Longrightarrow> e \<in> set es \<Longrightarrow>
   (\<exists>s p. e = HttpGet NUC_REDFISH_SERVICE_ROOT_URI s p) \<or> e = FreeResponse \<or> e = SyncStall 2000000"
  by (induction rule: poll_run.induct) auto

lemma quiet_parts:
  "poll_run n s es \<Longrightarrow> e \<in> set es \<Longrightarrow> \<not> boot_event e"
  "reporting ok es \<Longrightarrow> e \<in> set es \<Longrightarrow> \<not> boot_event e"
  by (auto simp: reporting_def dest!: poll_run_events) (cases e; auto)

lemma sync_run_boot_event:
  assumes "sync_run ok es" "e \<in> set es" "boot_event e"
  obtains pre es' where "es = pre @ es'" "read_back_run ok es'" "e \<in> set es'"
  using assms(1)
proof cases
  case no_service
  with assms show ?thesis by auto
next
  case (no_answer s es')
  with assms quiet_parts show ?thesis by auto
next
  case (exchange s poll es')
  then have e: "e \<in> set es'"
    using assms quiet_parts(1) by fastforce
  from exchange(4) show ?thesis
    unfolding after_reports_def
  proof (elim disjE conjE exE)
    assume "reporting False es'"
    with e assms(3) quiet_parts(2) show ?thesis by blast
  next
    fix rep es''
    assume r: "es' = rep @ es''" "reporting True rep" "read_back_run ok es''"
    with e assms(3) quiet_parts(2) have "e \<in> set es''" by auto
    with r exchange that [of "(CreateService True # poll) @ rep" es''] show ?thesis by simp
  qed
qed

text \<open>
  C1: the machine is redirected only at the controller's request, once.  Whenever the exchange sets
  the boot variable or resets, the last read of the system had a one-time override; the variable is
  set to the number of the first boot option of the class it names; the request to clear the override
  was accepted before; and the reset follows the successful write at once and ends the exchange.
\<close>

theorem reset_only_after_acknowledged_override:
  assumes "run_state (NucRedfishSync E) t = (ok, t @ es)" "ev \<in> set es" "boot_event ev"
  shows "\<exists>pre s P target Options i ack set rest.
    es = pre @ [HttpGet NUC_REDFISH_SYSTEM_URI s P, GetLoadOptions (Some Options),
      HttpPatch NUC_REDFISH_SYSTEM_URI clear_override ack, FreeResponse, SetBootNext (OptionNumber (Options ! i)) 7 set] @ rest \<and>
    \<not> EFI_ERROR s \<and> requested P = Some target \<and>
    i < length Options \<and> in_class target (Options ! i) \<and> (\<forall>j < i. \<not> in_class target (Options ! j)) \<and>
    \<not> EFI_ERROR ack \<and> (if EFI_ERROR set then ok \<and> rest = [FreeLoadOptions, FreeResponse] else \<not> ok \<and> rest = [ResetCold])"
proof -
  obtain pre es' where es: "es = pre @ es'" "read_back_run ok es'" "ev \<in> set es'"
    using sync_run_boot_event [OF yields_run [OF NucRedfishSync_yields assms(1)] assms(2,3)] by blast
  then obtain s P ov where ov: "es' = HttpGet NUC_REDFISH_SYSTEM_URI s P # ov @ (if ok then [FreeResponse] else [])"
    "if EFI_ERROR s then ok \<and> ov = [] else override_run P ok ov"
    by (auto simp: read_back_run_def)
  with es(3) assms(3) have s: "\<not> EFI_ERROR s" "override_run P ok ov" "ev \<in> set ov"
    by (auto split: if_splits)
  from s(2) show ?thesis
  proof cases
    case (not_staged target Options i sa sb)
    with es ov s(1) show ?thesis
      by (intro exI [of _ pre] exI [of _ s] exI [of _ P] exI [of _ target] exI [of _ Options] exI [of _ i] exI [of _ sa] exI [of _ sb]
          exI [of _ "[FreeLoadOptions, FreeResponse]"]) (simp add: first_match_Some)
  next
    case (reset target Options i sa sb)
    with es ov s(1) show ?thesis
      by (intro exI [of _ pre] exI [of _ s] exI [of _ P] exI [of _ target] exI [of _ Options] exI [of _ i] exI [of _ sa] exI [of _ sb]
          exI [of _ "[ResetCold]"]) (simp add: first_match_Some)
  qed (use s(3) assms(3) in auto)
qed

section \<open>The exchange ends\<close>

fun is_root_get :: "sync_event \<Rightarrow> bool" where
  "is_root_get (HttpGet uri s p) \<longleftrightarrow> uri = NUC_REDFISH_SERVICE_ROOT_URI"
| "is_root_get _ \<longleftrightarrow> False"

fun stall_time :: "sync_event \<Rightarrow> nat" where
  "stall_time (SyncStall us) = us"
| "stall_time _ = 0"

definition stalled :: "sync_trace \<Rightarrow> nat" where
  "stalled es = sum_list (map stall_time es)"

lemma stalled_simps [simp]: "stalled [] = 0" "stalled (e # es) = stall_time e + stalled es" "stalled (es @ es') = stalled es + stalled es'"
  by (simp_all add: stalled_def)

lemma poll_run_bounds:
  "poll_run n s es \<Longrightarrow> length (filter is_root_get es) \<le> n \<and> stalled es \<le> 2000000 * (n - 1) \<and> sync_held es = (0, 0, 0)"
  by (induction rule: poll_run.induct) auto

lemma reporting_bounds: "reporting ok es \<Longrightarrow> filter is_root_get es = [] \<and> stalled es = 0"
proof -
  have "\<forall>e \<in> set es. report_event e \<Longrightarrow> filter is_root_get es = [] \<and> stalled es = 0"
  proof (induction es)
    case (Cons e es)
    then show ?case by (cases e) auto
  qed simp
  then show "reporting ok es \<Longrightarrow> ?thesis" by (simp add: reporting_def)
qed

text \<open>An option list that is there but has no entry: FindBootOverrideOption returns without freeing it.\<close>

definition empty_lists :: "sync_trace \<Rightarrow> int" where
  "empty_lists es = (if GetLoadOptions (Some []) \<in> set es then 1 else 0)"

lemma no_empty_list:
  "poll_run n s es \<Longrightarrow> GetLoadOptions os \<notin> set es" "reporting ok es \<Longrightarrow> GetLoadOptions os \<notin> set es"
  by (auto simp: reporting_def dest: poll_run_events)

lemma override_run_bounds:
  assumes "override_run P ok es"
  shows "filter is_root_get es = [] \<and> stalled es = 0 \<and> (if ok then sync_held es = (0, 0, empty_lists es) else last es = ResetCold \<and> es \<noteq> [])"
  using assms by cases (auto simp: first_match_None empty_lists_def split: if_splits)

lemma read_back_bounds:
  assumes "read_back_run ok es"
  shows "filter is_root_get es = [] \<and> stalled es = 0 \<and> (if ok then sync_held es = (0, 0, empty_lists es) else last es = ResetCold \<and> es \<noteq> [])"
  using assms override_run_bounds
  by (fastforce simp: read_back_run_def empty_lists_def NUC_REDFISH_SYSTEM_URI_def NUC_REDFISH_SERVICE_ROOT_URI_def split: if_splits)

lemma sync_run_bounds:
  assumes "sync_run ok es"
  shows "length (filter is_root_get es) \<le> 8 \<and> stalled es \<le> 14000000 \<and>
    (if ok then sync_held es = (0, 0, empty_lists es) else SyncFault \<in> set es \<or> last es = ResetCold)"
  using assms
proof cases
  case (no_answer s poll)
  with poll_run_bounds [of 8 s poll] no_empty_list(1) [of 8 s poll] show ?thesis by (simp add: empty_lists_def)
next
  case (exchange s poll es')
  note poll = poll_run_bounds [OF exchange(2)]
  from exchange(4) show ?thesis
    unfolding after_reports_def
  proof (elim disjE conjE exE)
    assume "\<not> ok" and rep: "reporting False es'"
    then have "SyncFault \<in> set es'" by (simp add: reporting_def)
    with \<open>\<not> ok\<close> exchange(1) poll reporting_bounds [OF rep] show ?thesis by simp
  next
    fix rep es''
    assume r: "es' = rep @ es''" "reporting True rep" "read_back_run ok es''"
    then have "sync_held rep = (0, 0, 0)" by (simp add: reporting_def)
    moreover have "empty_lists es = empty_lists es''"
      using exchange(1) r(1) no_empty_list(1) [OF exchange(2)] no_empty_list(2) [OF r(2)] by (simp add: empty_lists_def)
    ultimately show ?thesis
      using exchange(1) r poll reporting_bounds [OF r(2)] read_back_bounds [OF r(3)] by (auto split: if_splits)
  qed
qed (simp add: empty_lists_def)

text \<open>
  C11: the exchange ends, whatever the controller answers or fails to answer: after at most eight
  requests for the service root and at most fourteen seconds of waiting for the link.  If control
  comes back, every response and body has been released, and so has the list of boot options unless the
  boot manager returned a list without an entry, which stays allocated; if control does not come back, a
  reset was the last thing done or a read left its buffer.
\<close>

theorem exchange_ends:
  "\<exists>ok es. run_state (NucRedfishSync E) t = (ok, t @ es) \<and>
    length (filter is_root_get es) \<le> 8 \<and> stalled es \<le> 14000000 \<and>
    (if ok then sync_held es = (0, 0, empty_lists es) else SyncFault \<in> set es \<or> last es = ResetCold)"
proof -
  obtain ok es where "run_state (NucRedfishSync E) t = (ok, t @ es)" "sync_run ok es"
    by (rule yieldsD [OF NucRedfishSync_yields])
  with sync_run_bounds show ?thesis by blast
qed

section \<open>One exchange per boot\<close>

text \<open>The calls of the config handler in one boot, until one does not come back.\<close>

fun init_calls :: "sync_env \<Rightarrow> bool \<Rightarrow> nat option option list \<Rightarrow> efi_status option list sync" where
  "init_calls E mSyncDone [] = State_Monad.return []"
| "init_calls E mSyncDone (i # is) = do {
     (st, mSyncDone) \<leftarrow> NucRedfishConfigHandlerInit E mSyncDone i;
     if st = None then State_Monad.return [None]
     else do { sts \<leftarrow> init_calls E mSyncDone is; State_Monad.return (st # sts) }
   }"

fun is_exchange :: "sync_event \<Rightarrow> bool" where
  "is_exchange (CreateService _) \<longleftrightarrow> True"
| "is_exchange _ \<longleftrightarrow> False"

definition has_handle :: "nat option option list \<Rightarrow> bool" where
  "has_handle infos \<longleftrightarrow> (\<exists>h. Some (Some h) \<in> set infos)"

lemma sync_run_exchange: "sync_run ok es \<Longrightarrow> length (filter is_exchange es) = 1"
proof -
  have poll: "filter is_exchange es = []" if "poll_run n s es" for n s es
    using that by (induction rule: poll_run.induct) auto
  have rep: "filter is_exchange es = []" if "reporting ok es" for ok es
    using that by (force simp: reporting_def filter_empty_conv elim: is_exchange.elims(2))
  have over: "filter is_exchange es = []" if "override_run P ok es" for P ok es
    using that by cases auto
  have "filter is_exchange es = []" if "read_back_run ok es" for ok es
    using that over by (fastforce simp: read_back_run_def split: if_splits)
  then have "filter is_exchange es = []" if "after_reports read_back_run ok es" for ok es
    using that rep by (auto simp: after_reports_def)
  then show "sync_run ok es \<Longrightarrow> ?thesis"
    using poll by (elim sync_runE) auto
qed

definition calls_run :: "bool \<Rightarrow> nat option option list \<Rightarrow> efi_status option list \<Rightarrow> sync_trace \<Rightarrow> bool" where
  "calls_run d infos sts es \<longleftrightarrow> length (filter is_exchange es) = (if has_handle infos \<and> \<not> d then 1 else 0) \<and>
     length sts \<le> length infos \<and> (\<forall>k < length sts. sts ! k = Some EFI_NOT_READY \<longleftrightarrow> infos ! k = Some None)"

lemma calls_run_Cons:
  assumes "calls_run d' infos sts es'" "length (filter is_exchange es) + (if has_handle infos \<and> \<not> d' then 1 else 0) =
      (if has_handle (i # infos) \<and> \<not> d then 1 else 0)" "st = Some EFI_NOT_READY \<longleftrightarrow> i = Some None"
  shows "calls_run d (i # infos) (st # sts) (es @ es')"
  using assms by (auto simp: calls_run_def less_Suc_eq_0_disj)

lemma has_handle_Cons: "has_handle (i # infos) \<longleftrightarrow> (\<exists>h. i = Some (Some h)) \<or> has_handle infos"
  by (auto simp: has_handle_def)

lemma init_calls_yields: "yields (init_calls E d infos) (calls_run d infos)"
proof (induction infos arbitrary: d)
  case (Cons i infos)
  show ?case
  proof (cases "(\<exists>h. i = Some (Some h)) \<and> \<not> d")
    case False
    define st where "st = (if i = Some None then EFI_NOT_READY else EFI_SUCCESS)"
    have st: "NucRedfishConfigHandlerInit E d i = State_Monad.return (Some st, d)" "st = EFI_NOT_READY \<longleftrightarrow> i = Some None"
      using False by (auto simp: NucRedfishConfigHandlerInit_def st_def split: option.splits)
    have "yields (do { sts \<leftarrow> init_calls E d infos; State_Monad.return (Some st # sts) }) (calls_run d (i # infos))"
      by (rule yields_bind [OF Cons.IH]) (use calls_run_Cons [of d infos _ _ "[]" i d] st(2) False in
        \<open>auto simp: has_handle_Cons intro!: yields_intros\<close>)
    then show ?thesis by (simp add: st(1))
  next
    case True
    then obtain h where h: "i = Some (Some h)" "\<not> d" by blast
    have "yields (do { ok \<leftarrow> NucRedfishSync E; (st, d') \<leftarrow> State_Monad.return (if ok then Some EFI_SUCCESS else None, True);
        if st = None then State_Monad.return [None]
        else do { sts \<leftarrow> init_calls E d' infos; State_Monad.return (st # sts) } }) (calls_run d (i # infos))"
    proof (rule yields_bind [OF NucRedfishSync_yields])
      fix ok es
      assume "sync_run ok es"
      then have one: "length (filter is_exchange es) = 1" by (rule sync_run_exchange)
      have "yields (do { sts \<leftarrow> init_calls E True infos; State_Monad.return (Some EFI_SUCCESS # sts) })
          (\<lambda>sts es'. calls_run d (i # infos) sts (es @ es'))"
        by (rule yields_bind [OF Cons.IH]) (use calls_run_Cons [of True infos _ _ es i d] one h in
          \<open>auto simp: has_handle_Cons intro!: yields_intros\<close>)
      moreover have "calls_run d (i # infos) [None] es"
        using one h by (simp add: calls_run_def has_handle_Cons)
      ultimately show "yields (do { (st, d') \<leftarrow> State_Monad.return (if ok then Some EFI_SUCCESS else None, True);
        if st = None then State_Monad.return [None]
        else do { sts \<leftarrow> init_calls E d' infos; State_Monad.return (st # sts) } }) (\<lambda>sts es'. calls_run d (i # infos) sts (es @ es'))"
        by (cases ok) (auto intro!: yields_intros)
    qed
    then show ?thesis using h by (simp add: NucRedfishConfigHandlerInit_def)
  qed
qed (auto simp: calls_run_def has_handle_def intro!: yields_intros)

text \<open>
  C12: one exchange per boot.  However often the config handler is called, with whatever service
  information, there is exactly one exchange if any call comes with a REST EX handle, and none
  otherwise; a call is answered EFI\_NOT\_READY, which keeps the handler eligible for another one,
  exactly when it comes before discovery with a null handle.
\<close>

theorem one_exchange_per_boot:
  "\<exists>sts es. run_state (init_calls E False infos) t = (sts, t @ es) \<and>
    length (filter is_exchange es) = (if \<exists>h. Some (Some h) \<in> set infos then 1 else 0) \<and>
    length sts \<le> length infos \<and> list_all2 (\<lambda>st i. st = Some EFI_NOT_READY \<longleftrightarrow> i = Some None) sts (take (length sts) infos)"
proof -
  obtain sts es where "run_state (init_calls E False infos) t = (sts, t @ es)" "calls_run False infos sts es"
    by (rule yieldsD [OF init_calls_yields])
  then show ?thesis
    by (auto simp: calls_run_def has_handle_def list_all2_conv_all_nth)
qed

text \<open>A controller that asks for a disk boot, and a machine with two options.\<close>

definition demo_payload :: json where
  "demo_payload = JObj [(ascii ''Boot'', JObj [(ascii ''BootSourceOverrideEnabled'', JStr (ascii ''Once'')),
     (ascii ''BootSourceOverrideTarget'', JStr (ascii ''Hdd''))])]"

definition demo_options :: "load_option list" where
  "demo_options = [\<lparr>OptionNumber = 0, Attributes = 0x109, FilePath = Some [(4, 6)]\<rparr>,
     \<lparr>OptionNumber = 1, Attributes = 1, FilePath = Some [(2, 1), (1, 1), (3, 0x17)]\<rparr>]"

definition demo_sync :: sync_env where
  "demo_sync = \<lparr>e_Lib = edk2_lib, e_Guids = demo_guids, e_CreateService = \<lambda>_. True,
     e_Get = \<lambda>_ uri. (EFI_SUCCESS, Some demo_payload), e_Patch = \<lambda>_ _ _. EFI_SUCCESS, e_Post = \<lambda>_ _ _. EFI_SUCCESS,
     e_Smbios = \<lambda>_. None, e_Disks = \<lambda>_. None, e_Fmps = \<lambda>_. None, e_Alloc = \<lambda>_. False,
     e_LoadOptions = \<lambda>_. Some demo_options, e_SetBootNext = \<lambda>_ _. EFI_SUCCESS,
     e_InstallProtocol = \<lambda>_. EFI_SUCCESS\<rparr>"

lemma demo_sync_parts:
  "requested (Some demo_payload) = Some (ascii ''Hdd'')" "first_match (ascii ''Hdd'') demo_options = Some 1"
  by (simp_all add: requested_def demo_payload_def json_member_def demo_options_def in_class_def option_nodes_def)
    (simp_all add: ascii_def cstr_def)

end
