(* ===== verification/OverrideLiveness.thy ===== *)
theory OverrideLiveness
  imports RedfishSync
begin

text \<open>
  Progress of the exchange.  On a machine whose SMBIOS table, drives and firmware instances are
  well-formed no report leaves its buffers, so the exchange reaches the boot override; and if the
  link comes up in time and the controller has a one-time override staged, the machine resets into
  the option it asks for.
\<close>

section \<open>Bodies are always built\<close>

lemma escape_loop_total: "terminated V \<Longrightarrow> \<exists>r. escape_loop V E = Some r"
proof (induction V arbitrary: E)
  case (Cons c V)
  then show ?case by (cases "c = 0") (auto simp: terminated_def)
qed (simp add: terminated_def)

lemma append_total: "(\<And>V. Val = Some V \<Longrightarrow> terminated V) \<Longrightarrow> \<exists>b'. AppendJsonString L b n Name Val = Some b'"
proof (cases Val)
  case (Some V)
  assume "\<And>V. Val = Some V \<Longrightarrow> terminated V"
  with Some have V: "terminated V" by blast
  then have "V \<noteq> []" by (auto simp: terminated_def)
  with Some escape_loop_total [OF V, of "[]"] show ?thesis
    by (auto simp: AppendJsonString_def Let_def)
qed (simp add: AppendJsonString_def)

text \<open>The builder contract without the possibility of a fault.\<close>

definition total_builder :: "(bool \<Rightarrow> (efi_status \<times> u8 list option) option) \<Rightarrow> bool" where
  "total_builder build \<longleftrightarrow> builds build \<and> build True \<noteq> None"

lemma appends_string: "(\<And>V. Val = Some V \<Longrightarrow> terminated V) \<Longrightarrow> AppendJsonString L b n Name Val \<noteq> None"
  using append_total [of Val L b n Name] by auto

lemma bind_total: "m \<noteq> None \<Longrightarrow> (\<And>x. m = Some x \<Longrightarrow> f x \<noteq> None) \<Longrightarrow> Option.bind m f \<noteq> None"
  by (cases m) auto

lemma text_terminated: "texts_ok Val \<Longrightarrow> Val = Some V \<Longrightarrow> terminated V"
  by (auto simp: texts_ok_def text_ok_def)

lemma some_total: "Some x \<noteq> None"
  by simp

lemma if_total: "(b \<Longrightarrow> m \<noteq> None) \<Longrightarrow> (\<not> b \<Longrightarrow> n \<noteq> None) \<Longrightarrow> (if b then m else n) \<noteq> None"
  by simp

lemma byte_total: "V \<noteq> [] \<Longrightarrow> byte_at V 0 \<noteq> None"
  by simp

lemmas total_steps = bind_total some_total if_total appends_string byte_total

lemma system_total: "inventory_ok I \<Longrightarrow> total_builder (\<lambda>Ok. NucRedfishBuildSystemPatch L Ok (Some I) True)"
proof -
  assume I: "inventory_ok I"
  have "NucRedfishBuildSystemPatch L True (Some I) True \<noteq> None"
    unfolding NucRedfishBuildSystemPatch_def Let_def option.case simp_thms if_False
    by (intro total_steps) (use I in \<open>auto simp: inventory_ok_def\<close>)
  then show ?thesis by (simp add: total_builder_def builds_bodies)
qed

lemma memory_total: "module_narrow M \<Longrightarrow> total_builder (\<lambda>Ok. NucRedfishBuildMemoryPost L Ok (Some M) True)"
proof -
  assume M: "module_narrow M"
  have "NucRedfishBuildMemoryPost L True (Some M) True \<noteq> None"
    unfolding NucRedfishBuildMemoryPost_def Let_def option.case simp_thms if_False
    by (intro total_steps) (use module_narrow_fields(6) [OF M] text_terminated [OF module_types(3) [OF M]]
      text_terminated [OF module_types(4) [OF M]] in \<open>auto simp: text_ok_def\<close>)
  then show ?thesis by (simp add: total_builder_def builds_bodies)
qed

lemma processor_total: "processor_narrow P \<Longrightarrow> total_builder (\<lambda>Ok. NucRedfishBuildProcessorPost L Ok (Some P) True)"
proof -
  assume P: "processor_narrow P"
  have id: "append_id L b P \<noteq> None" for b
    unfolding append_id_def by (intro total_steps) (use P in \<open>simp add: processor_narrow_def processor_ok_def\<close>)
  have "NucRedfishBuildProcessorPost L True (Some P) True \<noteq> None"
    unfolding NucRedfishBuildProcessorPost_def Let_def option.case simp_thms if_False
    by (intro total_steps id) (use text_terminated [OF processor_texts(1) [OF P]] text_terminated [OF processor_texts(3) [OF P]] in auto)
  then show ?thesis by (simp add: total_builder_def builds_bodies)
qed

lemma drive_total: "drive_ok D \<Longrightarrow> total_builder (\<lambda>Ok. NucRedfishBuildDrivePost L Ok (Some D) True)"
proof -
  assume D: "drive_ok D"
  have "NucRedfishBuildDrivePost L True (Some D) True \<noteq> None"
    unfolding NucRedfishBuildDrivePost_def Let_def option.case simp_thms if_False
    by (intro total_steps) (use drive_texts(1-3) [OF D] text_terminated [OF drive_texts(4) [OF D]]
      text_terminated [OF drive_texts(5) [OF D]] in \<open>auto simp: text_ok_def\<close>)
  then show ?thesis by (simp add: total_builder_def builds_bodies)
qed

lemma firmware_total:
  assumes "status_fields S" "terminated (fw_ImageTypeId S)"
  shows "total_builder (\<lambda>Ok. NucRedfishBuildFirmwareInventoryPatch L Ok (Some S) True)"
proof -
  have "NucRedfishBuildFirmwareInventoryPatch L True (Some S) True \<noteq> None"
    unfolding NucRedfishBuildFirmwareInventoryPatch_def Let_def option.case simp_thms if_False
    by (intro total_steps) (use assms in \<open>auto simp: status_fields_def\<close>)
  then show ?thesis by (simp add: total_builder_def builds_bodies)
qed

section \<open>Reports come back\<close>

text \<open>Well-formed sources of the inventory, at every point of the exchange.\<close>

definition smbios_ok :: "u8 list list option \<Rightarrow> bool" where
  "smbios_ok Smbios \<longleftrightarrow> (\<forall>Rs. Smbios = Some Rs \<longrightarrow> (\<exists>sts. Rs = map encode_struct sts \<and> (\<forall>st \<in> set sts. struct_ok st)))"

definition sources_ok :: "sync_env \<Rightarrow> bool" where
  "sources_ok E \<longleftrightarrow> ascii_lib_ok (e_Lib E) \<and> (\<forall>t. smbios_ok (e_Smbios E t)) \<and>
     (\<forall>t Hs. e_Disks E t = Some Hs \<longrightarrow> (\<forall>H \<in> set Hs. handle_ok H)) \<and>
     (\<forall>t Hs. e_Fmps E t = Some Hs \<longrightarrow> (\<forall>H \<in> set Hs. strings_ok H))"

text \<open>Only the result is of interest.\<close>

abbreviation comes_back :: "bool sync \<Rightarrow> bool" where
  "comes_back m \<equiv> yields m (\<lambda>ok es. ok)"

lemma build_body_total: "total_builder build \<Longrightarrow> yields (build_body E build) (\<lambda>r es. r \<noteq> None)"
proof -
  assume b: "total_builder build"
  have "build Ok \<noteq> None" for Ok
    using b by (cases Ok) (auto simp: total_builder_def builds_def)
  then show ?thesis
    unfolding build_body_def by (auto simp del: not_None_eq intro!: yields_intros)
qed

lemma post_loop_back: "(\<And>x. x \<in> set xs \<Longrightarrow> total_builder (build x)) \<Longrightarrow> comes_back (post_loop E uri build xs)"
proof (induction xs)
  case (Cons x xs)
  then show ?case
    by (auto simp: httpPost_def intro!: yields_intros yields_bind [OF build_body_total])
qed (auto intro!: yields_intros)

lemma patch_back: "total_builder build \<Longrightarrow> comes_back (do { r \<leftarrow> build_body E build; patch_body E uri r })"
  by (rule yields_bind [OF build_body_total]) (auto simp: patch_body_def httpPatch_def intro!: yields_intros)

lemma system_back:
  assumes "sources_ok E"
  shows "comes_back (report_system E)"
  unfolding report_system_def locateSmbios_def
proof (rule yields_ask_from [where P = smbios_ok])
  fix Smbios
  assume "smbios_ok Smbios"
  then obtain s Inv where "NucRedfishCollectInventory (e_Lib E) Smbios = Some (s, Inv)" "inventory_ok Inv"
    using collect_inventory_total [of "e_Lib E" Smbios] assms by (auto simp: smbios_ok_def sources_ok_def)
  then show "comes_back (case NucRedfishCollectInventory (e_Lib E) Smbios of None \<Rightarrow> fault
      | Some (_, Inventory) \<Rightarrow> do { r \<leftarrow> build_body E (\<lambda>Ok. NucRedfishBuildSystemPatch (e_Lib E) Ok (Some Inventory) True);
          patch_body E NUC_REDFISH_SYSTEM_URI r })"
    by (simp add: patch_back system_total)
qed (use assms in \<open>simp add: sources_ok_def\<close>)

lemma list_all2_right: "list_all2 D xs ys \<Longrightarrow> y \<in> set ys \<Longrightarrow> \<exists>x. D x y"
  by (induction rule: list_all2_induct) auto

lemma memory_back:
  assumes "sources_ok E"
  shows "comes_back (ReportMemory E)"
  unfolding ReportMemory_def locateSmbios_def
proof (rule yields_ask_from [where P = smbios_ok])
  fix Smbios
  assume ok: "smbios_ok Smbios"
  have "\<exists>s Modules. NucRedfishCollectMemory True NUC_REDFISH_MEMORY_MAX Smbios = Some (s, Modules) \<and> (\<forall>M \<in> set Modules. module_narrow M)"
  proof (cases Smbios)
    case (Some Rs)
    then obtain sts where sts: "Rs = map encode_struct sts" "\<forall>st \<in> set sts. struct_ok st"
      using ok by (auto simp: smbios_ok_def)
    have "0 < NUC_REDFISH_MEMORY_MAX" by (simp add: NUC_REDFISH_MEMORY_MAX_def)
    from collect_memory_modules [OF sts(2) this] Some sts(1) show ?thesis
      by (auto dest!: list_all2_right [rotated] intro: describes_narrow)
  qed (simp add: NucRedfishCollectMemory_def NUC_REDFISH_MEMORY_MAX_def)
  then show "comes_back (case NucRedfishCollectMemory True NUC_REDFISH_MEMORY_MAX Smbios of None \<Rightarrow> fault
      | Some (Status, Modules) \<Rightarrow> if EFI_ERROR Status \<or> Modules = [] then State_Monad.return True
          else post_loop E NUC_REDFISH_MEMORY_URI (\<lambda>M Ok. NucRedfishBuildMemoryPost (e_Lib E) Ok (Some M) True) Modules)"
    by (auto intro!: yields_intros post_loop_back memory_total)
qed (use assms in \<open>simp add: sources_ok_def\<close>)

lemma processors_back:
  assumes "sources_ok E"
  shows "comes_back (ReportProcessors E)"
  unfolding ReportProcessors_def locateSmbios_def
proof (rule yields_ask_from [where P = smbios_ok])
  fix Smbios
  assume ok: "smbios_ok Smbios"
  have "\<exists>s Ps. NucRedfishCollectProcessors (e_Lib E) True NUC_REDFISH_PROCESSOR_MAX Smbios = Some (s, Ps) \<and> (\<forall>P \<in> set Ps. processor_narrow P)"
  proof (cases Smbios)
    case (Some Rs)
    then obtain sts where sts: "Rs = map encode_struct sts" "\<forall>st \<in> set sts. struct_ok st"
      using ok by (auto simp: smbios_ok_def)
    have "0 < NUC_REDFISH_PROCESSOR_MAX" "ascii_lib_ok (e_Lib E)"
      using assms by (simp_all add: NUC_REDFISH_PROCESSOR_MAX_def sources_ok_def)
    from collect_processors_entries [OF this(2) sts(2) this(1)] Some sts(1) show ?thesis
      by (auto dest!: list_all2_right [rotated] intro: describes_cpu_narrow)
  qed (simp add: NucRedfishCollectProcessors_def NUC_REDFISH_PROCESSOR_MAX_def)
  then show "comes_back (case NucRedfishCollectProcessors (e_Lib E) True NUC_REDFISH_PROCESSOR_MAX Smbios of None \<Rightarrow> fault
      | Some (Status, Processors) \<Rightarrow> if EFI_ERROR Status \<or> Processors = [] then State_Monad.return True
          else post_loop E NUC_REDFISH_PROCESSORS_URI (\<lambda>P Ok. NucRedfishBuildProcessorPost (e_Lib E) Ok (Some P) True) Processors)"
    by (auto intro!: yields_intros post_loop_back processor_total)
qed (use assms in \<open>simp add: sources_ok_def\<close>)

lemma drives_back:
  assumes "sources_ok E"
  shows "comes_back (ReportDrives E)"
  unfolding ReportDrives_def locateDisks_def
proof (rule yields_ask_from [where P = "\<lambda>Handles. \<forall>Hs. Handles = Some Hs \<longrightarrow> (\<forall>H \<in> set Hs. handle_ok H)"])
  fix Handles
  assume ok: "\<forall>Hs. Handles = Some Hs \<longrightarrow> (\<forall>H \<in> set Hs. handle_ok H)"
  let ?n = NUC_REDFISH_DRIVE_MAX
  have slots: "slots_ok ?n (replicate ?n zero_drive) 0"
    by (simp add: slots_ok_def)
  have "\<exists>s Drives Count. NucRedfishCollectDrives (e_Guids E) True ?n Handles = Some (s, Drives, Count) \<and>
      (\<forall>D \<in> set (take Count Drives). drive_ok D)"
  proof (cases Handles)
    case (Some Hs)
    with drive_loop_spec [of Hs ?n "replicate ?n zero_drive" 0 "[]" "e_Guids E"] slots ok show ?thesis
      by (auto simp: NucRedfishCollectDrives_def NUC_REDFISH_DRIVE_MAX_def slots_ok_def)
  qed (simp add: NucRedfishCollectDrives_def NUC_REDFISH_DRIVE_MAX_def)
  then show "comes_back (case NucRedfishCollectDrives (e_Guids E) True ?n Handles of None \<Rightarrow> fault
      | Some (Status, Drives, Count) \<Rightarrow> if EFI_ERROR Status \<or> Count = 0 then State_Monad.return True
          else post_loop E NUC_REDFISH_DRIVES_URI (\<lambda>D Ok. NucRedfishBuildDrivePost (e_Lib E) Ok (Some D) True) (take Count Drives))"
    by (auto intro!: yields_intros post_loop_back drive_total)
qed (use assms in \<open>simp add: sources_ok_def\<close>)

lemma firmware_back:
  assumes "sources_ok E"
  shows "comes_back (ReportFirmwareInventory E)"
  unfolding ReportFirmwareInventory_def locateFmps_def
proof (rule yields_ask_from [where P = "\<lambda>Handles. \<forall>Hs. Handles = Some Hs \<longrightarrow> (\<forall>H \<in> set Hs. strings_ok H)"])
  fix Handles
  assume ok: "\<forall>Hs. Handles = Some Hs \<longrightarrow> (\<forall>H \<in> set Hs. strings_ok H)"
  have "\<exists>s S es. NucRedfishCollectFirmwareStatus (e_Lib E) True Handles = Some (s, S, es) \<and>
      (\<not> EFI_ERROR s \<longrightarrow> status_fields S \<and> terminated (fw_ImageTypeId S))"
  proof (cases Handles)
    case (Some Hs)
    obtain S Found es where loop: "firmware_loop (e_Lib E) Hs zero_status = Some (S, Found, es)"
      "case find answers Hs of None \<Rightarrow> \<not> Found \<and> S = zero_status
       | Some H \<Rightarrow> Found \<and> describes_image (e_Lib E) H S \<and> status_fields S"
      using firmware_loop_spec [of Hs "e_Lib E"] ok Some by blast
    moreover have "terminated (fw_ImageTypeId S)" if "describes_image (e_Lib E) H S" for H
      using that by (simp add: describes_image_def Let_def RenderFmpGuid_def print_into_def)
    ultimately show ?thesis
      using Some by (auto simp: NucRedfishCollectFirmwareStatus_def split: option.splits)
  qed (simp add: NucRedfishCollectFirmwareStatus_def)
  then show "comes_back (case NucRedfishCollectFirmwareStatus (e_Lib E) True Handles of None \<Rightarrow> fault
      | Some (Status, FirmwareStatus, _) \<Rightarrow> if EFI_ERROR Status then State_Monad.return True
          else do { r \<leftarrow> build_body E (\<lambda>Ok. NucRedfishBuildFirmwareInventoryPatch (e_Lib E) Ok (Some FirmwareStatus) True);
            patch_body E NUC_REDFISH_FIRMWARE_INVENTORY_URI r })"
    by (auto intro!: yields_intros patch_back firmware_total)
qed (use assms in \<open>simp add: sources_ok_def\<close>)

lemma continue_back: "comes_back m \<Longrightarrow> yields k Q \<Longrightarrow> (\<And>ok es es'. Q ok es' \<Longrightarrow> Q ok (es @ es')) \<Longrightarrow> yields (continue_with m k) Q"
  by (rule continue_yields [where P = "\<lambda>ok es. ok"]) (auto intro: yields_weaken)

section \<open>A staged override is carried out\<close>

text \<open>
  The link: within the waiting time of the exchange the service root is answered, and until then
  the only other answer is that there is no link.
\<close>

definition link_comes_up :: "sync_env \<Rightarrow> bool" where
  "link_comes_up E \<longleftrightarrow> (\<forall>t. let s = fst (e_Get E t NUC_REDFISH_SERVICE_ROOT_URI) in
     (\<not> EFI_ERROR s \<or> s = EFI_NO_MEDIA) \<and> (14000000 \<le> stalled t \<longrightarrow> \<not> EFI_ERROR s))"

text \<open>The controller asks for a boot from the class target, accepts the acknowledgement, and the variable can be set.\<close>

definition override_staged :: "sync_env \<Rightarrow> u8 list \<Rightarrow> load_option list \<Rightarrow> bool" where
  "override_staged E target Options \<longleftrightarrow>
     (\<forall>t. case e_Get E t NUC_REDFISH_SYSTEM_URI of (s, P) \<Rightarrow> \<not> EFI_ERROR s \<and> requested P = Some target) \<and>
     (\<forall>t. e_LoadOptions E t = Some Options) \<and>
     (\<forall>t. \<not> EFI_ERROR (e_Patch E t NUC_REDFISH_SYSTEM_URI clear_override)) \<and>
     (\<forall>t n. \<not> EFI_ERROR (e_SetBootNext E t n))"

lemma root_answered:
  assumes "link_comes_up E"
  shows "14000000 \<le> stalled t + 2000000 * n \<Longrightarrow>
    \<exists>s es. run_state (root_loop E (Suc n)) t = (s, t @ es) \<and> \<not> EFI_ERROR s"
proof (induction n arbitrary: t)
  case 0
  then show ?case
    using assms by (cases "e_Get E t NUC_REDFISH_SERVICE_ROOT_URI")
      (force simp: link_comes_up_def httpGet_def Let_def)
next
  case (Suc n)
  obtain s p where g: "e_Get E t NUC_REDFISH_SERVICE_ROOT_URI = (s, p)" by fastforce
  show ?case
  proof (cases "s = EFI_NO_MEDIA")
    case True
    let ?t = "t @ [HttpGet NUC_REDFISH_SERVICE_ROOT_URI s p, FreeResponse, SyncStall 2000000]"
    have "14000000 \<le> stalled ?t + 2000000 * n"
      using Suc.prems by simp
    from Suc.IH [OF this] obtain s' es where "run_state (root_loop E (Suc n)) ?t = (s', ?t @ es)" "\<not> EFI_ERROR s'"
      by blast
    with g True show ?thesis
      by (simp add: root_loop.simps(2) [of E "Suc n"] httpGet_def NUC_REDFISH_MEDIA_RETRY_STALL_def del: root_loop.simps)
  next
    case False
    then have "\<not> EFI_ERROR s"
      using assms g unfolding link_comes_up_def Let_def by (metis fst_conv)
    with g False show ?thesis
      by (simp add: httpGet_def)
  qed
qed

text \<open>What is recorded of the services that grant the override.\<close>

fun granted :: "load_option list \<Rightarrow> sync_event \<Rightarrow> bool" where
  "granted Options (GetLoadOptions Os) \<longleftrightarrow> Os = Some Options"
| "granted Options (HttpPatch uri body s) \<longleftrightarrow> (uri = NUC_REDFISH_SYSTEM_URI \<and> body = clear_override \<longrightarrow> \<not> EFI_ERROR s)"
| "granted Options (SetBootNext n a s) \<longleftrightarrow> \<not> EFI_ERROR s"
| "granted Options _ \<longleftrightarrow> True"

abbreviation all_granted :: "load_option list \<Rightarrow> 'a sync \<Rightarrow> bool" where
  "all_granted Options m \<equiv> yields m (\<lambda>r es. \<forall>e \<in> set es. granted Options e)"

lemma find_granted:
  assumes "override_staged E target Options"
  shows "all_granted Options (FindBootOverrideOption E T)"
  unfolding FindBootOverrideOption_def
  by (auto intro!: yields_return yields_tell_bind yields_option yields_if
      yields_ask_from [where P = "\<lambda>Os. Os = Some Options"] split: option.splits)
    (use assms in \<open>simp add: override_staged_def\<close>)

lemma acknowledge_granted:
  assumes "override_staged E target Options"
  shows "all_granted Options (acknowledge_and_apply E Os i)"
proof -
  have apply_granted: "all_granted Options (continue_with (ApplyMatchedOption E (Os ! i)) (do { tell FreeLoadOptions; State_Monad.return True }))"
    unfolding ApplyMatchedOption_def continue_with_def Let_def
    by (rule yields_bind [where P = "\<lambda>r es. \<forall>e \<in> set es. granted Options e"])
      (use assms in \<open>auto simp: override_staged_def intro!: yields_return yields_tell_bind yields_if yields_ask_from [where P = "\<lambda>s. \<not> EFI_ERROR s"]\<close>)
  show ?thesis
    unfolding acknowledge_and_apply_def httpPatch_def
    by (rule yields_ask_from [where P = "\<lambda>s. \<not> EFI_ERROR s"])
      (use assms in \<open>auto simp: override_staged_def intro!: yields_return yields_tell_bind yields_if yields_weaken [OF apply_granted]\<close>)
qed

lemma handle_granted:
  assumes "override_staged E target Options"
  shows "all_granted Options (HandleBootOverride E P)"
proof -
  have "all_granted Options (do { r \<leftarrow> FindBootOverrideOption E T; case r of None \<Rightarrow> State_Monad.return False | Some None \<Rightarrow> State_Monad.return True
      | Some (Some (Os, Match)) \<Rightarrow> acknowledge_and_apply E Os Match })" for T
    by (rule yields_bind [OF find_granted [OF assms]])
      (auto intro!: yields_return yields_weaken [OF acknowledge_granted [OF assms]] split: option.splits)
  then show ?thesis
    unfolding HandleBootOverride_def fault_def
    by (auto intro!: yields_return yields_tell_bind yields_option yields_if)
qed

lemma handle_resets:
  assumes "override_staged E target Options" "requested P = Some target" "first_match target Options = Some i"
  shows "yields (HandleBootOverride E P) (\<lambda>ok es. \<not> ok \<and>
    (\<exists>pre s. es = pre @ [SetBootNext (OptionNumber (Options ! i)) 7 s, ResetCold] \<and> \<not> EFI_ERROR s))"
proof (rule yields_weaken [OF yields_conj [OF HandleBootOverride_yields handle_granted [OF assms(1)]]], elim conjE)
  fix ok es
  assume run: "override_run P ok es" and gr: "\<forall>e \<in> set es. granted Options e"
  have "Options \<noteq> []" using assms(3) by auto
  from run show "\<not> ok \<and> (\<exists>pre s. es = pre @ [SetBootNext (OptionNumber (Options ! i)) 7 s, ResetCold] \<and> \<not> EFI_ERROR s)"
    by cases (use gr assms(2,3) \<open>Options \<noteq> []\<close> in auto)
qed

lemma read_back_resets:
  assumes "override_staged E target Options" "first_match target Options = Some i"
  shows "yields (read_back E) (\<lambda>ok es. \<not> ok \<and>
    (\<exists>pre s. es = pre @ [SetBootNext (OptionNumber (Options ! i)) 7 s, ResetCold] \<and> \<not> EFI_ERROR s))"
  unfolding read_back_def httpGet_def
proof (rule yields_ask_from [where P = "\<lambda>(s, P). \<not> EFI_ERROR s \<and> requested P = Some target"])
  show "case e_Get E t NUC_REDFISH_SYSTEM_URI of (s, P) \<Rightarrow> \<not> EFI_ERROR s \<and> requested P = Some target" for t
    using assms(1) by (simp add: override_staged_def)
next
  fix r :: "efi_status \<times> json option"
  assume "case r of (s, P) \<Rightarrow> \<not> EFI_ERROR s \<and> requested P = Some target"
  then obtain s P where r: "r = (s, P)" "\<not> EFI_ERROR s" "requested P = Some target" by (cases r) auto
  have "yields (continue_with (HandleBootOverride E P) (do { tell FreeResponse; State_Monad.return True })) (\<lambda>ok es. \<not> ok \<and>
    (\<exists>pre s'. HttpGet NUC_REDFISH_SYSTEM_URI s P # es = pre @ [SetBootNext (OptionNumber (Options ! i)) 7 s', ResetCold] \<and> \<not> EFI_ERROR s'))"
    by (rule continue_yields [OF handle_resets [OF assms(1) r(3) assms(2)]]) (metis append_Cons, simp)
  with r show "yields (case r of (Status, Payload) \<Rightarrow> continue_with
      (if EFI_ERROR Status then State_Monad.return True else HandleBootOverride E Payload)
      (do { tell FreeResponse; State_Monad.return True })) (\<lambda>ok es. \<not> ok \<and>
    (\<exists>pre s'. (case r of (s, p) \<Rightarrow> HttpGet NUC_REDFISH_SYSTEM_URI s p) # es = pre @ [SetBootNext (OptionNumber (Options ! i)) 7 s', ResetCold] \<and> \<not> EFI_ERROR s'))"
    by simp
qed

lemma override_resets:
  assumes "sources_ok E" "link_comes_up E" "\<forall>t. e_CreateService E t" "override_staged E target Options"
    and "i < length Options" "in_class target (Options ! i)" "\<forall>j < i. \<not> in_class target (Options ! j)"
  shows "\<exists>es s. run_state (NucRedfishSync E) t = (False, t @ es @ [SetBootNext (OptionNumber (Options ! i)) 7 s, ResetCold]) \<and>
    \<not> EFI_ERROR s"
proof -
  let ?Q = "\<lambda>ok es. \<not> ok \<and> (\<exists>pre s. es = pre @ [SetBootNext (OptionNumber (Options ! i)) 7 s, ResetCold] \<and> \<not> EFI_ERROR s)"
  let ?rest = "continue_with (report_system E) (continue_with (ReportMemory E) (continue_with (ReportProcessors E)
    (continue_with (ReportDrives E) (continue_with (ReportFirmwareInventory E) (read_back E)))))"
  have "first_match target Options = Some i"
    using assms(5-7) by (simp add: first_match_Some)
  note reports_back = system_back memory_back processors_back drives_back firmware_back
  have ext: "?Q ok (es @ es')" if "?Q ok es'" for ok es es'
    using that by (metis append.assoc)
  have rest: "yields ?rest ?Q"
    by (intro continue_back reports_back [OF assms(1)] read_back_resets [OF assms(4) \<open>first_match target Options = Some i\<close>] ext)
  let ?t = "t @ [CreateService True]"
  obtain s es where poll: "run_state (root_loop E 8) ?t = (s, ?t @ es)" "\<not> EFI_ERROR s"
    using root_answered [OF assms(2), of ?t 7] by (auto simp del: root_loop.simps)
  obtain ok es' where "run_state ?rest (?t @ es) = (ok, (?t @ es) @ es')" "?Q ok es'"
    by (rule yieldsD [OF rest])
  with poll assms(3) show ?thesis
    by (force simp: NucRedfishSync_def NUC_REDFISH_MEDIA_RETRIES_def)
qed

lemma demo_sync_staged:
  "sources_ok demo_sync" "link_comes_up demo_sync" "\<forall>t. e_CreateService demo_sync t"
  "override_staged demo_sync (ascii ''Hdd'') demo_options"
  "1 < length demo_options" "in_class (ascii ''Hdd'') (demo_options ! 1)" "\<forall>j < 1. \<not> in_class (ascii ''Hdd'') (demo_options ! j)"
proof -
  show "sources_ok demo_sync" "link_comes_up demo_sync" "\<forall>t. e_CreateService demo_sync t"
    by (simp_all add: sources_ok_def smbios_ok_def link_comes_up_def demo_sync_def edk2_lib_ok)
  show "override_staged demo_sync (ascii ''Hdd'') demo_options"
    using demo_sync_parts(1) by (simp add: override_staged_def demo_sync_def)
  show "1 < length demo_options" "in_class (ascii ''Hdd'') (demo_options ! 1)" "\<forall>j < 1. \<not> in_class (ascii ''Hdd'') (demo_options ! j)"
    using demo_sync_parts(2) unfolding first_match_Some by blast+
qed

text \<open>
  C2: a staged override is carried out.  On a machine with well-formed inventory sources, if the link
  comes up within fourteen seconds, the controller has a one-time override staged and accepts its
  acknowledgement, and the boot variable can be written, then the exchange ends by writing the number
  of the first option of the requested class and resetting, whatever happens to the reports before.
\<close>

theorem override_honoured:
  assumes "sources_ok E" "link_comes_up E" "\<forall>t. e_CreateService E t" "override_staged E target Options"
    and "i < length Options" "in_class target (Options ! i)" "\<forall>j < i. \<not> in_class target (Options ! j)"
  shows "\<exists>es s. run_state (NucRedfishSync E) t = (False, t @ es @ [SetBootNext (OptionNumber (Options ! i)) 7 s, ResetCold]) \<and>
    \<not> EFI_ERROR s"
  using override_resets [OF assms] .

theorem override_honoured_witness:
  "\<exists>es s. run_state (NucRedfishSync demo_sync) [] = (False, es @ [SetBootNext 1 7 s, ResetCold])"
  using override_honoured [OF demo_sync_staged, of "[]"] by (auto simp: demo_options_def)

theorem reset_only_after_acknowledged_override_witness:
  "\<exists>es ack. HttpPatch NUC_REDFISH_SYSTEM_URI clear_override ack \<in> set es \<and> \<not> EFI_ERROR ack \<and>
    run_state (NucRedfishSync demo_sync) [] = (False, es)"
proof -
  obtain es where "run_state (NucRedfishSync demo_sync) [] = (False, [] @ es)" "ResetCold \<in> set es"
    using override_resets [OF demo_sync_staged, of "[]"] by auto
  with reset_only_after_acknowledged_override [OF this] show ?thesis
    by fastforce
qed

end
