(* ===== verification/HostInterface.thy ===== *)
theory HostInterface
  imports BootOptions
begin

text \<open>
  The Redfish host interface of the platform: Library/NucRedfishHostInterfaceLib (the SMBIOS type 42
  device descriptor and protocol record), Library/NucRedfishCredentialLib (the credentials of the
  service) and ConnectRedfishApp (the shell application that brings the network stack up).

  The protocol record is built in a zeroed allocation through the layout of the structures
  MC\_HOST\_INTERFACE\_PROTOCOL\_RECORD and REDFISH\_OVER\_IP\_PROTOCOL\_DATA of the Redfish Host Interface
  Specification (DSP0270), so it is the list of its bytes; a write past the allocation is None.
\<close>

section \<open>Constants\<close>

definition ECM_MAC :: "u8 list" where "ECM_MAC = [0xDA, 0xC0, 0xFF, 0xEE, 0x10, 0x02]"
definition NUC_REDFISH_ECM_ID_VENDOR :: u16 where "NUC_REDFISH_ECM_ID_VENDOR = 0x1D6B"
definition NUC_REDFISH_ECM_ID_PRODUCT :: u16 where "NUC_REDFISH_ECM_ID_PRODUCT = 0x0104"
definition HOST_IP :: "u8 list" where "HOST_IP = [0xA9, 0xFE, 0x0A, 0x02]"
definition SVC_IP :: "u8 list" where "SVC_IP = [0xA9, 0xFE, 0x0A, 0x01]"
definition IP_MASK :: "u8 list" where "IP_MASK = [0xFF, 0xFF, 0x00, 0x00]"
definition NUC_REDFISH_SVC_PORT :: u16 where "NUC_REDFISH_SVC_PORT = 80"
definition NUC_REDFISH_SVC_HOSTNAME :: "u8 list" where "NUC_REDFISH_SVC_HOSTNAME = literal ''169.254.10.1''"

definition mNucRedfishServiceUuid :: efi_guid where
  "mNucRedfishServiceUuid = \<lparr>Data1 = 0x5cc27a14, Data2 = 0xc9f9, Data3 = 0x50c6,
     Data4 = [0xbd, 0xaa, 0xb9, 0x1b, 0x6d, 0xc7, 0x7f, 0x98]\<rparr>"

text \<open>Numbers of the specification.\<close>

definition REDFISH_HOST_INTERFACE_DEVICE_TYPE_USB_V2 :: u8 where "REDFISH_HOST_INTERFACE_DEVICE_TYPE_USB_V2 = 0x04"
definition USB_INTERFACE_DEVICE_DESCRIPTOR_V2_SIZE_1_3 :: u8 where "USB_INTERFACE_DEVICE_DESCRIPTOR_V2_SIZE_1_3 = 0x11"
definition MCHostInterfaceProtocolTypeRedfishOverIP :: u8 where "MCHostInterfaceProtocolTypeRedfishOverIP = 0x04"
definition sizeof_over_ip :: nat where "sizeof_over_ip = 92"
definition sizeof_protocol_record :: nat where "sizeof_protocol_record = 3"

section \<open>The descriptor and the record\<close>

record usb_device_v2 =
  UsbLength :: u8
  IdVendor :: u16
  IdProduct :: u16
  SerialNumberStr :: u8
  UsbMacAddress :: "u8 list"
  Characteristics :: u16
  CredentialBootstrappingHandle :: u16

text \<open>The arguments tell whether the two pointers are given and whether the allocation succeeds.\<close>

definition RedfishPlatformHostInterfaceDeviceDescriptor ::
  "bool \<Rightarrow> bool \<Rightarrow> bool \<Rightarrow> efi_status \<times> (u8 \<times> usb_device_v2) option" where
  "RedfishPlatformHostInterfaceDeviceDescriptor HasType HasDescriptor Allocated =
     (if \<not> HasType \<or> \<not> HasDescriptor then (EFI_INVALID_PARAMETER, None)
      else if \<not> Allocated then (EFI_OUT_OF_RESOURCES, None)
      else (EFI_SUCCESS, Some (REDFISH_HOST_INTERFACE_DEVICE_TYPE_USB_V2,
        \<lparr>UsbLength = USB_INTERFACE_DEVICE_DESCRIPTOR_V2_SIZE_1_3, IdVendor = NUC_REDFISH_ECM_ID_VENDOR,
         IdProduct = NUC_REDFISH_ECM_ID_PRODUCT, SerialNumberStr = 0, UsbMacAddress = ECM_MAC,
         Characteristics = 0, CredentialBootstrappingHandle = 0\<rparr>)))"

definition put :: "nat \<Rightarrow> u8 list \<Rightarrow> u8 list \<Rightarrow> u8 list option" where
  "put off bs buf =
     (if off + length bs \<le> length buf then Some (take off buf @ bs @ drop (off + length bs) buf) else None)"

definition fill_record :: "u8 \<Rightarrow> u8 \<Rightarrow> u8 list \<Rightarrow> u8 list option" where
  "fill_record ProtocolDataSize HostNameSize Record = do {
     Record \<leftarrow> put 0 [MCHostInterfaceProtocolTypeRedfishOverIP, ProtocolDataSize] Record;
     Record \<leftarrow> put 2 (guid_bytes mNucRedfishServiceUuid) Record;
     Record \<leftarrow> put 18 [0x01] Record;
     Record \<leftarrow> put 19 [0x01] Record;
     Record \<leftarrow> put 20 HOST_IP Record;
     Record \<leftarrow> put 36 IP_MASK Record;
     Record \<leftarrow> put 52 [0x01] Record;
     Record \<leftarrow> put 53 [0x01] Record;
     Record \<leftarrow> put 54 SVC_IP Record;
     Record \<leftarrow> put 70 IP_MASK Record;
     Record \<leftarrow> put 86 (le16 NUC_REDFISH_SVC_PORT) Record;
     Record \<leftarrow> put 88 (le32 0xFFFFFFFF) Record;
     Record \<leftarrow> put 92 [HostNameSize] Record;
     put 93 NUC_REDFISH_SVC_HOSTNAME Record
   }"

definition RedfishPlatformHostInterfaceProtocolData ::
  "bool \<Rightarrow> u8 \<Rightarrow> bool \<Rightarrow> (efi_status \<times> u8 list option) option" where
  "RedfishPlatformHostInterfaceProtocolData HasRecord IndexOfProtocolData Allocated =
     (if \<not> HasRecord then Some (EFI_INVALID_PARAMETER, None)
      else if IndexOfProtocolData \<noteq> 0 then Some (EFI_NOT_FOUND, None)
      else do {
        NameLen \<leftarrow> AsciiStrLen NUC_REDFISH_SVC_HOSTNAME;
        let HostNameSize = (of_nat (NameLen + 1) :: u8);
        let ProtocolDataSize = (of_nat (sizeof_over_ip - 1 + unat HostNameSize) :: u8);
        let RecordSize = sizeof_protocol_record - 1 + unat ProtocolDataSize;
        if \<not> Allocated then Some (EFI_OUT_OF_RESOURCES, None)
        else do {
          Record \<leftarrow> fill_record ProtocolDataSize HostNameSize (replicate RecordSize 0);
          Some (EFI_SUCCESS, Some Record)
        }
      })"

definition RedfishPlatformHostInterfaceNotification :: efi_status where
  "RedfishPlatformHostInterfaceNotification = EFI_UNSUPPORTED"

definition RedfishPlatformHostInterfaceSerialNumber :: efi_status where
  "RedfishPlatformHostInterfaceSerialNumber = EFI_UNSUPPORTED"

section \<open>Credentials\<close>

datatype auth_method = AuthMethodNone | AuthMethodHttpBasic

text \<open>
  The out parameters are None where the function does not write them; the strings are null pointers or
  pool copies, of which the first and the second allocation may fail.
\<close>

record auth_out =
  AuthMethod :: "auth_method option"
  UserId :: "u8 list option option"
  Password :: "u8 list option option"
  PoolCopies :: nat

definition pool_copy :: "u8 list \<Rightarrow> u8 list option" where
  "pool_copy s = map_option (\<lambda>n. take (n + 1) s) (AsciiStrLen s)"

definition LibCredentialGetAuthInfo ::
  "bool \<Rightarrow> u8 list option \<Rightarrow> u8 list option \<Rightarrow> bool \<Rightarrow> bool \<Rightarrow> (efi_status \<times> auth_out) option" where
  "LibCredentialGetAuthInfo HasPointers User Pass Alloc1 Alloc2 =
     (let out = \<lparr>AuthMethod = None, UserId = None, Password = None, PoolCopies = 0\<rparr> in
      if \<not> HasPointers then Some (EFI_INVALID_PARAMETER, out)
      else do {
        Empty \<leftarrow> (case User of None \<Rightarrow> Some True | Some u \<Rightarrow> map_option (\<lambda>c. c = 0) (byte_at u 0));
        if Empty then
          Some (EFI_SUCCESS, out\<lparr>AuthMethod := Some AuthMethodNone, UserId := Some None, Password := Some None\<rparr>)
        else do {
          u \<leftarrow> Option.bind User pool_copy;
          if \<not> Alloc1 then Some (EFI_OUT_OF_RESOURCES, out\<lparr>UserId := Some None\<rparr>)
          else do {
            p \<leftarrow> Option.bind Pass pool_copy;
            if \<not> Alloc2 then Some (EFI_OUT_OF_RESOURCES, out\<lparr>UserId := Some None, Password := Some None\<rparr>)
            else Some (EFI_SUCCESS,
              \<lparr>AuthMethod = Some AuthMethodHttpBasic, UserId = Some (Some u), Password = Some (Some p), PoolCopies = 2\<rparr>)
          }
        }
      })"

definition LibStopRedfishService :: "bool \<Rightarrow> nat \<Rightarrow> nat \<Rightarrow> efi_status" where
  "LibStopRedfishService HasThis ServiceStopTypeMax ServiceStopType =
     (if \<not> HasThis \<or> ServiceStopType \<ge> ServiceStopTypeMax then EFI_INVALID_PARAMETER else EFI_SUCCESS)"

section \<open>Connecting the stack\<close>

datatype connect_event =
    ConnectLocate "nat list option"
  | ConnectController nat efi_status
  | ConnectFree
  | PrintPass nat nat
  | PrintDone nat

record connect_env =
  e_AllHandles :: "connect_event list \<Rightarrow> nat list option"
  e_Connect :: "connect_event list \<Rightarrow> nat \<Rightarrow> efi_status"

fun connect_loop :: "connect_env \<Rightarrow> nat list \<Rightarrow> nat \<Rightarrow> (connect_event, nat) prog" where
  "connect_loop E [] Connected = State_Monad.return Connected"
| "connect_loop E (Handle # Handles) Connected = do {
     Status \<leftarrow> ask (\<lambda>t. e_Connect E t Handle) (ConnectController Handle);
     connect_loop E Handles (if EFI_ERROR Status then Connected else Connected + 1)
   }"

definition ConnectAllRecursive :: "connect_env \<Rightarrow> (connect_event, nat) prog" where
  "ConnectAllRecursive E = do {
     r \<leftarrow> ask (e_AllHandles E) ConnectLocate;
     case r of
       None \<Rightarrow> State_Monad.return 0
     | Some Handles \<Rightarrow> do {
         Connected \<leftarrow> connect_loop E Handles 0;
         tell ConnectFree;
         State_Monad.return Connected
       }
   }"

text \<open>The passes that are left, and the number of the next one.\<close>

fun pass_loop :: "connect_env \<Rightarrow> nat \<Rightarrow> nat \<Rightarrow> nat \<Rightarrow> (connect_event, nat) prog" where
  "pass_loop E 0 Pass Tot = State_Monad.return Tot"
| "pass_loop E (Suc n) Pass Tot = do {
     Connected \<leftarrow> ConnectAllRecursive E;
     tell (PrintPass (Pass + 1) Connected);
     if Connected = 0 then State_Monad.return (Tot + Connected)
     else pass_loop E n (Pass + 1) (Tot + Connected)
   }"

definition UefiMain :: "connect_env \<Rightarrow> (connect_event, efi_status) prog" where
  "UefiMain E = do {
     Total \<leftarrow> pass_loop E 3 0 0;
     tell (PrintDone Total);
     State_Monad.return EFI_SUCCESS
   }"

section \<open>The record read back\<close>

text \<open>The fields of a protocol record as its reader finds them, with every length checked.\<close>

record over_ip =
  ServiceUuid :: "u8 list"
  HostIpAssignmentType :: u8
  HostIpAddressFormat :: u8
  HostIpAddress :: "u8 list"
  HostIpMask :: "u8 list"
  RedfishServiceIpDiscoveryType :: u8
  RedfishServiceIpAddressFormat :: u8
  RedfishServiceIpAddress :: "u8 list"
  RedfishServiceIpMask :: "u8 list"
  RedfishServiceIpPort :: u16
  RedfishServiceVlanId :: u32
  RedfishServiceHostname :: "u8 list"

definition view_record :: "u8 list \<Rightarrow> over_ip option" where
  "view_record rec =
     (if length rec < 93 \<or> rec ! 0 \<noteq> 4 \<or> length rec \<noteq> 2 + unat (rec ! 1) \<or> length rec \<noteq> 93 + unat (rec ! 92) then None
      else Some \<lparr>ServiceUuid = take 16 (drop 2 rec), HostIpAssignmentType = rec ! 18, HostIpAddressFormat = rec ! 19,
        HostIpAddress = take 16 (drop 20 rec), HostIpMask = take 16 (drop 36 rec),
        RedfishServiceIpDiscoveryType = rec ! 52, RedfishServiceIpAddressFormat = rec ! 53,
        RedfishServiceIpAddress = take 16 (drop 54 rec), RedfishServiceIpMask = take 16 (drop 70 rec),
        RedfishServiceIpPort = from_le16 (rec ! 86) (rec ! 87),
        RedfishServiceVlanId = from_le32 (rec ! 88) (rec ! 89) (rec ! 90) (rec ! 91),
        RedfishServiceHostname = drop 93 rec\<rparr>)"

lemmas record_constants = MCHostInterfaceProtocolTypeRedfishOverIP_def sizeof_over_ip_def sizeof_protocol_record_def
  mNucRedfishServiceUuid_def guid_bytes_def HOST_IP_def SVC_IP_def IP_MASK_def NUC_REDFISH_SVC_PORT_def
  NUC_REDFISH_SVC_HOSTNAME_def

definition protocol_record :: "u8 list" where
  "protocol_record = [4, 104] @ guid_bytes mNucRedfishServiceUuid @ [1, 1] @ HOST_IP @ replicate 12 0 @ IP_MASK @ replicate 12 0 @
     [1, 1] @ SVC_IP @ replicate 12 0 @ IP_MASK @ replicate 12 0 @ le16 80 @ le32 0xFFFFFFFF @ [13] @ NUC_REDFISH_SVC_HOSTNAME"

lemma protocol_data:
  "RedfishPlatformHostInterfaceProtocolData True 0 True = Some (EFI_SUCCESS, Some protocol_record)"
  by code_simp

lemma protocol_view:
  "view_record protocol_record = Some \<lparr>ServiceUuid = guid_bytes mNucRedfishServiceUuid,
     HostIpAssignmentType = 1, HostIpAddressFormat = 1,
     HostIpAddress = [169, 254, 10, 2] @ replicate 12 0, HostIpMask = [255, 255, 0, 0] @ replicate 12 0,
     RedfishServiceIpDiscoveryType = 1, RedfishServiceIpAddressFormat = 1,
     RedfishServiceIpAddress = [169, 254, 10, 1] @ replicate 12 0, RedfishServiceIpMask = [255, 255, 0, 0] @ replicate 12 0,
     RedfishServiceIpPort = 80, RedfishServiceVlanId = 0xFFFFFFFF,
     RedfishServiceHostname = print_text [Dec 169, Lit ''.'', Dec 254, Lit ''.'', Dec 10, Lit ''.'', Dec 1] @ [0]\<rparr>"
  by code_simp

definition dotted :: "u8 list \<Rightarrow> u8 list" where
  "dotted ip = print_text [Dec (uint (ip ! 0)), Lit ''.'', Dec (uint (ip ! 1)), Lit ''.'', Dec (uint (ip ! 2)), Lit ''.'', Dec (uint (ip ! 3))]"

lemma protocol_data_error:
  "RedfishPlatformHostInterfaceProtocolData True 0 False = Some (EFI_OUT_OF_RESOURCES, None)"
  by code_simp

text \<open>
  The enumeration of protocol records has exactly one, at index 0, unless the allocation fails.  Its
  two length bytes agree with its size, and a reader of the record recovers the service's UUID in GUID
  byte order, static IPv4 addresses of host and service that differ and lie in one subnet under equal
  masks, port 80, and as the host name the dotted form of the service address.
\<close>

theorem host_interface_record:
  "\<exists>rec r. (\<forall>i ok. RedfishPlatformHostInterfaceProtocolData True i ok = Some
       (if i = 0 then if ok then (EFI_SUCCESS, Some rec) else (EFI_OUT_OF_RESOURCES, None) else (EFI_NOT_FOUND, None))) \<and>
     view_record rec = Some r \<and> ServiceUuid r = guid_bytes mNucRedfishServiceUuid \<and>
     HostIpAssignmentType r = 1 \<and> HostIpAddressFormat r = 1 \<and>
     RedfishServiceIpDiscoveryType r = 1 \<and> RedfishServiceIpAddressFormat r = 1 \<and>
     HostIpMask r = RedfishServiceIpMask r \<and> HostIpAddress r \<noteq> RedfishServiceIpAddress r \<and>
     map2 (AND) (HostIpAddress r) (HostIpMask r) = map2 (AND) (RedfishServiceIpAddress r) (RedfishServiceIpMask r) \<and>
     RedfishServiceIpPort r = NUC_REDFISH_SVC_PORT \<and>
     RedfishServiceHostname r = dotted (RedfishServiceIpAddress r) @ [0]"
proof -
  have index: "RedfishPlatformHostInterfaceProtocolData True i ok = Some
       (if i = 0 then if ok then (EFI_SUCCESS, Some protocol_record) else (EFI_OUT_OF_RESOURCES, None) else (EFI_NOT_FOUND, None))"
    for i ok
    using protocol_data protocol_data_error
    by (cases "i = 0"; cases ok) (auto simp: RedfishPlatformHostInterfaceProtocolData_def)
  show ?thesis
    by (rule exI [of _ protocol_record], rule exI, intro conjI allI, rule index, rule protocol_view)
      (simp_all add: NUC_REDFISH_SVC_PORT_def dotted_def)
qed

text \<open>
  The descriptor counts its own bytes and the device type before it, and carries the address of the
  link.
\<close>

lemma device_descriptor_size:
  "RedfishPlatformHostInterfaceDeviceDescriptor True True True = (EFI_SUCCESS, Some (ty, usb)) \<Longrightarrow>
   unat (UsbLength usb) = length ([ty, UsbLength usb] @ le16 (IdVendor usb) @ le16 (IdProduct usb) @ [SerialNumberStr usb] @
     UsbMacAddress usb @ le16 (Characteristics usb) @ le16 (CredentialBootstrappingHandle usb)) \<and> UsbMacAddress usb = ECM_MAC"
  by (auto simp: RedfishPlatformHostInterfaceDeviceDescriptor_def USB_INTERFACE_DEVICE_DESCRIPTOR_V2_SIZE_1_3_def ECM_MAC_def)

section \<open>Credentials and passes\<close>

text \<open>
  With terminated strings, the request has a result: no authentication without a user, both copies with
  one, and after a failed allocation neither copy is kept.
\<close>

lemma take_cstr_nul: "terminated s \<Longrightarrow> take (Suc (length (cstr s))) s = cstr s @ [0]"
  unfolding terminated_def cstr_def by (induction s) auto

lemma pool_copy_cstr: "terminated s \<Longrightarrow> pool_copy s = Some (cstr s @ [0])"
  by (simp add: pool_copy_def AsciiStrLen_terminated take_cstr_nul)

lemma get_auth_info:
  assumes "terminated u" "terminated p"
  shows "LibCredentialGetAuthInfo True (Some u) (Some p) a b =
    (if cstr u = [] then Some (EFI_SUCCESS, \<lparr>AuthMethod = Some AuthMethodNone, UserId = Some None, Password = Some None, PoolCopies = 0\<rparr>)
     else if a \<and> b then Some (EFI_SUCCESS,
       \<lparr>AuthMethod = Some AuthMethodHttpBasic, UserId = Some (Some (cstr u @ [0])), Password = Some (Some (cstr p @ [0])), PoolCopies = 2\<rparr>)
     else Some (EFI_OUT_OF_RESOURCES, \<lparr>AuthMethod = None, UserId = Some None, Password = if a then Some None else None, PoolCopies = 0\<rparr>))"
proof -
  have "byte_at u 0 = Some (u ! 0)" "u ! 0 = 0 \<longleftrightarrow> cstr u = []"
    using assms(1) by (cases u; simp add: terminated_def cstr_def byte_at_def)+
  then show ?thesis
    using assms by (simp add: LibCredentialGetAuthInfo_def pool_copy_cstr)
qed

fun is_pass :: "connect_event \<Rightarrow> bool" where
  "is_pass (PrintPass _ _) = True"
| "is_pass _ = False"

fun handles_delta :: "connect_event \<Rightarrow> int" where
  "handles_delta (ConnectLocate (Some _)) = 1"
| "handles_delta ConnectFree = -1"
| "handles_delta _ = 0"

definition connect_ok :: "nat \<Rightarrow> connect_event list \<Rightarrow> bool" where
  "connect_ok n es \<longleftrightarrow> length (filter is_pass es) \<le> n \<and> sum_list (map handles_delta es) = 0"

lemma connect_loop_ok: "yields (connect_loop E hs c) (\<lambda>_ es. connect_ok 0 es)"
proof (induction hs arbitrary: c)
  case (Cons h hs)
  show ?case
    unfolding connect_loop.simps
    by (intro yields_ask_bind yields_weaken [OF Cons]) (simp add: connect_ok_def)
qed (simp add: yields_return connect_ok_def)

lemma connect_all_ok: "yields (ConnectAllRecursive E) (\<lambda>_ es. connect_ok 0 es)"
  unfolding ConnectAllRecursive_def
  by (intro yields_ask_bind yields_option yields_bind [OF connect_loop_ok] yields_tell_bind yields_return)
    (auto simp: connect_ok_def)

lemma pass_loop_ok: "yields (pass_loop E n k c) (\<lambda>_ es. connect_ok n es)"
proof (induction n arbitrary: k c)
  case (Suc n)
  show ?case
    unfolding pass_loop.simps
    by (intro yields_bind [OF connect_all_ok] yields_tell_bind yields_if yields_return yields_weaken [OF Suc])
      (auto simp: connect_ok_def)
qed (simp add: yields_return connect_ok_def)

text \<open>The application ends after at most three passes and frees every handle buffer.\<close>

lemma connect_ends:
  "\<exists>es. run_state (UefiMain E) t = (EFI_SUCCESS, t @ es) \<and> length (filter is_pass es) \<le> 3 \<and> sum_list (map handles_delta es) = 0"
proof -
  have "yields (UefiMain E) (\<lambda>s es. s = EFI_SUCCESS \<and> connect_ok 3 es)"
    unfolding UefiMain_def
    by (intro yields_bind [OF pass_loop_ok] yields_tell_bind yields_return) (auto simp: connect_ok_def)
  then show ?thesis
    by (rule yieldsD [where t = t]) (auto simp: connect_ok_def)
qed

end
