(* ===== verification/Ptt.thy ===== *)
theory Ptt
  imports AsciiText
begin

text \<open>
  The firmware TPM of the mainboard (mainboard/ptt.c): the command buffer interface behind a
  memory-mapped window, the two commands the firmware sends, the boot-state hook that decides whether
  there is a TPM, and the ACPI table that publishes it.

  The window, the setup options and the stopwatch are the environment.  The polling loop gives up when
  the stopwatch, started at 2000 milliseconds, has expired; every turn waits 50 microseconds, so it has
  expired at the latest after 40000 turns, which is the bound of the loop.  The functions and constants of coreboot
  the table writer uses are the parameter \<open>acpi_lib\<close>.
\<close>

section \<open>The environment\<close>

datatype ptt_event =
    Write8 nat u8
  | Write32 nat u32
  | Read8 nat u8
  | Read32 nat u32
  | StopwatchExpired bool
  | Udelay nat
  | GetOption string u32
  | SetOption string u32 bool

type_synonym ptt_trace = "ptt_event list"

record ptt_env =
  e_Read8 :: "ptt_trace \<Rightarrow> nat \<Rightarrow> u8"
  e_Read32 :: "ptt_trace \<Rightarrow> nat \<Rightarrow> u32"
  e_Expired :: "ptt_trace \<Rightarrow> bool"
  e_GetOption :: "ptt_trace \<Rightarrow> string \<Rightarrow> u32 \<Rightarrow> u32"
  e_SetOption :: "ptt_trace \<Rightarrow> string \<Rightarrow> u32 \<Rightarrow> bool"

type_synonym 'a ptt = "(ptt_event, 'a) prog"

definition read8 :: "ptt_env \<Rightarrow> nat \<Rightarrow> u8 ptt" where
  "read8 E addr = ask (\<lambda>t. e_Read8 E t addr) (Read8 addr)"

definition read32 :: "ptt_env \<Rightarrow> nat \<Rightarrow> u32 ptt" where
  "read32 E addr = ask (\<lambda>t. e_Read32 E t addr) (Read32 addr)"

definition get_uint_option :: "ptt_env \<Rightarrow> string \<Rightarrow> u32 \<Rightarrow> u32 ptt" where
  "get_uint_option E name fallback = ask (\<lambda>t. e_GetOption E t name fallback) (GetOption name)"

definition set_uint_option :: "ptt_env \<Rightarrow> string \<Rightarrow> u32 \<Rightarrow> bool ptt" where
  "set_uint_option E name v = ask (\<lambda>t. e_SetOption E t name v) (SetOption name v)"

lemmas ptt_services = read8_def read32_def get_uint_option_def set_uint_option_def

section \<open>Registers\<close>

definition PTT_CRB_BASE :: nat where "PTT_CRB_BASE = 0xFED70000"
definition PTT_CRB_DATA :: nat where "PTT_CRB_DATA = PTT_CRB_BASE + 0x80"
definition PTT_CRB_DATA_SIZE :: nat where "PTT_CRB_DATA_SIZE = 0xF80"
definition CRB_CTRL_START :: nat where "CRB_CTRL_START = 0x0c"
definition CRB_CTRL_CMD_SIZE :: nat where "CRB_CTRL_CMD_SIZE = 0x18"
definition CRB_CTRL_CMD_PA_LO :: nat where "CRB_CTRL_CMD_PA_LO = 0x1c"
definition CRB_CTRL_CMD_PA_HI :: nat where "CRB_CTRL_CMD_PA_HI = 0x20"
definition CRB_CTRL_RSP_SIZE :: nat where "CRB_CTRL_RSP_SIZE = 0x24"
definition CRB_CTRL_RSP_PA_LO :: nat where "CRB_CTRL_RSP_PA_LO = 0x28"
definition CRB_CTRL_RSP_PA_HI :: nat where "CRB_CTRL_RSP_PA_HI = 0x2c"
definition CRB_HCMD :: nat where "CRB_HCMD = 0x40"
definition CRB_HSTS :: nat where "CRB_HSTS = 0x44"

lemmas ptt_registers = PTT_CRB_DATA_def PTT_CRB_BASE_def PTT_CRB_DATA_SIZE_def CRB_CTRL_START_def CRB_CTRL_CMD_SIZE_def
  CRB_CTRL_CMD_PA_LO_def CRB_CTRL_CMD_PA_HI_def CRB_CTRL_RSP_SIZE_def CRB_CTRL_RSP_PA_LO_def CRB_CTRL_RSP_PA_HI_def
  CRB_HCMD_def CRB_HSTS_def

section \<open>Commands\<close>

fun stage_cmd :: "nat \<Rightarrow> u8 list \<Rightarrow> unit ptt" where
  "stage_cmd i [] = State_Monad.return ()"
| "stage_cmd i (c # cmd) = do { tell (Write8 (PTT_CRB_DATA + i) c); stage_cmd (i + 1) cmd }"

definition poll_turns :: nat where "poll_turns = 40000"

text \<open>True when the command completed, with the number of turns before the stopwatch must have expired.\<close>

fun poll_loop :: "ptt_env \<Rightarrow> nat \<Rightarrow> bool ptt" where
  "poll_loop E n = do {
     Start \<leftarrow> read32 E (PTT_CRB_BASE + CRB_CTRL_START);
     if Start AND 1 = 0 then State_Monad.return True
     else do {
       Expired \<leftarrow> ask (\<lambda>t. n = 0 \<or> e_Expired E t) StopwatchExpired;
       if Expired then State_Monad.return False
       else (case n of
           0 \<Rightarrow> State_Monad.return False
         | Suc n' \<Rightarrow> do { tell (Udelay 50); poll_loop E n' })
     }
   }"

declare poll_loop.simps [simp del]

definition ptt_run :: "ptt_env \<Rightarrow> u8 list \<Rightarrow> u32 ptt" where
  "ptt_run E cmd = do {
     _ \<leftarrow> stage_cmd 0 cmd;
     tell (Write32 (PTT_CRB_BASE + CRB_HCMD) 0);
     tell (Write32 (PTT_CRB_BASE + CRB_CTRL_START) 1);
     Done \<leftarrow> poll_loop E poll_turns;
     if \<not> Done then State_Monad.return 0xffffffff
     else do {
       a \<leftarrow> read8 E (PTT_CRB_DATA + 6);
       b \<leftarrow> read8 E (PTT_CRB_DATA + 7);
       c \<leftarrow> read8 E (PTT_CRB_DATA + 8);
       d \<leftarrow> read8 E (PTT_CRB_DATA + 9);
       State_Monad.return (push_bit 24 (ucast a) OR push_bit 16 (ucast b) OR push_bit 8 (ucast c) OR ucast d)
     }
   }"

definition startup_clear :: "u8 list" where
  "startup_clear = [0x80, 0x01, 0x00, 0x00, 0x00, 0x0c, 0x00, 0x00, 0x01, 0x44, 0x00, 0x00]"

text \<open>The results of the two commands only select a message.\<close>

definition ptt_tpm_startup :: "ptt_env \<Rightarrow> unit ptt" where
  "ptt_tpm_startup E = do { _ \<leftarrow> ptt_run E startup_clear; State_Monad.return () }"

definition clear_cmd :: "u8 list" where
  "clear_cmd = [0x80, 0x02, 0x00, 0x00, 0x00, 0x1b, 0x00, 0x00, 0x01, 0x26, 0x40, 0x00, 0x00, 0x0c,
     0x00, 0x00, 0x00, 0x09, 0x40, 0x00, 0x00, 0x09, 0x00, 0x00, 0x00, 0x00, 0x00]"

definition ptt_tpm_clear :: "ptt_env \<Rightarrow> unit ptt" where
  "ptt_tpm_clear E = do { _ \<leftarrow> ptt_run E clear_cmd; State_Monad.return () }"

section \<open>Setup\<close>

definition point_buffers :: "unit ptt" where
  "point_buffers = do {
     tell (Write32 (PTT_CRB_BASE + CRB_CTRL_CMD_SIZE) (of_nat PTT_CRB_DATA_SIZE));
     tell (Write32 (PTT_CRB_BASE + CRB_CTRL_CMD_PA_LO) (of_nat PTT_CRB_DATA));
     tell (Write32 (PTT_CRB_BASE + CRB_CTRL_CMD_PA_HI) 0);
     tell (Write32 (PTT_CRB_BASE + CRB_CTRL_RSP_SIZE) (of_nat PTT_CRB_DATA_SIZE));
     tell (Write32 (PTT_CRB_BASE + CRB_CTRL_RSP_PA_LO) (of_nat PTT_CRB_DATA));
     tell (Write32 (PTT_CRB_BASE + CRB_CTRL_RSP_PA_HI) 0)
   }"

definition consume_clear_request :: "ptt_env \<Rightarrow> unit ptt" where
  "consume_clear_request E = do {
     Clear \<leftarrow> get_uint_option E ''tpm_clear'' 0;
     if Clear \<noteq> 0 then do {
       Ok \<leftarrow> set_uint_option E ''tpm_clear'' 0;
       if Ok then ptt_tpm_clear E else State_Monad.return ()
     }
     else State_Monad.return ()
   }"

text \<open>The result is the flag ptt\_enabled afterwards.\<close>

definition ptt_setup :: "ptt_env \<Rightarrow> bool \<Rightarrow> bool ptt" where
  "ptt_setup E ptt_enabled = do {
     Enable \<leftarrow> get_uint_option E ''tpm_enable'' 1;
     if Enable = 0 then State_Monad.return ptt_enabled
     else do {
       Hsts \<leftarrow> read32 E (PTT_CRB_BASE + CRB_HSTS);
       if Hsts = 0xffffffff then State_Monad.return ptt_enabled
       else do {
         _ \<leftarrow> point_buffers;
         CmdSize \<leftarrow> read32 E (PTT_CRB_BASE + CRB_CTRL_CMD_SIZE);
         if CmdSize \<noteq> of_nat PTT_CRB_DATA_SIZE then do {
           _ \<leftarrow> read32 E (PTT_CRB_BASE + CRB_CTRL_CMD_SIZE);
           State_Monad.return ptt_enabled
         }
         else do {
           _ \<leftarrow> read32 E (PTT_CRB_BASE + CRB_HSTS);
           _ \<leftarrow> ptt_tpm_startup E;
           _ \<leftarrow> consume_clear_request E;
           State_Monad.return True
         }
       }
     }
   }"

section \<open>The ACPI table\<close>

record acpi_lib =
  acpi_align_current :: "nat \<Rightarrow> nat"
  acpi_checksum :: "u8 list \<Rightarrow> u8"
  OEM_ID :: "u8 list"
  ACPI_TABLE_CREATOR :: "u8 list"
  ASLC :: "u8 list"
  asl_revision :: u32
  tpm2_revision :: u8

text \<open>Documented behaviour: the checksum completes the sum of the bytes to zero; the names have their sizes.\<close>

definition acpi_lib_ok :: "acpi_lib \<Rightarrow> bool" where
  "acpi_lib_ok A \<longleftrightarrow> (\<forall>bs. acpi_checksum A bs + sum_list bs = 0) \<and> length (OEM_ID A) = 6 \<and>
     length (ACPI_TABLE_CREATOR A) = 8 \<and> length (ASLC A) = 4"

definition sizeof_tpm2 :: nat where "sizeof_tpm2 = 76"
definition ACPI_TPM2_SM_ACPI_START :: u32 where "ACPI_TPM2_SM_ACPI_START = 2"

text \<open>
  The table with a given checksum byte, in the layout of the TCG ACPI specification: the header of 36
  bytes, platform class and reserved field, control area, start method, its parameters and the log area.
\<close>

definition tpm2_bytes :: "acpi_lib \<Rightarrow> u8 \<Rightarrow> u8 list" where
  "tpm2_bytes A checksum =
     ascii ''TPM2'' @ le32 (of_nat sizeof_tpm2) @ [tpm2_revision A, checksum] @ OEM_ID A @ ACPI_TABLE_CREATOR A @
     le32 0 @ ASLC A @ le32 (asl_revision A) @ replicate 4 0 @
     le32 (of_nat PTT_CRB_BASE) @ le32 0 @ le32 ACPI_TPM2_SM_ACPI_START @ replicate 24 0"

text \<open>The new position, and the table with its address if one was added.\<close>

definition ptt_write_tpm2_table :: "acpi_lib \<Rightarrow> bool \<Rightarrow> nat \<Rightarrow> nat \<times> (nat \<times> u8 list) option" where
  "ptt_write_tpm2_table A ptt_enabled current =
     (if \<not> ptt_enabled then (current, None)
      else let current = acpi_align_current A current;
               tpm2 = tpm2_bytes A (acpi_checksum A (tpm2_bytes A 0))
           in (current + sizeof_tpm2, Some (current, tpm2)))"

section \<open>Setup decides\<close>

lemma stage_cmd_yields:
  "yields (stage_cmd i cmd) (\<lambda>_ es. es = map2 (\<lambda>j c. Write8 (PTT_CRB_DATA + j) c) [i..<i + length cmd] cmd)"
proof (induction cmd arbitrary: i)
  case (Cons c cmd)
  show ?case
    unfolding stage_cmd.simps
    by (intro yields_tell_bind yields_weaken [OF Cons]) (simp add: upt_conv_Cons del: upt_Suc)
qed (simp add: yields_return)

fun polling :: "ptt_event \<Rightarrow> bool" where
  "polling (Read32 a _) = (a = PTT_CRB_BASE + CRB_CTRL_START)"
| "polling (StopwatchExpired _) = True"
| "polling (Udelay _) = True"
| "polling _ = False"

lemma poll_loop_yields: "yields (poll_loop E n) (\<lambda>_ es. list_all polling es \<and> length es \<le> 3 * n + 2)"
proof (induction n)
  case 0
  show ?case
    by (subst poll_loop.simps) (auto simp: read32_def intro!: yields_intros)
next
  case (Suc n)
  show ?case
    unfolding poll_loop.simps [of E "Suc n"] read32_def nat.case
    by (intro yields_ask_bind yields_if yields_return yields_tell_bind yields_weaken [OF Suc]) auto
qed

text \<open>A command is staged byte by byte; nothing else it does writes into the data buffer or touches an option.\<close>

fun quiet :: "ptt_event \<Rightarrow> bool" where
  "quiet (Write8 _ _) = False"
| "quiet (GetOption _ _) = False"
| "quiet (SetOption _ _ _) = False"
| "quiet _ = True"

definition staged :: "u8 list \<Rightarrow> ptt_trace" where
  "staged cmd = map2 (\<lambda>j c. Write8 (PTT_CRB_DATA + j) c) [0..<length cmd] cmd"

lemma polling_quiet: "polling e \<Longrightarrow> quiet e"
  by (cases e) auto

lemma ptt_run_yields: "yields (ptt_run E cmd) (\<lambda>_ es. \<exists>rest. es = staged cmd @ rest \<and> list_all quiet rest)"
  unfolding ptt_run_def read8_def
  apply (rule yields_bind [OF stage_cmd_yields])
  apply (intro yields_tell_bind)
  apply (rule yields_bind [OF poll_loop_yields])
  apply (auto simp: staged_def list_all_iff polling_quiet intro!: yields_intros)
  done

lemma startup_yields: "yields (ptt_tpm_startup E) (\<lambda>_ es. \<exists>rest. es = staged startup_clear @ rest \<and> list_all quiet rest)"
  unfolding ptt_tpm_startup_def by (rule yields_bind [OF ptt_run_yields]) (auto intro!: yields_intros)

lemma clear_yields: "yields (ptt_tpm_clear E) (\<lambda>_ es. \<exists>rest. es = staged clear_cmd @ rest \<and> list_all quiet rest)"
  unfolding ptt_tpm_clear_def by (rule yields_bind [OF ptt_run_yields]) (auto intro!: yields_intros)

text \<open>The byte that makes a staged command TPM2\_Clear.\<close>

abbreviation clear_byte :: ptt_event where "clear_byte \<equiv> Write8 (PTT_CRB_DATA + 9) 0x26"

lemma staged_startup: "clear_byte \<notin> set (staged startup_clear)"
  by (simp add: staged_def startup_clear_def upt_rec)

lemma staged_clear: "\<exists>pre post. staged clear_cmd = pre @ clear_byte # post \<and> clear_byte \<notin> set pre \<and> clear_byte \<notin> set post"
proof -
  have "staged clear_cmd = map2 (\<lambda>j c. Write8 (PTT_CRB_DATA + j) c) [0..<9] (take 9 clear_cmd) @ clear_byte #
      map2 (\<lambda>j c. Write8 (PTT_CRB_DATA + j) c) [10..<27] (drop 10 clear_cmd)"
    by (simp add: staged_def clear_cmd_def upt_rec)
  moreover have "clear_byte \<notin> set (map2 (\<lambda>j c. Write8 (PTT_CRB_DATA + j) c) [0..<9] (take 9 clear_cmd))"
    "clear_byte \<notin> set (map2 (\<lambda>j c. Write8 (PTT_CRB_DATA + j) c) [10..<27] (drop 10 clear_cmd))"
    by (auto dest!: set_zip_leftD)
  ultimately show ?thesis by blast
qed

text \<open>The clear request: nothing, refused, or consumed and carried out.\<close>

inductive clear_run :: "ptt_trace \<Rightarrow> bool \<Rightarrow> bool" where
  none: "clear_run [GetOption ''tpm_clear'' 0] False"
| refused: "v \<noteq> 0 \<Longrightarrow> clear_run [GetOption ''tpm_clear'' v, SetOption ''tpm_clear'' 0 False] False"
| cleared: "v \<noteq> 0 \<Longrightarrow> list_all quiet rest \<Longrightarrow>
    clear_run ([GetOption ''tpm_clear'' v, SetOption ''tpm_clear'' 0 True] @ staged clear_cmd @ rest) True"

lemma consume_yields: "yields (consume_clear_request E) (\<lambda>_ es. \<exists>c. clear_run es c)"
  unfolding consume_clear_request_def get_uint_option_def set_uint_option_def
  apply (intro yields_ask_bind yields_if)
    apply (rule yields_weaken [OF clear_yields])
    apply (auto intro!: yields_intros intro: clear_run.intros clear_run.cleared [simplified])
  done

text \<open>
  The runs of the setup: disabled by the option; not decoded; inert; or enabled, with the startup and
  the clear request.
\<close>

inductive setup_run :: "bool \<Rightarrow> bool \<Rightarrow> ptt_trace \<Rightarrow> bool" where
  off: "e = GetOption ''tpm_enable'' 0 \<Longrightarrow> setup_run en en [e]"
| undecoded: "v \<noteq> 0 \<Longrightarrow> setup_run en en [GetOption ''tpm_enable'' v, Read32 (PTT_CRB_BASE + CRB_HSTS) 0xffffffff]"
| inert: "v \<noteq> 0 \<Longrightarrow> s \<noteq> 0xF80 \<Longrightarrow> list_all quiet pre \<Longrightarrow>
    setup_run en en (GetOption ''tpm_enable'' v # pre @ [Read32 (PTT_CRB_BASE + CRB_CTRL_CMD_SIZE) s,
      Read32 (PTT_CRB_BASE + CRB_CTRL_CMD_SIZE) s'])"
| live: "v \<noteq> 0 \<Longrightarrow> list_all quiet pre \<Longrightarrow> Read32 (PTT_CRB_BASE + CRB_HSTS) h \<in> set pre \<Longrightarrow> h \<noteq> 0xffffffff \<Longrightarrow>
    Read32 (PTT_CRB_BASE + CRB_CTRL_CMD_SIZE) 0xF80 \<in> set pre \<Longrightarrow> list_all quiet rest \<Longrightarrow> clear_run req c \<Longrightarrow>
    setup_run en True (GetOption ''tpm_enable'' v # pre @ staged startup_clear @ rest @ req)"

definition buffer_writes :: ptt_trace where
  "buffer_writes = [Write32 (PTT_CRB_BASE + CRB_CTRL_CMD_SIZE) 0xF80, Write32 (PTT_CRB_BASE + CRB_CTRL_CMD_PA_LO) 0xFED70080,
     Write32 (PTT_CRB_BASE + CRB_CTRL_CMD_PA_HI) 0, Write32 (PTT_CRB_BASE + CRB_CTRL_RSP_SIZE) 0xF80,
     Write32 (PTT_CRB_BASE + CRB_CTRL_RSP_PA_LO) 0xFED70080, Write32 (PTT_CRB_BASE + CRB_CTRL_RSP_PA_HI) 0]"

lemma point_buffers_yields: "yields point_buffers (\<lambda>_ es. es = buffer_writes)"
  unfolding point_buffers_def buffer_writes_def
  by (intro yields_tell_bind yields_tell) (simp add: PTT_CRB_DATA_SIZE_def PTT_CRB_DATA_def PTT_CRB_BASE_def)

lemma data_size_word [simp]: "of_nat PTT_CRB_DATA_SIZE = (0xF80 :: u32)"
  by (simp add: PTT_CRB_DATA_SIZE_def)

lemma buffer_writes_quiet [simp]: "list_all quiet buffer_writes"
  by (simp add: buffer_writes_def)

lemma setup_yields: "yields (ptt_setup E en) (\<lambda>r es. setup_run en r es)"
  unfolding ptt_setup_def get_uint_option_def read32_def data_size_word
  apply (intro yields_ask_bind yields_if yields_return)
    apply (simp add: setup_run.off)
   apply (simp add: setup_run.undecoded)
  apply (rule yields_bind [OF point_buffers_yields])
  apply (intro yields_ask_bind yields_if yields_return)
  subgoal for v h u es s s'
    using setup_run.inert [of v s "Read32 (PTT_CRB_BASE + CRB_HSTS) h # buffer_writes" en s'] by simp
  apply (rule yields_bind [OF startup_yields])
  apply (rule yields_bind [OF consume_yields])
  apply (rule yields_return)
  subgoal for v h u es s h' u' es' u'' es''
    using setup_run.live [of v "Read32 (PTT_CRB_BASE + CRB_HSTS) h # buffer_writes @
        [Read32 (PTT_CRB_BASE + CRB_CTRL_CMD_SIZE) 0xF80, Read32 (PTT_CRB_BASE + CRB_HSTS) h']" h _ es'' _ en] by auto
  done

lemma quiet_clear_byte: "list_all quiet es \<Longrightarrow> clear_byte \<notin> set es"
  by (induction es) auto

lemma clear_run_clears:
  assumes "clear_run req c" "clear_byte \<in> set req"
  obtains v rest where "req = [GetOption ''tpm_clear'' v, SetOption ''tpm_clear'' 0 True] @ staged clear_cmd @ rest"
    "v \<noteq> 0" "list_all quiet rest"
  using assms by (cases rule: clear_run.cases) auto

lemma setup_clears:
  assumes "setup_run en r es" "clear_byte \<in> set es"
  obtains pre v w rest where "es = pre @ staged clear_cmd @ rest" "clear_byte \<notin> set pre" "list_all quiet rest" "r"
    "v \<noteq> 0" "GetOption ''tpm_enable'' v \<in> set pre" "w \<noteq> 0" "GetOption ''tpm_clear'' w \<in> set pre"
    "SetOption ''tpm_clear'' 0 True \<in> set pre" "Read32 (PTT_CRB_BASE + CRB_CTRL_CMD_SIZE) 0xF80 \<in> set pre"
  using assms(1)
proof cases
  case (live v pre h rest req c)
  have "clear_byte \<in> set req"
    using assms(2) live quiet_clear_byte staged_startup by auto
  with live(9) obtain w rest' where "req = [GetOption ''tpm_clear'' w, SetOption ''tpm_clear'' 0 True] @ staged clear_cmd @ rest'"
      "w \<noteq> 0" "list_all quiet rest'"
    by (rule clear_run_clears)
  with live show ?thesis
    using quiet_clear_byte staged_startup
      that [of "GetOption ''tpm_enable'' v # pre @ staged startup_clear @ rest @ [GetOption ''tpm_clear'' w, SetOption ''tpm_clear'' 0 True]"
        rest' v w] by auto
qed (use assms(2) quiet_clear_byte in auto)

text \<open>
  C10: The firmware sends TPM2\_Clear at most once in the setup, and only if the TPM is enabled in the
  setup menu, the control area kept the buffer size written to it, a clear was requested, and the
  request was reset in the option store before the first byte of the command was staged: a failing clear
  cannot repeat itself at every boot.
\<close>

theorem tpm_clear_guarded:
  assumes "run_state (ptt_setup E en) t = (r, t @ before @ clear_byte # after)"
  shows "r \<and> (\<exists>v. v \<noteq> 0 \<and> GetOption ''tpm_enable'' v \<in> set before) \<and>
    Read32 (PTT_CRB_BASE + CRB_CTRL_CMD_SIZE) (of_nat PTT_CRB_DATA_SIZE) \<in> set before \<and>
    (\<exists>v. v \<noteq> 0 \<and> GetOption ''tpm_clear'' v \<in> set before) \<and> SetOption ''tpm_clear'' 0 True \<in> set before \<and>
    clear_byte \<notin> set before \<union> set after"
proof -
  have "setup_run en r (before @ clear_byte # after)" "clear_byte \<in> set (before @ clear_byte # after)"
    using yields_run [OF setup_yields assms] by auto
  then obtain pre v w rest where es: "before @ clear_byte # after = pre @ staged clear_cmd @ rest" "clear_byte \<notin> set pre"
      "list_all quiet rest" "r" "v \<noteq> 0" "GetOption ''tpm_enable'' v \<in> set pre" "w \<noteq> 0" "GetOption ''tpm_clear'' w \<in> set pre"
      "SetOption ''tpm_clear'' 0 True \<in> set pre" "Read32 (PTT_CRB_BASE + CRB_CTRL_CMD_SIZE) 0xF80 \<in> set pre"
    by (rule setup_clears)
  obtain p q where pq: "staged clear_cmd = p @ clear_byte # q" "clear_byte \<notin> set p" "clear_byte \<notin> set q"
    using staged_clear by blast
  have "before = pre @ p" "after = q @ rest"
    using es(1,2) pq quiet_clear_byte [OF es(3)] append_Cons_eq_iff [of clear_byte "pre @ p" "q @ rest" before after] by auto
  with es pq show ?thesis
    using quiet_clear_byte [OF es(3)] by auto
qed

lemma tpm2_bytes_sum: "sum_list (tpm2_bytes A c) = c + sum_list (tpm2_bytes A 0)"
  by (simp add: tpm2_bytes_def algebra_simps)

lemma tpm2_bytes_length: "acpi_lib_ok A \<Longrightarrow> length (tpm2_bytes A c) = 76"
  by (simp add: tpm2_bytes_def acpi_lib_ok_def)

lemma quiet_no_option: "list_all quiet es \<Longrightarrow> GetOption name v \<notin> set es"
  by (induction es) auto

lemma staged_no_option: "GetOption name v \<notin> set (staged cmd)"
  by (auto simp: staged_def)

lemma clear_run_options: "clear_run req c \<Longrightarrow> GetOption ''tpm_enable'' v \<notin> set req"
  by (auto elim!: clear_run.cases simp: quiet_no_option staged_no_option)

lemma setup_enabled:
  assumes "setup_run False True es"
  shows "Read32 (PTT_CRB_BASE + CRB_CTRL_CMD_SIZE) 0xF80 \<in> set es" "GetOption ''tpm_enable'' 0 \<notin> set es"
  using assms by (auto elim!: setup_run.cases simp: quiet_no_option staged_no_option clear_run_options)

text \<open>
  C17: After the setup on a boot that starts with the flag clear, a TPM2 table is added exactly when the
  TPM is enabled in the setup menu, the window is decoded and the control area keeps what is written to
  it; otherwise nothing is written and the position is unchanged.  The table fills exactly its 76 bytes
  from the aligned position on, its length field says so, its bytes sum to zero, and it names the control area
  and the ACPI start method.
\<close>

theorem tpm2_table_spec:
  assumes "acpi_lib_ok A" "run_state (ptt_setup E False) t = (en, t @ es)"
  shows "case ptt_write_tpm2_table A en current of
      (current', None) \<Rightarrow> current' = current \<and>
        (GetOption ''tpm_enable'' 0 \<in> set es \<or> Read32 (PTT_CRB_BASE + CRB_HSTS) 0xffffffff \<in> set es \<or>
         (\<exists>s. s \<noteq> of_nat PTT_CRB_DATA_SIZE \<and> Read32 (PTT_CRB_BASE + CRB_CTRL_CMD_SIZE) s \<in> set es))
    | (current', Some (pos, tab)) \<Rightarrow> pos = acpi_align_current A current \<and> current' = pos + length tab \<and> length tab = 76 \<and>
        sum_list tab = 0 \<and> take 4 tab = ascii ''TPM2'' \<and> take 4 (drop 4 tab) = le32 (of_nat (length tab)) \<and>
        take 8 (drop 40 tab) = le32 (of_nat PTT_CRB_BASE) @ le32 0 \<and> take 4 (drop 48 tab) = le32 2 \<and>
        GetOption ''tpm_enable'' 0 \<notin> set es \<and>
        Read32 (PTT_CRB_BASE + CRB_CTRL_CMD_SIZE) (of_nat PTT_CRB_DATA_SIZE) \<in> set es"
proof -
  have run: "setup_run False en es"
    using yields_run [OF setup_yields assms(2)] .
  show ?thesis
  proof (cases en)
    case False
    with run show ?thesis
      by (auto simp: ptt_write_tpm2_table_def elim!: setup_run.cases)
  next
    case True
    let ?tab = "tpm2_bytes A (acpi_checksum A (tpm2_bytes A 0))"
    have "sum_list ?tab = 0"
      using assms(1) tpm2_bytes_sum [of A "acpi_checksum A (tpm2_bytes A 0)"] by (simp add: acpi_lib_ok_def)
    moreover have "Read32 (PTT_CRB_BASE + CRB_CTRL_CMD_SIZE) 0xF80 \<in> set es" "GetOption ''tpm_enable'' 0 \<notin> set es"
      using setup_enabled run True by auto
    moreover have "take 4 ?tab = ascii ''TPM2''" "take 4 (drop 4 ?tab) = le32 76"
      "take 8 (drop 40 ?tab) = le32 (of_nat PTT_CRB_BASE) @ le32 0" "take 4 (drop 48 ?tab) = le32 2"
      using assms(1) by (simp_all add: tpm2_bytes_def acpi_lib_ok_def sizeof_tpm2_def ACPI_TPM2_SM_ACPI_START_def)
    ultimately show ?thesis
      using True tpm2_bytes_length [OF assms(1)] by (simp add: ptt_write_tpm2_table_def sizeof_tpm2_def Let_def)
  qed
qed

section \<open>A board with a TPM\<close>

text \<open>A control area that keeps its size, completes every command at once, and a clear request that can be reset.\<close>

definition live_ptt :: ptt_env where
  "live_ptt = \<lparr>e_Read8 = \<lambda>_ _. 0, e_Read32 = \<lambda>_ a. if a = PTT_CRB_BASE + CRB_CTRL_CMD_SIZE then 0xF80 else 0,
     e_Expired = \<lambda>_. False, e_GetOption = \<lambda>_ _ _. 1, e_SetOption = \<lambda>_ _ _. True\<rparr>"

definition plain_acpi :: acpi_lib where
  "plain_acpi = \<lparr>acpi_align_current = \<lambda>c. (c + 15) div 16 * 16, acpi_checksum = \<lambda>bs. - sum_list bs,
     OEM_ID = replicate 6 0x20, ACPI_TABLE_CREATOR = replicate 8 0x20, ASLC = replicate 4 0x20, asl_revision = 1, tpm2_revision = 4\<rparr>"

lemma plain_acpi_ok: "acpi_lib_ok plain_acpi"
  by (simp add: acpi_lib_ok_def plain_acpi_def)

lemma live_poll: "run_state (poll_loop live_ptt n) t = (True, t @ [Read32 (PTT_CRB_BASE + CRB_CTRL_START) 0])"
  by (subst poll_loop.simps) (simp add: read32_def live_ptt_def CRB_CTRL_START_def CRB_CTRL_CMD_SIZE_def)

lemma stage_cmd_run: "run_state (stage_cmd i cmd) t = ((), t @ map2 (\<lambda>j c. Write8 (PTT_CRB_DATA + j) c) [i..<i + length cmd] cmd)"
  using stage_cmd_yields [of i cmd] by (rule yieldsD [where t = t]) simp

lemma live_answers:
  "e_Read8 live_ptt t a = 0" "e_GetOption live_ptt t n v = 1" "e_SetOption live_ptt t n w = True"
  "e_Read32 live_ptt t (PTT_CRB_BASE + CRB_HSTS) = 0" "e_Read32 live_ptt t (PTT_CRB_BASE + CRB_CTRL_CMD_SIZE) = 0xF80"
  by (simp_all add: live_ptt_def CRB_HSTS_def CRB_CTRL_CMD_SIZE_def)

lemma live_run: "\<exists>rest. run_state (ptt_run live_ptt cmd) t = (0, t @ staged cmd @ rest)"
  by (simp add: ptt_run_def live_poll stage_cmd_run read8_def staged_def live_answers)

lemma live_startup: "\<exists>rest. run_state (ptt_tpm_startup live_ptt) t = ((), t @ rest)"
  using live_run [of startup_clear t] by (auto simp: ptt_tpm_startup_def)

lemma live_consume: "\<exists>u v. run_state (consume_clear_request live_ptt) t = ((), t @ u @ clear_byte # v)"
proof -
  let ?u = "[GetOption ''tpm_clear'' 1, SetOption ''tpm_clear'' 0 True]"
  obtain p q where "staged clear_cmd = p @ clear_byte # q"
    using staged_clear by blast
  moreover obtain rest where "run_state (ptt_tpm_clear live_ptt) (t @ ?u) = ((), (t @ ?u) @ staged clear_cmd @ rest)"
    using live_run [of clear_cmd "t @ ?u"] by (auto simp: ptt_tpm_clear_def)
  ultimately have "run_state (consume_clear_request live_ptt) t = ((), t @ (?u @ p) @ clear_byte # (q @ rest))"
    by (simp add: consume_clear_request_def get_uint_option_def set_uint_option_def live_answers)
  then show ?thesis by blast
qed

lemma live_setup: "\<exists>before after. run_state (ptt_setup live_ptt False) [] = (True, before @ clear_byte # after)"
proof -
  let ?pre = "[GetOption ''tpm_enable'' 1, Read32 (PTT_CRB_BASE + CRB_HSTS) 0] @ buffer_writes @
    [Read32 (PTT_CRB_BASE + CRB_CTRL_CMD_SIZE) 0xF80, Read32 (PTT_CRB_BASE + CRB_HSTS) 0]"
  have point: "run_state point_buffers t = ((), t @ buffer_writes)" for t
    using point_buffers_yields by (rule yieldsD [where t = t]) simp
  obtain rest where rest: "run_state (ptt_tpm_startup live_ptt) ?pre = ((), ?pre @ rest)"
    using live_startup by blast
  obtain u v where "run_state (consume_clear_request live_ptt) (?pre @ rest) = ((), (?pre @ rest) @ u @ clear_byte # v)"
    using live_consume by blast
  with rest have "run_state (ptt_setup live_ptt False) [] = (True, (?pre @ rest @ u) @ clear_byte # v)"
    by (simp add: ptt_setup_def get_uint_option_def read32_def live_answers point)
  then show ?thesis by blast
qed

theorem tpm_clear_guarded_witness:
  "\<exists>before after. run_state (ptt_setup live_ptt False) [] = (True, before @ clear_byte # after) \<and>
     SetOption ''tpm_clear'' 0 True \<in> set before \<and> clear_byte \<notin> set before \<union> set after"
proof -
  obtain before after where "run_state (ptt_setup live_ptt False) [] = (True, [] @ before @ clear_byte # after)"
    using live_setup by auto
  then show ?thesis
    using tpm_clear_guarded [of live_ptt False "[]" True before after] by auto
qed

theorem tpm2_table_spec_witness:
  "\<exists>tab. ptt_write_tpm2_table plain_acpi True 0x1001 = (0x1010 + 76, Some (0x1010, tab)) \<and> length tab = 76 \<and> sum_list tab = 0"
proof -
  obtain es where run: "run_state (ptt_setup live_ptt False) [] = (True, [] @ es)"
    using live_setup by auto
  show ?thesis
    using tpm2_table_spec [OF plain_acpi_ok run, where current = 4097]
    by (simp add: ptt_write_tpm2_table_def plain_acpi_def sizeof_tpm2_def Let_def)
qed

end
