(* ===== verification/Mainboard.thy ===== *)
theory Mainboard
  imports Ptt
begin

text \<open>
  The rest of the coreboot mainboard port: the power policy of the Super I/O chip (mainboard/bootblock.c and
  mainboard/smihandler.c), the fan profiles and the SATA switch (mainboard/ramstage.c), the setup menu
  (mainboard/cfr.c), the reset value of the FADT (mainboard/mainboard.c) and the memory slots
  (mainboard/pei\_data.c).

  A setup option is read through a function from its name and the value to use if it is not stored.
  Calls into coreboot drivers are recorded in order; the numbers of the drivers' interfaces are those of
  coreboot, and the conversion of a percentage to a duty cycle is a parameter.
\<close>

section \<open>Power policy\<close>

datatype sio_event =
    EnterConfState
  | SetLogicalDevice
  | UnsetAndSet u8 u8 u8
  | ExitConfState
  | EnableGpe

definition MAINBOARD_POWER_OFF :: nat where "MAINBOARD_POWER_OFF = 0"
definition MAINBOARD_POWER_ON :: nat where "MAINBOARD_POWER_ON = 1"
definition MAINBOARD_POWER_KEEP :: nat where "MAINBOARD_POWER_KEEP = 2"
definition NCT_ACPI_PWR_LOSS_CTL :: u8 where "NCT_ACPI_PWR_LOSS_CTL = 0xe4"
definition NCT_PWR_LOSS_SHIFT :: nat where "NCT_PWR_LOSS_SHIFT = 5"
definition NCT_PWR_LOSS_MASK :: u8 where "NCT_PWR_LOSS_MASK = push_bit NCT_PWR_LOSS_SHIFT 3"
definition NCT_ACPI_KBD_WAKE :: u8 where "NCT_ACPI_KBD_WAKE = 0xe0"
definition NCT_KBD_WAKEUP_PSOUT :: u8 where "NCT_KBD_WAKEUP_PSOUT = push_bit 6 1"
definition NCT_ACPI_PWR_STATE :: u8 where "NCT_ACPI_PWR_STATE = 0xe6"
definition NCT_PWR_STATE_OFF :: u8 where "NCT_PWR_STATE_OFF = push_bit 4 1"
definition ACPI_S5 :: u8 where "ACPI_S5 = 5"

text \<open>The calls, for the configured power failure state.\<close>

definition nct5577d_ac_loss_policy :: "nat \<Rightarrow> sio_event list" where
  "nct5577d_ac_loss_policy PowerState =
     (case (if PowerState = MAINBOARD_POWER_KEEP then Some (3 :: u8)
            else if PowerState = MAINBOARD_POWER_OFF \<or> PowerState = MAINBOARD_POWER_ON then Some (of_nat PowerState)
            else None) of
        None \<Rightarrow> []
      | Some val \<Rightarrow>
          [EnterConfState, SetLogicalDevice,
           UnsetAndSet NCT_ACPI_PWR_LOSS_CTL NCT_PWR_LOSS_MASK (push_bit NCT_PWR_LOSS_SHIFT val), ExitConfState])"

definition mainboard_smi_sleep :: "u8 \<Rightarrow> sio_event list" where
  "mainboard_smi_sleep slp_typ =
     (if slp_typ \<noteq> ACPI_S5 then []
      else [EnterConfState, SetLogicalDevice,
        UnsetAndSet NCT_ACPI_KBD_WAKE NCT_KBD_WAKEUP_PSOUT 0,
        UnsetAndSet NCT_ACPI_PWR_STATE 0 NCT_PWR_STATE_OFF, ExitConfState, EnableGpe])"

section \<open>Fan profiles and SATA\<close>

record nuvoton_fan_curve =
  curve_name :: string
  bank :: nat
  source :: nat
  temp :: "nat list"
  duty :: "u8 list"
  temp_tolerance :: nat
  step_up_time :: nat
  step_down_time :: nat
  duty_per_step_up :: nat
  duty_per_step_down :: nat
  crit_temp :: nat
  crit_duty_en :: nat
  crit_duty :: u8
  crit_temp_tolerance :: nat

definition HWM_IOBASE :: nat where "HWM_IOBASE = 0xa00"
definition CPU_TJMAX :: nat where "CPU_TJMAX = 105"
definition BANK_CPUFAN :: nat where "BANK_CPUFAN = 2"
definition FAN_SOURCE_CPUTIN :: nat where "FAN_SOURCE_CPUTIN = 0x02"
definition FAN_PROFILE_QUIET :: nat where "FAN_PROFILE_QUIET = 0"
definition FAN_PROFILE_BALANCED :: nat where "FAN_PROFILE_BALANCED = 1"
definition FAN_PROFILE_PERFORMANCE :: nat where "FAN_PROFILE_PERFORMANCE = 2"

definition cpu_fan_curves :: "(nat \<Rightarrow> u8) \<Rightarrow> nuvoton_fan_curve list" where
  "cpu_fan_curves DUTY = [
     \<lparr>curve_name = ''CPUFAN/Quiet'', bank = BANK_CPUFAN, source = FAN_SOURCE_CPUTIN, temp = [45, 60, 75, 90],
      duty = [DUTY 20, DUTY 30, DUTY 45, DUTY 70], temp_tolerance = 3, step_up_time = 4, step_down_time = 8,
      duty_per_step_up = 2, duty_per_step_down = 1, crit_temp = 100, crit_duty_en = 1, crit_duty = DUTY 100,
      crit_temp_tolerance = 2\<rparr>,
     \<lparr>curve_name = ''CPUFAN/Balanced'', bank = BANK_CPUFAN, source = FAN_SOURCE_CPUTIN, temp = [40, 55, 70, 85],
      duty = [DUTY 25, DUTY 40, DUTY 60, DUTY 85], temp_tolerance = 2, step_up_time = 2, step_down_time = 4,
      duty_per_step_up = 4, duty_per_step_down = 2, crit_temp = 100, crit_duty_en = 1, crit_duty = DUTY 100,
      crit_temp_tolerance = 2\<rparr>,
     \<lparr>curve_name = ''CPUFAN/Performance'', bank = BANK_CPUFAN, source = FAN_SOURCE_CPUTIN, temp = [35, 50, 65, 80],
      duty = [DUTY 35, DUTY 55, DUTY 80, DUTY 100], temp_tolerance = 1, step_up_time = 1, step_down_time = 2,
      duty_per_step_up = 8, duty_per_step_down = 4, crit_temp = 100, crit_duty_en = 1, crit_duty = DUTY 100,
      crit_temp_tolerance = 2\<rparr>]"

datatype hwm_event =
    HwmEnablePeci nat nat
  | HwmEnablePeciCalibration nat
  | HwmConfigureFan nat nuvoton_fan_curve

type_synonym option_store = "string \<Rightarrow> u32 \<Rightarrow> u32"

text \<open>None is an access outside the array of curves.\<close>

definition hwm_init :: "(nat \<Rightarrow> u8) \<Rightarrow> option_store \<Rightarrow> hwm_event list option" where
  "hwm_init DUTY get_option = do {
     let profile = unat (get_option ''fan_profile'' (of_nat FAN_PROFILE_BALANCED));
     let profile = (if profile > FAN_PROFILE_PERFORMANCE then FAN_PROFILE_BALANCED else profile);
     curve \<leftarrow> byte_at (cpu_fan_curves DUTY) profile;
     Some [HwmEnablePeci HWM_IOBASE CPU_TJMAX, HwmEnablePeciCalibration HWM_IOBASE, HwmConfigureFan HWM_IOBASE curve]
   }"

text \<open>The enable flag of the SATA device, if there is one: a field of one bit, which keeps the lowest bit of the value.\<close>

definition sata_enable_from_option :: "option_store \<Rightarrow> bool \<Rightarrow> bool option" where
  "sata_enable_from_option get_option sata = (if sata then Some (bit (get_option ''sata_enable'' 0) 0) else None)"

section \<open>The setup menu\<close>

record sm_object =
  opt_name :: string
  ui_name :: string
  default_value :: nat
  enum_values :: "(string \<times> nat) list"

definition fan_profile_values :: "(string \<times> nat) list" where
  "fan_profile_values = [(''Quiet'', 0), (''Balanced'', 1), (''Performance'', 2)]"

definition fan_profile :: sm_object where
  "fan_profile = \<lparr>opt_name = ''fan_profile'', ui_name = ''CPU fan profile'', default_value = 1, enum_values = fan_profile_values\<rparr>"

definition power_state_values :: "(string \<times> nat) list" where
  "power_state_values = [(''Power off (S5)'', 0), (''Power on (S0)'', 1)]"

definition power_on_after_fail :: "nat \<Rightarrow> sm_object" where
  "power_on_after_fail CONFIG_MAINBOARD_POWER_FAILURE_STATE = \<lparr>opt_name = ''power_on_after_fail'',
     ui_name = ''Restore power after AC loss'', default_value = CONFIG_MAINBOARD_POWER_FAILURE_STATE,
     enum_values = power_state_values\<rparr>"

definition tpm_enable_values :: "(string \<times> nat) list" where
  "tpm_enable_values = [(''Disabled'', 0), (''Enabled'', 1)]"

definition tpm_enable :: sm_object where
  "tpm_enable = \<lparr>opt_name = ''tpm_enable'', ui_name = ''Firmware TPM (Intel PTT)'', default_value = 1, enum_values = tpm_enable_values\<rparr>"

definition tpm_clear_values :: "(string \<times> nat) list" where
  "tpm_clear_values = [(''No'', 0), (''Clear next boot'', 1)]"

definition tpm_clear :: sm_object where
  "tpm_clear = \<lparr>opt_name = ''tpm_clear'', ui_name = ''Clear TPM (reset ownership)'', default_value = 0, enum_values = tpm_clear_values\<rparr>"

definition sata_enable_values :: "(string \<times> nat) list" where
  "sata_enable_values = [(''Disabled'', 0), (''Enabled'', 1)]"

definition sata_enable :: sm_object where
  "sata_enable = \<lparr>opt_name = ''sata_enable'', ui_name = ''SATA controller'', default_value = 0, enum_values = sata_enable_values\<rparr>"

definition cpu_feature_values :: "(string \<times> nat) list" where
  "cpu_feature_values = [(''Disabled'', 0), (''Enabled'', 1)]"

definition hyper_threading :: sm_object where
  "hyper_threading = \<lparr>opt_name = ''hyper_threading'', ui_name = ''Intel Hyper-Threading Technology'', default_value = 1,
     enum_values = cpu_feature_values\<rparr>"

definition vmx :: sm_object where
  "vmx = \<lparr>opt_name = ''vmx'', ui_name = ''Intel Virtualization Technology (VT-x)'', default_value = 1, enum_values = cpu_feature_values\<rparr>"

definition vtd :: sm_object where
  "vtd = \<lparr>opt_name = ''vtd'', ui_name = ''Intel VT for Directed I/O (VT-d)'', default_value = 1, enum_values = cpu_feature_values\<rparr>"

text \<open>The forms of the menu with their objects.\<close>

definition sm_root :: "nat \<Rightarrow> (string \<times> sm_object list) list" where
  "sm_root PowerState = [(''Processor'', [hyper_threading, vmx, vtd]), (''Security'', [tpm_enable, tpm_clear]),
     (''Power'', [power_on_after_fail PowerState]), (''Cooling'', [fan_profile]), (''Storage'', [sata_enable])]"

lemmas menu_objects = sm_root_def hyper_threading_def vmx_def vtd_def tpm_enable_def tpm_clear_def power_on_after_fail_def
  fan_profile_def sata_enable_def cpu_feature_values_def tpm_enable_values_def tpm_clear_values_def power_state_values_def
  fan_profile_values_def sata_enable_values_def

section \<open>Reset value and memory slots\<close>

definition RST_CPU :: u8 where "RST_CPU = 0x04"
definition SYS_RST :: u8 where "SYS_RST = 0x02"
definition FULL_RST :: u8 where "FULL_RST = 0x08"

definition mainboard_fill_fadt :: "bool \<Rightarrow> u8 \<Rightarrow> u8" where
  "mainboard_fill_fadt HAVE_CF9_RESET reset_value = (if HAVE_CF9_RESET then RST_CPU OR SYS_RST OR FULL_RST else reset_value)"

definition mb_get_spd_map :: "u8 list \<Rightarrow> u8 list" where
  "mb_get_spd_map addresses = addresses[0 := 0x50, 2 := 0x52]"

section \<open>Registers after the calls\<close>

text \<open>
  The registers of the selected logical device after a sequence of calls, with the driver's documented
  read-modify-write: the bits of one mask are cleared and then those of the other set.
\<close>

fun sio_regs :: "sio_event list \<Rightarrow> (u8 \<Rightarrow> u8) \<Rightarrow> u8 \<Rightarrow> u8" where
  "sio_regs [] regs = regs"
| "sio_regs (UnsetAndSet reg unset set' # es) regs = sio_regs es (regs(reg := (regs reg AND NOT unset) OR set'))"
| "sio_regs (_ # es) regs = sio_regs es regs"

lemmas sio_constants = MAINBOARD_POWER_OFF_def MAINBOARD_POWER_ON_def MAINBOARD_POWER_KEEP_def NCT_ACPI_PWR_LOSS_CTL_def
  NCT_PWR_LOSS_SHIFT_def NCT_PWR_LOSS_MASK_def NCT_ACPI_KBD_WAKE_def NCT_KBD_WAKEUP_PSOUT_def NCT_ACPI_PWR_STATE_def
  NCT_PWR_STATE_OFF_def ACPI_S5_def

text \<open>The field for off, on and keep, all other bits and registers untouched; any other configuration touches nothing.\<close>

lemma ac_loss_field:
  "sio_regs (nct5577d_ac_loss_policy s) regs =
     (if s \<in> {0, 1, 2} then regs(0xe4 := (regs 0xe4 AND NOT 0x60) OR push_bit 5 (if s = 2 then 3 else of_nat s)) else regs)"
  by (auto simp: nct5577d_ac_loss_policy_def sio_constants)

text \<open>On the way to soft-off, and only there: keyboard wake off, power state latched as off, wake on LAN armed.\<close>

lemma smi_sleep_regs:
  "sio_regs (mainboard_smi_sleep typ) regs =
     (if typ = 5 then regs(0xe0 := regs 0xe0 AND NOT 0x40, 0xe6 := regs 0xe6 OR 0x10) else regs)"
  "EnableGpe \<in> set (mainboard_smi_sleep typ) \<longleftrightarrow> typ = 5"
  by (auto simp: mainboard_smi_sleep_def sio_constants)

lemma fadt_full_reset: "mainboard_fill_fadt True v = 0x0e"
  by (simp add: mainboard_fill_fadt_def RST_CPU_def SYS_RST_def FULL_RST_def)

text \<open>One slot on each of the two channels; the second slots stay unimplemented.\<close>

lemma spd_slots: "mb_get_spd_map (replicate 4 0) = [0x50, 0, 0x52, 0]"
  by (simp add: mb_get_spd_map_def numeral_eq_Suc)

section \<open>The menu and its readers\<close>

definition menu_default :: "nat \<Rightarrow> string \<Rightarrow> nat option" where
  "menu_default s name = map_option default_value (find (\<lambda>ob. opt_name ob = name) (concat (map snd (sm_root s))))"

lemma menu_wellformed:
  "distinct (map opt_name (concat (map snd (sm_root s))))"
  "s \<in> {0, 1} \<Longrightarrow> list_all (\<lambda>ob. default_value ob \<in> snd ` set (enum_values ob)) (concat (map snd (sm_root s)))"
  by (auto simp: menu_objects)

text \<open>A stored option, and the two ways it can be left alone: not stored at all, or stored as the menu shows it.\<close>

definition unset_store :: option_store where
  "unset_store name fallback = fallback"

definition default_store :: "nat \<Rightarrow> option_store" where
  "default_store s name fallback = (case menu_default s name of None \<Rightarrow> fallback | Some v \<Rightarrow> of_nat v)"

lemma default_store_eq:
  "default_store s ''tpm_enable'' v = 1" "default_store s ''tpm_clear'' v = 0" "default_store s ''fan_profile'' v = 1"
  "default_store s ''sata_enable'' v = 0"
  by (simp_all add: default_store_def menu_default_def menu_objects)

lemma poll_loop_options: "poll_loop (E\<lparr>e_GetOption := f\<rparr>) n = poll_loop E n"
proof (induction n)
  case (Suc n)
  then show ?case
    by (simp add: poll_loop.simps [of _ "Suc n"] read32_def cong: if_cong)
qed (simp add: poll_loop.simps [of _ 0] read32_def cong: if_cong)

lemma ptt_run_options: "ptt_run (E\<lparr>e_GetOption := f\<rparr>) cmd = ptt_run E cmd"
  by (simp add: ptt_run_def poll_loop_options read8_def cong: if_cong)

text \<open>
  An option that was never stored behaves exactly as the default the setup menu shows for it: the
  fan, SATA and TPM code run identically with an empty option store and with one that holds every menu
  default, whatever the hardware answers.
\<close>

theorem absent_option_is_menu_default:
  "hwm_init D unset_store = hwm_init D (default_store s) \<and>
   sata_enable_from_option unset_store b = sata_enable_from_option (default_store s) b \<and>
   run_state (ptt_setup (E\<lparr>e_GetOption := \<lambda>_. unset_store\<rparr>) en) t =
   run_state (ptt_setup (E\<lparr>e_GetOption := \<lambda>_. default_store s\<rparr>) en) t"
proof (intro conjI)
  show "hwm_init D unset_store = hwm_init D (default_store s)"
    by (simp add: hwm_init_def default_store_eq unset_store_def FAN_PROFILE_BALANCED_def)
  show "sata_enable_from_option unset_store b = sata_enable_from_option (default_store s) b"
    by (simp add: sata_enable_from_option_def default_store_eq unset_store_def)
  show "run_state (ptt_setup (E\<lparr>e_GetOption := \<lambda>_. unset_store\<rparr>) en) t =
      run_state (ptt_setup (E\<lparr>e_GetOption := \<lambda>_. default_store s\<rparr>) en) t"
    by (simp add: ptt_setup_def consume_clear_request_def ptt_tpm_startup_def ptt_tpm_clear_def ptt_services ptt_run_options
        default_store_eq unset_store_def cong: if_cong)
qed







end
