(* ===== verification/TpmDsm.thy ===== *)
theory TpmDsm
  imports Ptt
begin

text \<open>
  The ACPI device of the firmware TPM (mainboard/acpi/tpm.asl): the operating system stages a command in
  the window that ptt.c set up and starts it with function 1 of the method \_DSM.  The fields of the
  operation region are the same registers seen from ACPI; the arguments that are not used are left out.
\<close>

definition CRBD :: nat where "CRBD = 0xFED70000"
definition CSTR :: nat where "CSTR = CRBD + 0x0C"
definition HCMD :: nat where "HCMD = CRBD + 0x40"
definition HSTS :: nat where "HSTS = CRBD + 0x44"

definition start_method_uuid :: efi_guid where
  "start_method_uuid = \<lparr>Data1 = 0x6bbf6cab, Data2 = 0x5463, Data3 = 0x4714, Data4 = [0xb7, 0xcd, 0xf0, 0x20, 0x3c, 0x03, 0x68, 0xd4]\<rparr>"

definition STRT :: "ptt_env \<Rightarrow> nat \<Rightarrow> nat ptt" where
  "STRT E Arg1 =
     (if Arg1 = 1 then do {
        Status \<leftarrow> read32 E HSTS;
        _ \<leftarrow> (if Status AND 3 = 3 then do { tell (Write32 HCMD 0); tell (Write32 CSTR 1) } else State_Monad.return ());
        State_Monad.return 0
      }
      else State_Monad.return 0)"

datatype acpi_object = AcpiInteger nat | AcpiBuffer "u8 list"

definition DSM :: "ptt_env \<Rightarrow> u8 list \<Rightarrow> nat \<Rightarrow> acpi_object ptt" where
  "DSM E Arg0 Arg2 =
     (if Arg0 = guid_bytes start_method_uuid then
        if Arg2 = 0 then State_Monad.return (AcpiBuffer [3])
        else do { r \<leftarrow> STRT E Arg2; State_Monad.return (AcpiInteger r) }
      else State_Monad.return (AcpiBuffer [0]))"

text \<open>The registers of the two descriptions of the window coincide.\<close>

lemma same_registers: "CSTR = PTT_CRB_BASE + CRB_CTRL_START" "HCMD = PTT_CRB_BASE + CRB_HCMD" "HSTS = PTT_CRB_BASE + CRB_HSTS"
  by (simp_all add: CSTR_def HCMD_def HSTS_def CRBD_def PTT_CRB_BASE_def CRB_CTRL_START_def CRB_HCMD_def CRB_HSTS_def)

text \<open>
  The method writes nothing but the doorbell: the two writes that ptt.c makes after staging a command, in the
  same order, and only for function 1 of the start method when the status it just read has both ready bits.
\<close>

lemma DSM_rings:
  "yields (DSM E Arg0 Arg2) (\<lambda>_ es. es = [] \<or>
     (Arg0 = guid_bytes start_method_uuid \<and> Arg2 = 1 \<and>
      (\<exists>s. es = Read32 HSTS s # (if s AND 3 = 3 then [Write32 HCMD 0, Write32 CSTR 1] else []))))"
  unfolding DSM_def STRT_def read32_def
  by (auto simp: yields_flat intro!: yields_intros cong: if_cong)

lemma firmware_rings:
  "yields (ptt_run E cmd) (\<lambda>_ es. \<exists>rest. es = staged cmd @ [Write32 HCMD 0, Write32 CSTR 1] @ rest \<and>
     list_all (\<lambda>e. \<forall>a v. e \<noteq> Write32 a v) rest)"
  unfolding ptt_run_def read8_def same_registers
  apply (rule yields_bind [OF stage_cmd_yields])
  apply (intro yields_tell_bind)
  apply (rule yields_bind [OF poll_loop_yields])
  apply (auto simp: staged_def list_all_iff intro!: yields_intros)
  done

end
