(* ===== verification/EthConfig.thy ===== *)
theory EthConfig
  imports BootOptions
begin

text \<open>
  EthConfigDxe/EthConfigDxe.c: the driver that keeps the EthCfg variable well-formed, claims the onboard
  network controller when its IPv4 stack comes up, and applies the stored policy to it.

  The variable and boot services, the IPv4 configuration protocol of each controller, the HII database
  and the wide-character print are the environment.  The conversions and tests of the network library
  (NetLibStrToIp4, NetGetMaskLength, NetIp4IsUnicast) are the parameter \<open>net_lib\<close>.  The content of the
  variable is the list of its bytes, so its layout is the packed structure of Guid/NucEthConfig.h.
\<close>

section \<open>The stored structure\<close>

definition NUC_ETH_IP4_STR_SIZE :: nat where "NUC_ETH_IP4_STR_SIZE = 16"
definition NUC_ETH_MAC_STR_SIZE :: nat where "NUC_ETH_MAC_STR_SIZE = 18"

record NUC_ETH_CONFIG =
  DhcpEnabled :: u8
  MacAddress :: "u16 list"
  Ip4Address :: "u16 list"
  Ip4SubnetMask :: "u16 list"
  Ip4Gateway :: "u16 list"
  Ip4Dns1 :: "u16 list"
  Ip4Dns2 :: "u16 list"

definition sizeof_config :: nat where
  "sizeof_config = 1 + 2 * NUC_ETH_MAC_STR_SIZE + 5 * (2 * NUC_ETH_IP4_STR_SIZE)"

fun wide_chars :: "u8 list \<Rightarrow> u16 list" where
  "wide_chars (a # b # bs) = from_le16 a b # wide_chars bs"
| "wide_chars _ = []"

definition char_bytes :: "u16 list \<Rightarrow> u8 list" where
  "char_bytes cs = concat (map le16 cs)"

text \<open>The array of \<^term>\<open>n\<close> characters at an offset of the structure, and the structure itself.\<close>

definition array_at :: "u8 list \<Rightarrow> nat \<Rightarrow> nat \<Rightarrow> u16 list" where
  "array_at bs off n = wide_chars (take (2 * n) (drop off bs))"

definition config_of_bytes :: "u8 list \<Rightarrow> NUC_ETH_CONFIG" where
  "config_of_bytes bs = \<lparr>DhcpEnabled = bs ! 0, MacAddress = array_at bs 1 18, Ip4Address = array_at bs 37 16,
     Ip4SubnetMask = array_at bs 69 16, Ip4Gateway = array_at bs 101 16, Ip4Dns1 = array_at bs 133 16,
     Ip4Dns2 = array_at bs 165 16\<rparr>"

definition config_bytes :: "NUC_ETH_CONFIG \<Rightarrow> u8 list" where
  "config_bytes c = DhcpEnabled c # char_bytes (MacAddress c) @ char_bytes (Ip4Address c) @
     char_bytes (Ip4SubnetMask c) @ char_bytes (Ip4Gateway c) @ char_bytes (Ip4Dns1 c) @ char_bytes (Ip4Dns2 c)"

definition zero_config :: NUC_ETH_CONFIG where
  "zero_config = \<lparr>DhcpEnabled = 0, MacAddress = replicate NUC_ETH_MAC_STR_SIZE 0,
     Ip4Address = replicate NUC_ETH_IP4_STR_SIZE 0, Ip4SubnetMask = replicate NUC_ETH_IP4_STR_SIZE 0,
     Ip4Gateway = replicate NUC_ETH_IP4_STR_SIZE 0, Ip4Dns1 = replicate NUC_ETH_IP4_STR_SIZE 0,
     Ip4Dns2 = replicate NUC_ETH_IP4_STR_SIZE 0\<rparr>"

section \<open>The environment\<close>

text \<open>An address in network order, and the same four octets as a number (NTOHL).\<close>

type_synonym ip4 = "u8 \<times> u8 \<times> u8 \<times> u8"

fun NTOHL :: "ip4 \<Rightarrow> u32" where
  "NTOHL (a, b, c, d) = from_le32 d c b a"

record net_lib =
  NetLibStrToIp4 :: "u16 list \<Rightarrow> ip4 option"
  NetGetMaskLength :: "u32 \<Rightarrow> int"
  NetIp4IsUnicast :: "u32 \<Rightarrow> u32 \<Rightarrow> bool"

definition IP4_MASK_NUM :: int where "IP4_MASK_NUM = 33"

datatype ip4_policy = Ip4Config2PolicyStatic | Ip4Config2PolicyDhcp

datatype ip4_data =
    DataPolicy ip4_policy
  | DataManualAddress ip4 ip4
  | DataGateway ip4
  | DataDnsServer "ip4 list"

datatype eth_timer = TimeoutEvent | SetAddressEvent | Ip4Config2Notify

text \<open>A node of a device path: type, sub-type and the bytes after its header.\<close>

type_synonym eth_node = "u8 \<times> u8 \<times> u8 list"

datatype eth_event =
    EthGetVariable efi_status "u8 list"
  | EthSetVariable "u8 list" efi_status
  | EthLocated nat
  | EthDevicePath nat "eth_node list option"
  | EthHandleProtocol nat efi_status
  | EthSetData nat ip4_data efi_status
  | EthCreateEvent eth_timer efi_status
  | EthCloseEvent eth_timer
  | EthRegisterData nat efi_status
  | EthUnregisterData nat
  | EthSetTimer nat
  | EthPolled "bool list"
  | EthAppendNode bool
  | EthInstallPath "eth_node list" efi_status
  | EthAddPackages bool
  | EthUninstallPath
  | EthFreePath
  | EthRegisterProtocol efi_status
  | EthFault

type_synonym eth_trace = "eth_event list"

text \<open>
  The print answers with the whole character array after the call.  The polls are the values of the
  completion flag seen after each check of the timer that finds it still running: the timer was set to
  expire, so they are finitely many.
\<close>

record eth_env =
  e_Net :: net_lib
  e_UnicodeSPrint :: "nat \<Rightarrow> print_item list \<Rightarrow> u16 list"
  e_GetVariable :: "eth_trace \<Rightarrow> efi_status \<times> u8 list"
  e_SetVariable :: "eth_trace \<Rightarrow> u8 list \<Rightarrow> efi_status"
  e_DevicePath :: "eth_trace \<Rightarrow> nat \<Rightarrow> eth_node list option"
  e_HandleProtocol :: "eth_trace \<Rightarrow> nat \<Rightarrow> efi_status"
  e_SetData :: "eth_trace \<Rightarrow> nat \<Rightarrow> ip4_data \<Rightarrow> efi_status"
  e_CreateEvent :: "eth_trace \<Rightarrow> efi_status"
  e_RegisterData :: "eth_trace \<Rightarrow> efi_status"
  e_Polls :: "eth_trace \<Rightarrow> bool list"
  e_AppendNode :: "eth_trace \<Rightarrow> bool"
  e_InstallPath :: "eth_trace \<Rightarrow> efi_status"
  e_AddPackages :: "eth_trace \<Rightarrow> bool"
  e_RegisterProtocol :: "eth_trace \<Rightarrow> efi_status"

type_synonym 'a eth = "(eth_event, 'a) prog"

definition get_variable :: "eth_env \<Rightarrow> (efi_status \<times> u8 list) eth" where
  "get_variable E = ask (e_GetVariable E) (\<lambda>(s, d). EthGetVariable s d)"

definition set_variable :: "eth_env \<Rightarrow> u8 list \<Rightarrow> efi_status eth" where
  "set_variable E d = ask (\<lambda>t. e_SetVariable E t d) (EthSetVariable d)"

definition set_data :: "eth_env \<Rightarrow> nat \<Rightarrow> ip4_data \<Rightarrow> efi_status eth" where
  "set_data E Nic d = ask (\<lambda>t. e_SetData E t Nic d) (EthSetData Nic d)"

lemmas eth_services = get_variable_def set_variable_def set_data_def

section \<open>The variable\<close>

definition EnsureConfigVariable :: "eth_env \<Rightarrow> unit eth" where
  "EnsureConfigVariable E = do {
     (Status, Data) \<leftarrow> get_variable E;
     if \<not> EFI_ERROR Status \<and> length Data = sizeof_config then State_Monad.return ()
     else do {
       _ \<leftarrow> set_variable E (config_bytes (zero_config\<lparr>DhcpEnabled := 1\<rparr>));
       State_Monad.return ()
     }
   }"

definition force_termination :: "NUC_ETH_CONFIG \<Rightarrow> NUC_ETH_CONFIG" where
  "force_termination c = c\<lparr>
     MacAddress := (MacAddress c)[NUC_ETH_MAC_STR_SIZE - 1 := 0],
     Ip4Address := (Ip4Address c)[NUC_ETH_IP4_STR_SIZE - 1 := 0],
     Ip4SubnetMask := (Ip4SubnetMask c)[NUC_ETH_IP4_STR_SIZE - 1 := 0],
     Ip4Gateway := (Ip4Gateway c)[NUC_ETH_IP4_STR_SIZE - 1 := 0],
     Ip4Dns1 := (Ip4Dns1 c)[NUC_ETH_IP4_STR_SIZE - 1 := 0],
     Ip4Dns2 := (Ip4Dns2 c)[NUC_ETH_IP4_STR_SIZE - 1 := 0]\<rparr>"

text \<open>None is EFI\_NOT\_FOUND.\<close>

definition ReadConfigVariable :: "eth_env \<Rightarrow> NUC_ETH_CONFIG option eth" where
  "ReadConfigVariable E = do {
     (Status, Data) \<leftarrow> get_variable E;
     State_Monad.return
       (if EFI_ERROR Status \<or> length Data \<noteq> sizeof_config then None
        else Some (force_termination (config_of_bytes Data)))
   }"

fun StrCmp :: "u16 list \<Rightarrow> u16 list \<Rightarrow> int option" where
  "StrCmp (a # as) (b # bs) = (if a \<noteq> 0 \<and> a = b then StrCmp as bs else Some (uint a - uint b))"
| "StrCmp _ _ = None"

fun mac_node_walk :: "eth_node list \<Rightarrow> u8 list option" where
  "mac_node_walk [] = None"
| "mac_node_walk ((t, s, d) # Nodes) =
     (if t = MESSAGING_DEVICE_PATH \<and> s = MSG_MAC_ADDR_DP then Some d else mac_node_walk Nodes)"

text \<open>What the format string asks for, from the first six bytes of the node's address.\<close>

definition mac_items :: "u8 list \<Rightarrow> print_item list option" where
  "mac_items Addr = do {
     a0 \<leftarrow> byte_at Addr 0; a1 \<leftarrow> byte_at Addr 1; a2 \<leftarrow> byte_at Addr 2;
     a3 \<leftarrow> byte_at Addr 3; a4 \<leftarrow> byte_at Addr 4; a5 \<leftarrow> byte_at Addr 5;
     Some [Hex 2 (unat a0), Lit '':'', Hex 2 (unat a1), Lit '':'', Hex 2 (unat a2), Lit '':'',
           Hex 2 (unat a3), Lit '':'', Hex 2 (unat a4), Lit '':'', Hex 2 (unat a5)]
   }"

text \<open>False after a read outside the node or the text, which is recorded as a fault.\<close>

definition SeedMacAddress :: "eth_env \<Rightarrow> eth_node list \<Rightarrow> bool eth" where
  "SeedMacAddress E DevicePath =
     (case mac_node_walk DevicePath of
        None \<Rightarrow> State_Monad.return True
      | Some Addr \<Rightarrow> do {
          r \<leftarrow> ReadConfigVariable E;
          case r of
            None \<Rightarrow> State_Monad.return True
          | Some Config \<Rightarrow>
              (case mac_items Addr of
                 None \<Rightarrow> do { tell EthFault; State_Monad.return False }
               | Some items \<Rightarrow>
                   let MacText = e_UnicodeSPrint E NUC_ETH_MAC_STR_SIZE items in
                   (case StrCmp MacText (MacAddress Config) of
                      None \<Rightarrow> do { tell EthFault; State_Monad.return False }
                    | Some c \<Rightarrow>
                        if c = 0 then State_Monad.return True
                        else do {
                          _ \<leftarrow> set_variable E (config_bytes (Config\<lparr>MacAddress := take NUC_ETH_MAC_STR_SIZE MacText\<rparr>));
                          State_Monad.return True
                        }))
        })"

section \<open>The policy\<close>

fun classify_walk :: "eth_node list \<Rightarrow> bool \<times> bool \<Rightarrow> bool \<times> bool" where
  "classify_walk [] r = r"
| "classify_walk ((t, s, _) # Nodes) (HasMac, OverUsb) =
     (if t \<noteq> MESSAGING_DEVICE_PATH then classify_walk Nodes (HasMac, OverUsb)
      else if s = MSG_USB_DP then classify_walk Nodes (HasMac, True)
      else if s = MSG_MAC_ADDR_DP then classify_walk Nodes (True, OverUsb)
      else classify_walk Nodes (HasMac, OverUsb))"

definition ClassifyNicDevicePath :: "eth_node list \<Rightarrow> bool \<times> bool" where
  "ClassifyNicDevicePath DevicePath = classify_walk DevicePath (False, False)"

text \<open>An array of the structure is never empty; the parsed address stands for the out parameter.\<close>

definition ParseIp4Field :: "net_lib \<Rightarrow> u16 list \<Rightarrow> efi_status \<times> ip4 option" where
  "ParseIp4Field N String =
     (if String ! 0 = 0 then (EFI_NOT_FOUND, None)
      else (case NetLibStrToIp4 N String of
          None \<Rightarrow> (EFI_INVALID_PARAMETER, None)
        | Some ip \<Rightarrow> (EFI_SUCCESS, Some ip)))"

fun wait_polls :: "bool list \<Rightarrow> efi_status" where
  "wait_polls [] = EFI_NOT_READY"
| "wait_polls (IsAddressOk # polls) = (if IsAddressOk then EFI_SUCCESS else wait_polls polls)"

text \<open>The address and mask of a static configuration that passes the checks before any request.\<close>

definition static_address :: "net_lib \<Rightarrow> NUC_ETH_CONFIG \<Rightarrow> (ip4 \<times> ip4) option" where
  "static_address N Config =
     (case (ParseIp4Field N (Ip4Address Config), ParseIp4Field N (Ip4SubnetMask Config)) of
        ((_, Some Address), (_, Some SubnetMask)) \<Rightarrow>
          let MaskLength = NetGetMaskLength N (NTOHL SubnetMask) in
          if MaskLength = 0 \<or> MaskLength \<ge> IP4_MASK_NUM \<or>
             \<not> NetIp4IsUnicast N (NTOHL Address) (NTOHL SubnetMask)
          then None else Some (Address, SubnetMask)
      | _ \<Rightarrow> None)"

definition set_manual_address :: "eth_env \<Rightarrow> nat \<Rightarrow> ip4 \<Rightarrow> ip4 \<Rightarrow> efi_status eth" where
  "set_manual_address E Nic Address SubnetMask = do {
     Status \<leftarrow> set_data E Nic (DataManualAddress Address SubnetMask);
     if Status = EFI_NOT_READY then do {
       tell (EthSetTimer 50000000);
       polls \<leftarrow> ask (e_Polls E) EthPolled;
       State_Monad.return (wait_polls polls)
     }
     else State_Monad.return Status
   }"

definition set_gateway :: "eth_env \<Rightarrow> nat \<Rightarrow> NUC_ETH_CONFIG \<Rightarrow> ip4 \<Rightarrow> unit eth" where
  "set_gateway E Nic Config SubnetMask =
     (case ParseIp4Field (e_Net E) (Ip4Gateway Config) of
        (_, Some Gateway) \<Rightarrow>
          if NetIp4IsUnicast (e_Net E) (NTOHL Gateway) (NTOHL SubnetMask)
          then do { _ \<leftarrow> set_data E Nic (DataGateway Gateway); State_Monad.return () }
          else State_Monad.return ()
      | _ \<Rightarrow> State_Monad.return ())"

definition dns_servers :: "net_lib \<Rightarrow> NUC_ETH_CONFIG \<Rightarrow> ip4 list" where
  "dns_servers N Config =
     (case ParseIp4Field N (Ip4Dns1 Config) of (_, Some d) \<Rightarrow> [d] | _ \<Rightarrow> []) @
     (case ParseIp4Field N (Ip4Dns2 Config) of (_, Some d) \<Rightarrow> [d] | _ \<Rightarrow> [])"

definition set_dns :: "eth_env \<Rightarrow> nat \<Rightarrow> NUC_ETH_CONFIG \<Rightarrow> unit eth" where
  "set_dns E Nic Config =
     (if dns_servers (e_Net E) Config \<noteq> []
      then do { _ \<leftarrow> set_data E Nic (DataDnsServer (dns_servers (e_Net E) Config)); State_Monad.return () }
      else State_Monad.return ())"

text \<open>The label Exit, with the events that exist there.\<close>

definition close_events :: "bool \<Rightarrow> efi_status \<Rightarrow> efi_status eth" where
  "close_events HasSetAddressEvent Status = do {
     _ \<leftarrow> (if HasSetAddressEvent then tell (EthCloseEvent SetAddressEvent) else State_Monad.return ());
     tell (EthCloseEvent TimeoutEvent);
     State_Monad.return Status
   }"

definition ApplyStaticConfig :: "eth_env \<Rightarrow> nat \<Rightarrow> NUC_ETH_CONFIG \<Rightarrow> efi_status eth" where
  "ApplyStaticConfig E Nic Config =
     (case static_address (e_Net E) Config of
        None \<Rightarrow> State_Monad.return EFI_INVALID_PARAMETER
      | Some (Address, SubnetMask) \<Rightarrow> do {
          Status \<leftarrow> set_data E Nic (DataPolicy Ip4Config2PolicyStatic);
          if EFI_ERROR Status then State_Monad.return Status
          else do {
            Status \<leftarrow> ask (e_CreateEvent E) (EthCreateEvent TimeoutEvent);
            if EFI_ERROR Status then State_Monad.return Status
            else do {
              Status \<leftarrow> ask (e_CreateEvent E) (EthCreateEvent SetAddressEvent);
              if EFI_ERROR Status then close_events False Status
              else do {
                Status \<leftarrow> ask (e_RegisterData E) (EthRegisterData Nic);
                if EFI_ERROR Status then close_events True Status
                else do {
                  Status \<leftarrow> set_manual_address E Nic Address SubnetMask;
                  tell (EthUnregisterData Nic);
                  if EFI_ERROR Status then close_events True Status
                  else do {
                    _ \<leftarrow> set_gateway E Nic Config SubnetMask;
                    _ \<leftarrow> set_dns E Nic Config;
                    close_events True Status
                  }
                }
              }
            }
          }
        })"

definition apply_policy :: "eth_env \<Rightarrow> nat \<Rightarrow> NUC_ETH_CONFIG \<Rightarrow> unit eth" where
  "apply_policy E NicHandle Config =
     (if DhcpEnabled Config = 0 \<and> Ip4Address Config ! 0 = 0 then State_Monad.return ()
      else do {
        Status \<leftarrow> ask (\<lambda>t. e_HandleProtocol E t NicHandle) (EthHandleProtocol NicHandle);
        if EFI_ERROR Status then State_Monad.return ()
        else do {
          _ \<leftarrow> (if DhcpEnabled Config \<noteq> 0 then set_data E NicHandle (DataPolicy Ip4Config2PolicyDhcp)
               else ApplyStaticConfig E NicHandle Config);
          State_Monad.return ()
        }
      })"

definition ApplyConfig :: "eth_env \<Rightarrow> nat \<Rightarrow> unit eth" where
  "ApplyConfig E NicHandle = do {
     r \<leftarrow> ReadConfigVariable E;
     case r of None \<Rightarrow> State_Monad.return () | Some Config \<Rightarrow> apply_policy E NicHandle Config
   }"

section \<open>Claiming the controller\<close>

definition HARDWARE_DEVICE_PATH :: u8 where "HARDWARE_DEVICE_PATH = 0x01"
definition HW_VENDOR_DP :: u8 where "HW_VENDOR_DP = 0x04"

definition NUC_ETH_CONFIG_FORMSET_GUID :: efi_guid where
  "NUC_ETH_CONFIG_FORMSET_GUID = \<lparr>Data1 = 0x967e2001, Data2 = 0x25c5, Data3 = 0x4d1e,
     Data4 = [0xbf, 0x24, 0xb4, 0x22, 0xd8, 0x81, 0xa1, 0xa9]\<rparr>"

definition VendorNode :: eth_node where
  "VendorNode = (HARDWARE_DEVICE_PATH, HW_VENDOR_DP, guid_bytes NUC_ETH_CONFIG_FORMSET_GUID)"

definition PublishFormset :: "eth_env \<Rightarrow> eth_node list \<Rightarrow> unit eth" where
  "PublishFormset E NicDevicePath = do {
     Allocated \<leftarrow> ask (e_AppendNode E) EthAppendNode;
     if \<not> Allocated then State_Monad.return ()
     else do {
       Status \<leftarrow> ask (e_InstallPath E) (EthInstallPath (NicDevicePath @ [VendorNode]));
       if EFI_ERROR Status then tell EthFreePath
       else do {
         HiiHandle \<leftarrow> ask (e_AddPackages E) EthAddPackages;
         if \<not> HiiHandle then do { tell EthUninstallPath; tell EthFreePath }
         else State_Monad.return ()
       }
     }
   }"

definition claim_nic :: "eth_env \<Rightarrow> nat \<Rightarrow> eth_node list \<Rightarrow> bool eth" where
  "claim_nic E NicHandle DevicePath = do {
     ok \<leftarrow> SeedMacAddress E DevicePath;
     if \<not> ok then State_Monad.return False
     else do {
       _ \<leftarrow> PublishFormset E DevicePath;
       _ \<leftarrow> ApplyConfig E NicHandle;
       State_Monad.return True
     }
   }"

text \<open>
  The notification drains the registration queue: each LocateHandle call takes one handle off it, and
  the call on the empty queue fails.  The result is whether control comes back, and the latch.
\<close>

fun OnIp4Config2Installed :: "eth_env \<Rightarrow> nat list \<Rightarrow> bool \<Rightarrow> (bool \<times> bool) eth" where
  "OnIp4Config2Installed E [] mNicClaimed = State_Monad.return (True, mNicClaimed)"
| "OnIp4Config2Installed E (NicHandle # Queue) mNicClaimed = do {
     tell (EthLocated NicHandle);
     if mNicClaimed then OnIp4Config2Installed E Queue mNicClaimed
     else do {
       DevicePath \<leftarrow> ask (\<lambda>t. e_DevicePath E t NicHandle) (EthDevicePath NicHandle);
       case DevicePath of
         None \<Rightarrow> OnIp4Config2Installed E Queue mNicClaimed
       | Some Path \<Rightarrow>
           let (HasMac, OverUsb) = ClassifyNicDevicePath Path in
           if OverUsb \<or> \<not> HasMac then OnIp4Config2Installed E Queue mNicClaimed
           else do {
             ok \<leftarrow> claim_nic E NicHandle Path;
             if ok then OnIp4Config2Installed E Queue True else State_Monad.return (False, True)
           }
     }
   }"

definition EthConfigEntryPoint :: "eth_env \<Rightarrow> efi_status eth" where
  "EthConfigEntryPoint E = do {
     _ \<leftarrow> EnsureConfigVariable E;
     Status \<leftarrow> ask (e_CreateEvent E) (EthCreateEvent Ip4Config2Notify);
     if EFI_ERROR Status then State_Monad.return Status
     else do {
       Status \<leftarrow> ask (e_RegisterProtocol E) EthRegisterProtocol;
       if EFI_ERROR Status then do { tell (EthCloseEvent Ip4Config2Notify); State_Monad.return Status }
       else State_Monad.return EFI_SUCCESS
     }
   }"

text \<open>The notifications of one boot, in order: the latch is kept from one to the next.\<close>

fun notifications :: "eth_env \<Rightarrow> nat list list \<Rightarrow> bool \<Rightarrow> (bool \<times> bool) eth" where
  "notifications E [] mNicClaimed = State_Monad.return (True, mNicClaimed)"
| "notifications E (Queue # Queues) mNicClaimed = do {
     (ok, mNicClaimed) \<leftarrow> OnIp4Config2Installed E Queue mNicClaimed;
     if ok then notifications E Queues mNicClaimed else State_Monad.return (False, mNicClaimed)
   }"

section \<open>Layout\<close>

lemma length_char_bytes [simp]: "length (char_bytes cs) = 2 * length cs"
  by (induction cs) (auto simp: char_bytes_def)

lemma length_wide_chars [simp]: "length (wide_chars bs) = length bs div 2"
  by (induction bs rule: wide_chars.induct) auto

lemma wide_char_bytes [simp]: "wide_chars (char_bytes cs) = cs"
  by (induction cs) (auto simp: char_bytes_def le16_def)

text \<open>The arrays have the sizes the structure declares.\<close>

definition config_wf :: "NUC_ETH_CONFIG \<Rightarrow> bool" where
  "config_wf c \<longleftrightarrow> length (MacAddress c) = 18 \<and> length (Ip4Address c) = 16 \<and> length (Ip4SubnetMask c) = 16 \<and>
     length (Ip4Gateway c) = 16 \<and> length (Ip4Dns1 c) = 16 \<and> length (Ip4Dns2 c) = 16"

lemma sizeof_config_eq [simp]: "sizeof_config = 197"
  by (simp add: sizeof_config_def NUC_ETH_MAC_STR_SIZE_def NUC_ETH_IP4_STR_SIZE_def)

lemma length_config_bytes [simp]: "config_wf c \<Longrightarrow> length (config_bytes c) = 197"
  by (simp add: config_wf_def config_bytes_def)

lemma array_at_middle: "length pre = off \<Longrightarrow> length cs = n \<Longrightarrow> array_at (pre @ char_bytes cs @ post) off n = cs"
  by (simp add: array_at_def)

lemma config_layout:
  assumes "config_wf c"
  shows "config_of_bytes (config_bytes c) = c"
proof -
  let ?b = "config_bytes c"
  have "array_at ?b 1 18 = MacAddress c"
    using assms array_at_middle [of "[DhcpEnabled c]"] by (simp add: config_bytes_def config_wf_def)
  moreover have "array_at ?b 37 16 = Ip4Address c"
    using assms array_at_middle [of "DhcpEnabled c # char_bytes (MacAddress c)"] by (simp add: config_bytes_def config_wf_def)
  moreover have "array_at ?b 69 16 = Ip4SubnetMask c"
    using assms array_at_middle [of "DhcpEnabled c # char_bytes (MacAddress c) @ char_bytes (Ip4Address c)"]
    by (simp add: config_bytes_def config_wf_def)
  moreover have "array_at ?b 101 16 = Ip4Gateway c"
    using assms array_at_middle [of "DhcpEnabled c # char_bytes (MacAddress c) @ char_bytes (Ip4Address c) @
      char_bytes (Ip4SubnetMask c)"] by (simp add: config_bytes_def config_wf_def)
  moreover have "array_at ?b 133 16 = Ip4Dns1 c"
    using assms array_at_middle [of "DhcpEnabled c # char_bytes (MacAddress c) @ char_bytes (Ip4Address c) @
      char_bytes (Ip4SubnetMask c) @ char_bytes (Ip4Gateway c)"] by (simp add: config_bytes_def config_wf_def)
  moreover have "array_at ?b 165 16 = Ip4Dns2 c"
    using assms array_at_middle [of "DhcpEnabled c # char_bytes (MacAddress c) @ char_bytes (Ip4Address c) @
      char_bytes (Ip4SubnetMask c) @ char_bytes (Ip4Gateway c) @ char_bytes (Ip4Dns1 c)" 165 "Ip4Dns2 c" 16 "[]"]
    by (simp add: config_bytes_def config_wf_def)
  ultimately show ?thesis
    by (simp add: config_of_bytes_def config_bytes_def)
qed

lemma config_of_bytes_wf: "length bs = 197 \<Longrightarrow> config_wf (config_of_bytes bs)"
  by (simp add: config_wf_def config_of_bytes_def array_at_def)

lemma force_termination_wf [simp]: "config_wf (force_termination c) = config_wf c"
  by (simp add: force_termination_def config_wf_def)

section \<open>The stored policy\<close>

text \<open>
  What the stored structure asks for: the requests to the IPv4 configuration protocol, in order, when
  every one of them is accepted.
\<close>

definition static_plan :: "net_lib \<Rightarrow> NUC_ETH_CONFIG \<Rightarrow> ip4_data list" where
  "static_plan N c =
     (case static_address N c of
        None \<Rightarrow> []
      | Some (a, m) \<Rightarrow> [DataPolicy Ip4Config2PolicyStatic, DataManualAddress a m] @
          (case snd (ParseIp4Field N (Ip4Gateway c)) of
             Some g \<Rightarrow> if NetIp4IsUnicast N (NTOHL g) (NTOHL m) then [DataGateway g] else []
           | None \<Rightarrow> []) @
          (if dns_servers N c = [] then [] else [DataDnsServer (dns_servers N c)]))"

definition ip4_plan :: "net_lib \<Rightarrow> NUC_ETH_CONFIG \<Rightarrow> ip4_data list" where
  "ip4_plan N c =
     (if DhcpEnabled c \<noteq> 0 then [DataPolicy Ip4Config2PolicyDhcp]
      else if Ip4Address c ! 0 = 0 then [] else static_plan N c)"

fun request_of :: "eth_event \<Rightarrow> ip4_data list" where
  "request_of (EthSetData _ d _) = [d]"
| "request_of _ = []"

definition requests :: "eth_trace \<Rightarrow> ip4_data list" where
  "requests es = concat (map request_of es)"

text \<open>What keeps the driver from following its plan to the end.\<close>

fun obstacle :: "eth_event \<Rightarrow> bool" where
  "obstacle (EthHandleProtocol _ s) = EFI_ERROR s"
| "obstacle (EthCreateEvent _ s) = EFI_ERROR s"
| "obstacle (EthRegisterData _ s) = EFI_ERROR s"
| "obstacle (EthSetData _ (DataPolicy _) s) = EFI_ERROR s"
| "obstacle (EthSetData _ (DataManualAddress _ _) s) = (EFI_ERROR s \<and> s \<noteq> EFI_NOT_READY)"
| "obstacle (EthPolled polls) = (True \<notin> set polls)"
| "obstacle _ = False"

text \<open>Resources acquired and not given back, per kind.\<close>

fun holds_delta :: "eth_event \<Rightarrow> int \<times> int" where
  "holds_delta (EthCreateEvent _ s) = (if EFI_ERROR s then 0 else 1, 0)"
| "holds_delta (EthCloseEvent _) = (-1, 0)"
| "holds_delta (EthRegisterData _ s) = (0, if EFI_ERROR s then 0 else 1)"
| "holds_delta (EthUnregisterData _) = (0, -1)"
| "holds_delta _ = (0, 0)"

definition held :: "eth_trace \<Rightarrow> int \<times> int" where
  "held es = (sum_list (map (fst \<circ> holds_delta) es), sum_list (map (snd \<circ> holds_delta) es))"

lemma requests_simps [simp]: "requests [] = []" "requests (e # es) = request_of e @ requests es"
  "requests (xs @ ys) = requests xs @ requests ys"
  by (simp_all add: requests_def)

lemma wait_polls_iff: "wait_polls polls = (if True \<in> set polls then EFI_SUCCESS else EFI_NOT_READY)"
  by (induction polls) auto

text \<open>
  A part of the run with its status: it makes the requests of a prefix of the plan, all of them unless
  it met an obstacle, and gives back what it acquired.
\<close>

definition follows :: "ip4_data list \<Rightarrow> eth_trace \<Rightarrow> bool" where
  "follows plan es \<longleftrightarrow> (\<exists>rest. plan = requests es @ rest \<and> (rest \<noteq> [] \<longrightarrow> list_ex obstacle es)) \<and> held es = (0, 0)"

lemma static_follows: "yields (ApplyStaticConfig E h c) (\<lambda>s es. follows (static_plan (e_Net E) c) es)"
  unfolding ApplyStaticConfig_def static_plan_def set_manual_address_def set_gateway_def set_dns_def close_events_def
    eth_services follows_def
  by (auto simp: held_def wait_polls_iff split: option.splits prod.splits intro!: yields_intros)

text \<open>The structure a read of the variable gives, if its size is right.\<close>

fun stored_config :: "efi_status \<times> u8 list \<Rightarrow> NUC_ETH_CONFIG option" where
  "stored_config (s, d) =
     (if EFI_ERROR s \<or> length d \<noteq> 197 then None else Some (force_termination (config_of_bytes d)))"

lemma run_ReadConfigVariable:
  "run_state (ReadConfigVariable E) t =
     (stored_config (e_GetVariable E t), t @ [case e_GetVariable E t of (s, d) \<Rightarrow> EthGetVariable s d])"
  by (cases "e_GetVariable E t") (simp add: ReadConfigVariable_def get_variable_def)

lemma read_yields:
  "(\<And>s d. Q (stored_config (s, d)) [EthGetVariable s d]) \<Longrightarrow> yields (ReadConfigVariable E) Q"
  unfolding yields_def run_ReadConfigVariable by (auto split: prod.splits)

lemma read_bind [yields_intros]:
  assumes "\<And>s d. yields (f (stored_config (s, d))) (\<lambda>r es. Q r (EthGetVariable s d # es))"
  shows "yields (State_Monad.bind (ReadConfigVariable E) f) Q"
  using assms
  by (intro yields_bind [OF read_yields, where P = "\<lambda>r es. \<exists>s d. r = stored_config (s, d) \<and> es = [EthGetVariable s d]"]) auto

definition plan_of :: "net_lib \<Rightarrow> NUC_ETH_CONFIG option \<Rightarrow> ip4_data list" where
  "plan_of N r = (case r of None \<Rightarrow> [] | Some c \<Rightarrow> ip4_plan N c)"

lemma follows_Cons:
  "request_of e = [] \<Longrightarrow> \<not> obstacle e \<Longrightarrow> holds_delta e = (0, 0) \<Longrightarrow> follows plan (e # es) = follows plan es"
  by (simp add: follows_def held_def)

lemma follows_none: "follows [] []"
  by (simp add: follows_def held_def)

lemma apply_tail_follows:
  assumes "DhcpEnabled c \<noteq> 0 \<or> Ip4Address c ! 0 \<noteq> 0"
  shows "yields (if DhcpEnabled c \<noteq> 0 then set_data E h (DataPolicy Ip4Config2PolicyDhcp) else ApplyStaticConfig E h c)
    (\<lambda>_ es. follows (ip4_plan (e_Net E) c) es)"
proof (cases "DhcpEnabled c = 0")
  case True
  with assms show ?thesis
    using static_follows [of E h c] by (simp add: ip4_plan_def)
next
  case False
  then show ?thesis
    by (auto simp: ip4_plan_def set_data_def follows_def held_def intro!: yields_intros)
qed

lemma apply_policy_follows: "yields (apply_policy E h c) (\<lambda>_ es. follows (ip4_plan (e_Net E) c) es)"
  unfolding apply_policy_def
  apply (intro yields_if yields_ask_bind)
    apply (auto simp: ip4_plan_def follows_none follows_def held_def intro!: yields_intros) [2]
  apply (rule yields_bind [OF apply_tail_follows])
   apply (auto simp: follows_def held_def intro!: yields_intros)
  done

lemma ApplyConfig_follows:
  "yields (ApplyConfig E h) (\<lambda>_ es. \<exists>s d es'. es = EthGetVariable s d # es' \<and> follows (plan_of (e_Net E) (stored_config (s, d))) es)"
  unfolding ApplyConfig_def
proof (rule read_bind)
  fix s d
  show "yields (case stored_config (s, d) of None \<Rightarrow> State_Monad.return () | Some c \<Rightarrow> apply_policy E h c)
      (\<lambda>r es. \<exists>s' d' es'. EthGetVariable s d # es = EthGetVariable s' d' # es' \<and>
         follows (plan_of (e_Net E) (stored_config (s', d'))) (EthGetVariable s d # es))"
    by (cases "stored_config (s, d)")
      (auto simp: plan_of_def follows_none follows_Cons intro: yields_return yields_weaken [OF apply_policy_follows])
qed

text \<open>
  C7: Applying the stored policy to a controller reads the variable and then makes exactly the requests
  that the stored structure asks for, in order: the DHCP policy when it is enabled; nothing when it is
  off with an empty address or with an address or mask that fails the checks; otherwise the static
  policy, the address with its mask, the gateway if there is a usable one, and the DNS servers that
  parse.  It stops earlier only after a service it depends on failed or the address was not accepted in
  time, and in every case each event it created is closed and each notification it registered is
  unregistered.
\<close>

theorem policy_applied_as_stored:
  "\<exists>es s d es'. run_state (ApplyConfig E h) t = ((), t @ es) \<and> es = EthGetVariable s d # es' \<and>
     (\<exists>rest. plan_of (e_Net E) (stored_config (s, d)) = requests es @ rest \<and> (rest = [] \<or> list_ex obstacle es)) \<and>
     held es = (0, 0)"
proof -
  obtain u es where "run_state (ApplyConfig E h) t = (u, t @ es)"
      "\<exists>s d es'. es = EthGetVariable s d # es' \<and> follows (plan_of (e_Net E) (stored_config (s, d))) es"
    using ApplyConfig_follows [of E h] by (rule yieldsD)
  then show ?thesis
    unfolding follows_def by (cases u) blast
qed

section \<open>Which controller is claimed\<close>

definition onboard :: "eth_node list \<Rightarrow> bool" where
  "onboard p \<longleftrightarrow> (\<exists>d. (MESSAGING_DEVICE_PATH, MSG_MAC_ADDR_DP, d) \<in> set p) \<and>
     (\<forall>d. (MESSAGING_DEVICE_PATH, MSG_USB_DP, d) \<notin> set p)"

lemma classify_walk_eq:
  "classify_walk p (m, u) = (m \<or> (\<exists>d. (MESSAGING_DEVICE_PATH, MSG_MAC_ADDR_DP, d) \<in> set p),
     u \<or> (\<exists>d. (MESSAGING_DEVICE_PATH, MSG_USB_DP, d) \<in> set p))"
  by (induction p "(m, u)" arbitrary: m u rule: classify_walk.induct) (auto simp: node_numbers)

lemma classify_onboard: "ClassifyNicDevicePath p = (m, u) \<Longrightarrow> (\<not> (u \<or> \<not> m)) = onboard p"
  by (auto simp: ClassifyNicDevicePath_def classify_walk_eq onboard_def)

text \<open>The controller an event configures, and the path a page is published under.\<close>

fun configures :: "eth_event \<Rightarrow> nat option" where
  "configures (EthHandleProtocol h _) = Some h"
| "configures (EthSetData h _ _) = Some h"
| "configures (EthRegisterData h _) = Some h"
| "configures (EthUnregisterData h) = Some h"
| "configures _ = None"

fun publishes :: "eth_event \<Rightarrow> eth_node list option" where
  "publishes (EthInstallPath p _) = Some p"
| "publishes _ = None"

fun queue_event :: "eth_event \<Rightarrow> bool" where
  "queue_event (EthLocated _) = True"
| "queue_event (EthDevicePath _ _) = True"
| "queue_event _ = False"

definition claim_event :: "nat \<Rightarrow> eth_node list \<Rightarrow> eth_event \<Rightarrow> bool" where
  "claim_event h p e \<longleftrightarrow> configures e \<in> {None, Some h} \<and> publishes e \<in> {None, Some (p @ [VendorNode])} \<and> \<not> queue_event e"

definition claim_events :: "nat \<Rightarrow> eth_node list \<Rightarrow> eth_trace \<Rightarrow> bool" where
  "claim_events h p es = list_all (claim_event h p) es"

lemma static_claims: "yields (ApplyStaticConfig E h c) (\<lambda>_ es. claim_events h p es)"
  unfolding ApplyStaticConfig_def set_manual_address_def set_gateway_def set_dns_def close_events_def eth_services
  by (auto simp: claim_events_def claim_event_def split: option.splits prod.splits intro!: yields_intros)

lemma ApplyConfig_claims: "yields (ApplyConfig E h) (\<lambda>_ es. claim_events h p es)"
proof -
  have tail: "yields (if b then set_data E h d else ApplyStaticConfig E h c) (\<lambda>_ es. claim_events h p es)" for b d c
    by (intro yields_if static_claims) (auto simp: set_data_def claim_events_def claim_event_def intro!: yields_intros)
  have "yields (apply_policy E h c) (\<lambda>_ es. claim_events h p es)" for c
    unfolding apply_policy_def
    by (intro yields_if yields_ask_bind yields_bind [OF tail] yields_return) (auto simp: claim_events_def claim_event_def)
  then show ?thesis
    unfolding ApplyConfig_def
    by (intro read_bind yields_option yields_return) (auto simp: claim_events_def claim_event_def intro: yields_weaken)
qed

lemma Seed_claims: "yields (SeedMacAddress E p) (\<lambda>_ es. claim_events h p es)"
  unfolding SeedMacAddress_def set_variable_def
  by (auto simp: claim_events_def claim_event_def Let_def split: option.splits intro!: yields_intros)

lemma Publish_claims: "yields (PublishFormset E p) (\<lambda>_ es. claim_events h p es)"
  unfolding PublishFormset_def
  by (auto simp: claim_events_def claim_event_def intro!: yields_intros)

lemma claim_nic_claims: "yields (claim_nic E h p) (\<lambda>_ es. claim_events h p es)"
  unfolding claim_nic_def
  apply (rule yields_bind [OF Seed_claims])
  apply (intro yields_if yields_bind [OF Publish_claims] yields_bind [OF ApplyConfig_claims] yields_return)
     apply (auto simp: claim_events_def)
  done

text \<open>
  A controller that is passed over is only located, and its path looked at; after the claim the queue is
  only drained.
\<close>

fun passed_over :: "eth_event \<Rightarrow> bool" where
  "passed_over (EthLocated _) = True"
| "passed_over (EthDevicePath _ p) = (case p of None \<Rightarrow> True | Some p \<Rightarrow> \<not> onboard p)"
| "passed_over _ = False"

fun drained :: "eth_event \<Rightarrow> bool" where
  "drained (EthLocated _) = True"
| "drained _ = False"

inductive nic_run :: "bool \<Rightarrow> eth_trace \<Rightarrow> bool \<Rightarrow> bool" where
  drain: "list_all drained es \<Longrightarrow> nic_run True es True"
| pass: "list_all passed_over es \<Longrightarrow> nic_run False es False"
| claim: "list_all passed_over pre \<Longrightarrow> onboard p \<Longrightarrow> claim_events h p body \<Longrightarrow> list_all drained post \<Longrightarrow>
    nic_run False (pre @ EthDevicePath h (Some p) # body @ post) True"

lemma nic_run_append: "nic_run l xs l' \<Longrightarrow> nic_run l' ys l'' \<Longrightarrow> nic_run l (xs @ ys) l''"
proof (induction rule: nic_run.induct)
  case (drain es)
  then show ?case by (auto elim!: nic_run.cases intro!: nic_run.intros)
next
  case (pass es)
  from pass(2) show ?case
  proof cases
    case (claim pre p h body post)
    with pass(1) show ?thesis
      using nic_run.claim [of "es @ pre" p h body post] by simp
  qed (use pass(1) in \<open>auto intro!: nic_run.pass\<close>)
next
  case (claim pre p h body post)
  then have "list_all drained ys" "l''"
    by (auto elim: nic_run.cases)
  with claim show ?case
    using nic_run.claim [of pre p h body "post @ ys"] by simp
qed

lemma nic_run_Nil [simp]: "nic_run l [] l"
  by (cases l) (auto intro: nic_run.intros)

lemma installed_nic_run: "yields (OnIp4Config2Installed E Queue l) (\<lambda>r es. nic_run l es (snd r))"
proof (induction Queue arbitrary: l)
  case Nil
  show ?case by (simp add: yields_return)
next
  case (Cons h Queue)
  have rest: "yields (OnIp4Config2Installed E Queue l') (\<lambda>r es'. nic_run l (es @ es') (snd r))"
    if "nic_run l es l'" for es l'
    by (rule yields_weaken [OF Cons]) (rule nic_run_append [OF that])
  have step: "nic_run l [EthLocated h] True" if l
    using that by (auto intro: nic_run.drain)
  have skip: "nic_run l [EthLocated h, EthDevicePath h None] False" if "\<not> l"
    using that by (auto intro: nic_run.pass)
  have other: "nic_run l [EthLocated h, EthDevicePath h (Some p)] False" if "\<not> l" "\<not> onboard p" for p
    using that by (auto intro: nic_run.pass)
  have claims: "nic_run l (EthLocated h # EthDevicePath h (Some p) # body) True" if "\<not> l" "onboard p" "claim_events h p body" for p body
    using that nic_run.claim [of "[EthLocated h]" p h body "[]"] by simp
  have claiming: "yields (State_Monad.bind (claim_nic E h p) (\<lambda>ok. if ok then OnIp4Config2Installed E Queue True else State_Monad.return (False, True)))
      (\<lambda>r es. nic_run l (EthLocated h # EthDevicePath h (Some p) # es) (snd r))" if "\<not> l" "onboard p" for p
    apply (rule yields_bind [OF claim_nic_claims])
    using rest [OF claims [OF that]] claims [OF that]
    by (auto intro!: yields_if yields_return)
  show ?case
    apply (simp only: OnIp4Config2Installed.simps)
    apply (intro yields_tell_bind yields_if yields_ask_bind yields_option)
      apply (use rest [OF step] in \<open>simp\<close>)
     apply (use rest [OF skip] in \<open>simp\<close>)
    subgoal for r p
      using claiming [of p] rest [OF other, of p] classify_onboard [of p]
      by (cases "ClassifyNicDevicePath p") (auto simp: Let_def intro!: yields_if)
    done
qed

lemma notifications_nic_run: "yields (notifications E Queues l) (\<lambda>r es. nic_run l es (snd r))"
proof (induction Queues arbitrary: l)
  case Nil
  show ?case by (simp add: yields_return)
next
  case (Cons Queue Queues)
  have rest: "yields (notifications E Queues l') (\<lambda>r es'. nic_run l (es @ es') (snd r))" if "nic_run l es l'" for es l'
    by (rule yields_weaken [OF Cons]) (rule nic_run_append [OF that])
  show ?case
    unfolding notifications.simps
    by (rule yields_bind [OF installed_nic_run]) (auto intro!: yields_intros rest)
qed

lemma nic_run_concerns:
  assumes "nic_run False es l" "es = before @ e # after" "configures e \<noteq> None \<or> publishes e \<noteq> None"
  obtains h p where "EthDevicePath h (Some p) \<in> set before" "onboard p" "claim_event h p e"
    "\<And>h' p'. EthDevicePath h' (Some p') \<in> set es \<Longrightarrow> onboard p' \<Longrightarrow> h' = h \<and> p' = p"
  using assms(1)
proof cases
  case pass
  then have "passed_over e"
    using assms(2) by simp
  then show ?thesis
    using assms(3) by (cases e) auto
next
  case (claim pre p h body post)
  have "e \<notin> set pre"
    using claim(3) assms(3) by (cases e) (auto simp: list_all_iff dest!: bspec)
  moreover have "e \<noteq> EthDevicePath h (Some p)"
    using assms(3) by auto
  ultimately obtain u where u: "before = (pre @ [EthDevicePath h (Some p)]) @ u" "body @ post = u @ e # after"
    using peel_left [of before e after "pre @ [EthDevicePath h (Some p)]" "body @ post"] claim(1) assms(2) by auto
  have "e \<notin> set post"
    using claim(6) assms(3) by (cases e) (auto simp: list_all_iff dest!: bspec)
  then have "e \<in> set body"
    using u(2) by (metis Un_iff in_set_conv_decomp set_append)
  then have "claim_event h p e"
    using claim(5) by (simp add: claim_events_def list_all_iff)
  moreover have "h' = h \<and> p' = p" if "EthDevicePath h' (Some p') \<in> set es" "onboard p'" for h' p'
    using that claim by (fastforce simp: list_all_iff claim_events_def claim_event_def)
  ultimately show ?thesis
    using that [of h p] u(1) claim(4) by simp
qed simp

text \<open>
  C8: Over all notifications of a boot, with any queue of controllers and any answers, every event that
  configures a controller or publishes the setup page concerns one and the same controller: the first
  one whose device path has a MAC node and no USB node.  The management controller's USB network link
  is never reconfigured and no page is published on it.
\<close>

theorem bmc_link_untouched:
  assumes "run_state (notifications E Queues False) t = (r, t @ before @ e # after)"
    and "configures e \<noteq> None \<or> publishes e \<noteq> None"
  shows "\<exists>h p. EthDevicePath h (Some p) \<in> set before \<and> onboard p \<and>
     configures e \<in> {None, Some h} \<and> publishes e \<in> {None, Some (p @ [VendorNode])} \<and>
     (\<forall>h' p'. EthDevicePath h' (Some p') \<in> set (before @ e # after) \<and> onboard p' \<longrightarrow> h' = h \<and> p' = p)"
proof -
  have "nic_run False (before @ e # after) (snd r)"
    using yields_run [OF notifications_nic_run assms(1)] .
  then show ?thesis
    using assms(2) by (rule nic_run_concerns [OF _ refl]) (auto simp: claim_event_def)
qed

section \<open>The reported address\<close>

text \<open>
  Documented behaviour of the wide print: the array keeps its size, and a text that fits is written
  from its start with a terminating NUL.
\<close>

definition unicode_print_ok :: "(nat \<Rightarrow> print_item list \<Rightarrow> u16 list) \<Rightarrow> bool" where
  "unicode_print_ok f \<longleftrightarrow> (\<forall>n items. length (f n items) = n \<and>
     (length (print_text items) < n \<longrightarrow> (\<exists>rest. f n items = map ucast (print_text items) @ 0 # rest)))"

lemma StrCmp_spec:
  "0 \<in> set a \<Longrightarrow> 0 \<in> set b \<Longrightarrow>
   \<exists>z. StrCmp a b = Some z \<and> (z = 0 \<longleftrightarrow> takeWhile (\<lambda>c. c \<noteq> 0) a = takeWhile (\<lambda>c. c \<noteq> 0) b)"
proof (induction a b rule: StrCmp.induct)
  case (1 a as b bs)
  show ?case
  proof (cases "a \<noteq> 0 \<and> a = b")
    case True
    with 1 show ?thesis by auto
  next
    case False
    then show ?thesis by (auto simp: word_uint_eq_iff)
  qed
qed auto

text \<open>The six octets as the text the print makes of them.\<close>

definition mac_text :: "u8 list \<Rightarrow> u16 list" where
  "mac_text addr = map ucast (print_text (the (mac_items addr)))"

lemma mac_items_eq:
  assumes "6 \<le> length addr"
  shows "mac_items addr = Some [Hex 2 (unat (addr ! 0)), Lit '':'', Hex 2 (unat (addr ! 1)), Lit '':'', Hex 2 (unat (addr ! 2)),
    Lit '':'', Hex 2 (unat (addr ! 3)), Lit '':'', Hex 2 (unat (addr ! 4)), Lit '':'', Hex 2 (unat (addr ! 5))]"
proof -
  have "byte_at addr 0 = Some (addr ! 0)"
    using assms by (intro byte_at_in) linarith
  with assms show ?thesis
    by (simp add: mac_items_def)
qed

lemma length_mac_text: "6 \<le> length addr \<Longrightarrow> length (mac_text addr) = 17"
  by (simp add: mac_text_def mac_items_eq print_text_def)

lemma ucast_u16_zero [simp]: "(ucast (x :: u8) :: u16) = 0 \<longleftrightarrow> x = 0"
  using unsigned_less [of x, where ?'a = nat]
  by (auto simp: unsigned_ucast_eq word_unat_eq_iff take_bit_nat_eq_self)

lemma mac_text_no_nul: "6 \<le> length addr \<Longrightarrow> 0 \<notin> set (mac_text addr)"
  using hex_text_no_nul [of 2] by (auto simp: mac_text_def mac_items_eq print_text_def ascii_def simp del: hex_text.simps)

lemma mac_print:
  assumes "unicode_print_ok f" "mac_items addr = Some items" "6 \<le> length addr"
  shows "f NUC_ETH_MAC_STR_SIZE items = mac_text addr @ [0]"
proof -
  have 17: "length (print_text items) = 17" "map ucast (print_text items) = mac_text addr"
    using length_mac_text [OF assms(3)] assms(2) by (simp_all add: mac_text_def)
  have "length (f 18 items) = 18" "\<exists>rest. f 18 items = map ucast (print_text items) @ 0 # rest"
    using assms(1) 17(1) unfolding unicode_print_ok_def by auto
  then show ?thesis
    using 17 length_mac_text [OF assms(3)] by (auto simp: NUC_ETH_MAC_STR_SIZE_def)
qed

lemma stored_config_wf:
  assumes "stored_config r = Some c"
  shows "config_wf c \<and> 0 \<in> set (MacAddress c)"
proof -
  obtain d where d: "length d = 197" "c = force_termination (config_of_bytes d)"
    using assms by (cases r) (auto split: if_splits)
  have "length (MacAddress (config_of_bytes d)) = 18"
    using config_of_bytes_wf [OF d(1)] by (simp add: config_wf_def)
  then have "0 \<in> set ((MacAddress (config_of_bytes d))[17 := 0])"
    by (intro set_update_memI) simp
  then show ?thesis
    using config_of_bytes_wf [OF d(1)] d(2) by (simp add: force_termination_def NUC_ETH_MAC_STR_SIZE_def config_wf_def)
qed

definition seeded :: "NUC_ETH_CONFIG \<Rightarrow> u8 list \<Rightarrow> NUC_ETH_CONFIG" where
  "seeded c addr = c\<lparr>MacAddress := mac_text addr @ [0]\<rparr>"

lemma seeded_layout:
  assumes "config_wf c" "6 \<le> length addr"
  shows "length (config_bytes (seeded c addr)) = 197" "config_of_bytes (config_bytes (seeded c addr)) = seeded c addr"
proof -
  have "config_wf (seeded c addr)"
    using assms by (simp add: config_wf_def seeded_def length_mac_text)
  then show "length (config_bytes (seeded c addr)) = 197" "config_of_bytes (config_bytes (seeded c addr)) = seeded c addr"
    by (simp_all add: config_layout)
qed

lemma seed_mac_run:
  assumes "unicode_print_ok (e_UnicodeSPrint E)" "mac_node_walk p = Some addr" "6 \<le> length addr"
  shows "\<exists>es. run_state (SeedMacAddress E p) t = (True, t @ (case e_GetVariable E t of (s, d) \<Rightarrow> EthGetVariable s d) # es) \<and>
     (case stored_config (e_GetVariable E t) of
        None \<Rightarrow> es = []
      | Some c \<Rightarrow>
          if takeWhile (\<lambda>w. w \<noteq> 0) (MacAddress c) = mac_text addr then es = []
          else \<exists>s. es = [EthSetVariable (config_bytes (seeded c addr)) s])"
proof -
  obtain items where items: "mac_items addr = Some items"
    using mac_items_eq [OF assms(3)] by blast
  note print = mac_print [OF assms(1) items assms(3)]
  have nul: "takeWhile (\<lambda>w. w \<noteq> 0) (mac_text addr @ [0]) = mac_text addr"
    using mac_text_no_nul [OF assms(3)] by (subst takeWhile_append2) auto
  show ?thesis
  proof (cases "stored_config (e_GetVariable E t)")
    case None
    then show ?thesis
      using assms(2) by (simp add: SeedMacAddress_def run_ReadConfigVariable)
  next
    case (Some c)
    obtain z where z: "StrCmp (mac_text addr @ [0]) (MacAddress c) = Some z"
      "z = 0 \<longleftrightarrow> mac_text addr = takeWhile (\<lambda>w. w \<noteq> 0) (MacAddress c)"
      using StrCmp_spec [of "mac_text addr @ [0]" "MacAddress c"] stored_config_wf [OF Some] nul by auto
    have "take NUC_ETH_MAC_STR_SIZE (mac_text addr @ [0]) = mac_text addr @ [0]"
      using length_mac_text [OF assms(3)] by (simp add: NUC_ETH_MAC_STR_SIZE_def)
    with Some z show ?thesis
      using assms(2) seeded_layout [of c addr] stored_config_wf [OF Some] assms(3)
      by (auto simp: SeedMacAddress_def run_ReadConfigVariable items print set_variable_def Let_def simp flip: seeded_def)
  qed
qed

text \<open>
  The bytes written, from the bytes stored: the first byte, the address text, and the five address arrays,
  each with its last character made NUL.
\<close>

definition string_offsets :: "nat list" where
  "string_offsets = [37, 69, 101, 133, 165]"

definition seeded_bytes :: "u8 list \<Rightarrow> u8 list \<Rightarrow> u8 list" where
  "seeded_bytes b addr = take 1 b @ char_bytes (mac_text addr @ [0]) @
     concat (map (\<lambda>off. take 30 (drop off b) @ [0, 0]) string_offsets)"

lemma char_bytes_wide:
  "length x = 2 * Suc n \<Longrightarrow> char_bytes ((wide_chars x)[n := 0]) = take (2 * n) x @ [0, 0]"
proof (induction n arbitrary: x)
  case 0
  then show ?case
    by (auto simp: char_bytes_def le16_def numeral_2_eq_2 length_Suc_conv)
next
  case (Suc n)
  obtain a b y where x: "x = a # b # y" "length y = 2 * Suc n"
    using Suc.prems by (cases x; cases "tl x") auto
  then show ?case
    using Suc.IH [of y] by (simp add: char_bytes_def le16_from_le16)
qed

lemma seeded_bytes_eq:
  assumes "length b = 197"
  shows "config_bytes (seeded (force_termination (config_of_bytes b)) addr) = seeded_bytes b addr"
proof -
  have "char_bytes ((array_at b off 16)[15 := 0]) = take 30 (drop off b) @ [0, 0]" if "off \<in> set string_offsets" for off
    using that assms char_bytes_wide [of "take 32 (drop off b)" 15]
    by (auto simp: array_at_def string_offsets_def)
  moreover have "take 1 b = [b ! 0]"
    using assms by (cases b) auto
  ultimately show ?thesis
    by (simp add: config_bytes_def seeded_def force_termination_def config_of_bytes_def seeded_bytes_def
        NUC_ETH_IP4_STR_SIZE_def string_offsets_def)
qed

lemma terminated_kept:
  assumes "length b = 197" "6 \<le> length addr" "\<forall>off\<in>set string_offsets. take 2 (drop (off + 30) b) = [0, 0]"
  shows "drop 37 (seeded_bytes b addr) = drop 37 b"
proof -
  have "take 30 (drop off b) @ [0, 0] = take 32 (drop off b)" if "off \<in> set string_offsets" for off
    using that assms(3) take_add [of 30 2 "drop off b"] by (simp add: add.commute)
  then have "concat (map (\<lambda>off. take 30 (drop off b) @ [0, 0]) string_offsets) =
      concat (map (\<lambda>off. take 32 (drop off b)) string_offsets)"
    by (intro arg_cong [where f = concat] map_cong) auto
  also have "\<dots> = drop 37 b"
    using take_add [of 32 128 "drop 37 b"] take_add [of 32 96 "drop 69 b"] take_add [of 32 64 "drop 101 b"]
      take_add [of 32 32 "drop 133 b"] assms(1)
    by (simp add: string_offsets_def)
  finally show ?thesis
    using assms(1,2) length_mac_text [OF assms(2)] by (simp add: seeded_bytes_def)
qed

text \<open>
  C18: Seeding the address of a claimed controller always comes back, and writes the variable exactly when
  it could be read in its layout and its address text is not that of the first MAC node.  What is written
  is given byte by byte from the bytes stored: the policy byte is the stored one, the address text is the
  six octets as two upper-case digits each, separated by colons and terminated, and each of the other
  five strings is the stored one with its last character made NUL, since the read forces the termination
  of what it hands out.  So where the stored strings end in a NUL, every byte behind the address text is
  the stored one, and an unterminated string is cut by a character.
\<close>

theorem seed_mac_spec:
  assumes "unicode_print_ok (e_UnicodeSPrint E)" "mac_node_walk p = Some addr" "6 \<le> length addr"
    and "e_GetVariable E t = (st, b)"
  shows "\<exists>es. run_state (SeedMacAddress E p) t = (True, t @ EthGetVariable st b # es) \<and>
     (if EFI_ERROR st \<or> length b \<noteq> 197 \<or>
         takeWhile (\<lambda>w. w \<noteq> 0) ((array_at b 1 18)[17 := 0]) = mac_text addr then es = []
      else \<exists>s. es = [EthSetVariable (seeded_bytes b addr) s]) \<and>
     (length b = 197 \<and> (\<forall>off\<in>set string_offsets. take 2 (drop (off + 30) b) = [0, 0]) \<longrightarrow>
        drop 37 (seeded_bytes b addr) = drop 37 b \<and> take 1 (seeded_bytes b addr) = take 1 b)"
proof -
  have "take 1 (seeded_bytes b addr) = take 1 b" if "length b = 197"
    using that by (cases b) (auto simp: seeded_bytes_def)
  then show ?thesis
    using seed_mac_run [OF assms(1-3), of t] assms(4) terminated_kept [OF _ assms(3)] seeded_bytes_eq [of b addr]
    by (auto simp: force_termination_def config_of_bytes_def NUC_ETH_MAC_STR_SIZE_def split: if_splits)
qed

section \<open>A boot with two controllers\<close>

text \<open>
  The management controller's USB link comes up first, then the onboard controller, then a third one.
  The variable holds the default policy.
\<close>

definition padded_print :: "nat \<Rightarrow> print_item list \<Rightarrow> u16 list" where
  "padded_print n items = take n (map ucast (print_text items) @ replicate n 0)"

lemma padded_print_ok: "unicode_print_ok padded_print"
  unfolding unicode_print_ok_def padded_print_def
  by (auto simp: min_def gr0_conv_Suc dest!: less_imp_Suc_add)

definition usb_path :: "eth_node list" where
  "usb_path = [(2, 1, []), (3, 0x05, [1, 0]), (3, 0x0b, [0xda, 0xc0, 0xff, 0xee, 0x10, 0x02])]"

definition nic_path :: "eth_node list" where
  "nic_path = [(2, 1, []), (3, 0x0b, [0xb8, 0xae, 0xed, 0x10, 0x20, 0x30])]"

definition demo_eth :: eth_env where
  "demo_eth = \<lparr>e_Net = \<lparr>NetLibStrToIp4 = \<lambda>_. None, NetGetMaskLength = \<lambda>_. 0, NetIp4IsUnicast = \<lambda>_ _. False\<rparr>,
     e_UnicodeSPrint = padded_print,
     e_GetVariable = \<lambda>_. (EFI_SUCCESS, config_bytes (zero_config\<lparr>DhcpEnabled := 1\<rparr>)),
     e_SetVariable = \<lambda>_ _. EFI_SUCCESS,
     e_DevicePath = \<lambda>_ h. Some (if h = 1 then usb_path else nic_path),
     e_HandleProtocol = \<lambda>_ _. EFI_SUCCESS, e_SetData = \<lambda>_ _ _. EFI_SUCCESS, e_CreateEvent = \<lambda>_. EFI_SUCCESS,
     e_RegisterData = \<lambda>_. EFI_SUCCESS, e_Polls = \<lambda>_. [], e_AppendNode = \<lambda>_. True, e_InstallPath = \<lambda>_. EFI_SUCCESS,
     e_AddPackages = \<lambda>_. True, e_RegisterProtocol = \<lambda>_. EFI_SUCCESS\<rparr>"

definition default_config :: NUC_ETH_CONFIG where
  "default_config = zero_config\<lparr>DhcpEnabled := 1\<rparr>"

lemma default_config_facts:
  "config_wf default_config" "force_termination default_config = default_config" "DhcpEnabled default_config = 1"
  "takeWhile (\<lambda>w. w \<noteq> 0) (MacAddress default_config) = []"
  by (simp_all add: default_config_def zero_config_def config_wf_def force_termination_def NUC_ETH_MAC_STR_SIZE_def
      NUC_ETH_IP4_STR_SIZE_def numeral_eq_Suc)

lemma stored_default: "stored_config (EFI_SUCCESS, config_bytes default_config) = Some default_config"
  using default_config_facts by (simp add: config_layout)

lemma demo_seed:
  "\<exists>d s. run_state (SeedMacAddress demo_eth nic_path) t =
     (True, t @ [EthGetVariable EFI_SUCCESS (config_bytes default_config), EthSetVariable d s])"
proof -
  let ?addr = "[0xb8, 0xae, 0xed, 0x10, 0x20, 0x30] :: u8 list"
  have "mac_node_walk nic_path = Some ?addr"
    by (simp add: nic_path_def node_numbers)
  moreover have "unicode_print_ok (e_UnicodeSPrint demo_eth)" "e_GetVariable demo_eth t = (EFI_SUCCESS, config_bytes default_config)"
    by (simp_all add: demo_eth_def padded_print_ok default_config_def)
  moreover have "mac_text ?addr \<noteq> []"
    using length_mac_text [of ?addr] by auto
  ultimately show ?thesis
    using seed_mac_run [of demo_eth nic_path ?addr t] default_config_facts(4) stored_default
    by (auto simp del: stored_config.simps)
qed

lemma demo_apply:
  "run_state (ApplyConfig demo_eth h) t = ((), t @ [EthGetVariable EFI_SUCCESS (config_bytes default_config),
     EthHandleProtocol h EFI_SUCCESS, EthSetData h (DataPolicy Ip4Config2PolicyDhcp) EFI_SUCCESS])"
proof -
  have "e_GetVariable demo_eth t = (EFI_SUCCESS, config_bytes default_config)"
    by (simp add: demo_eth_def default_config_def)
  then show ?thesis
    by (simp add: ApplyConfig_def apply_policy_def run_ReadConfigVariable stored_default default_config_facts set_data_def
        demo_eth_def del: stored_config.simps)
qed

lemma demo_publish:
  "run_state (PublishFormset demo_eth p) t =
     ((), t @ [EthAppendNode True, EthInstallPath (p @ [VendorNode]) EFI_SUCCESS, EthAddPackages True])"
  by (simp add: PublishFormset_def demo_eth_def)

lemma demo_paths:
  "e_DevicePath demo_eth t h = Some (if h = 1 then usb_path else nic_path)"
  "ClassifyNicDevicePath usb_path = (True, True)" "ClassifyNicDevicePath nic_path = (True, False)" "onboard nic_path"
  by (auto simp: demo_eth_def ClassifyNicDevicePath_def usb_path_def nic_path_def node_numbers onboard_def)

lemma demo_notifications:
  "\<exists>d s. run_state (notifications demo_eth [[1], [2, 3]] False) [] =
     ((True, True),
      [EthLocated 1, EthDevicePath 1 (Some usb_path), EthLocated 2, EthDevicePath 2 (Some nic_path),
       EthGetVariable EFI_SUCCESS (config_bytes default_config), EthSetVariable d s,
       EthAppendNode True, EthInstallPath (nic_path @ [VendorNode]) EFI_SUCCESS, EthAddPackages True,
       EthGetVariable EFI_SUCCESS (config_bytes default_config), EthHandleProtocol 2 EFI_SUCCESS] @
      EthSetData 2 (DataPolicy Ip4Config2PolicyDhcp) EFI_SUCCESS # [EthLocated 3])"
proof -
  obtain d s where "run_state (SeedMacAddress demo_eth nic_path)
      [EthLocated 1, EthDevicePath 1 (Some usb_path), EthLocated 2, EthDevicePath 2 (Some nic_path)] =
      (True, [EthLocated 1, EthDevicePath 1 (Some usb_path), EthLocated 2, EthDevicePath 2 (Some nic_path)] @
        [EthGetVariable EFI_SUCCESS (config_bytes default_config), EthSetVariable d s])"
    using demo_seed by blast
  then show ?thesis
    by (auto simp: claim_nic_def demo_apply demo_publish demo_paths Let_def)
qed

theorem seed_mac_spec_witness:
  "\<exists>s. run_state (SeedMacAddress demo_eth nic_path) [] =
     (True, [EthGetVariable EFI_SUCCESS (config_bytes default_config),
             EthSetVariable (seeded_bytes (config_bytes default_config) [0xb8, 0xae, 0xed, 0x10, 0x20, 0x30]) s])"
proof -
  let ?addr = "[0xb8, 0xae, 0xed, 0x10, 0x20, 0x30] :: u8 list"
  have "mac_node_walk nic_path = Some ?addr" "unicode_print_ok (e_UnicodeSPrint demo_eth)"
    "e_GetVariable demo_eth [] = (EFI_SUCCESS, config_bytes default_config)" "mac_text ?addr \<noteq> []"
    using length_mac_text [of ?addr]
    by (auto simp: nic_path_def node_numbers demo_eth_def padded_print_ok default_config_def)
  moreover have "array_at (config_bytes default_config) 1 18 = MacAddress (config_of_bytes (config_bytes default_config))"
    by (simp add: config_of_bytes_def)
  moreover have "length (config_bytes default_config) = 197" "config_of_bytes (config_bytes default_config) = default_config"
    using default_config_facts(1) by (simp_all add: config_layout)
  moreover have "takeWhile (\<lambda>w. w \<noteq> 0) ((MacAddress default_config)[17 := 0]) = []"
    by (simp add: default_config_def zero_config_def NUC_ETH_MAC_STR_SIZE_def numeral_eq_Suc)
  ultimately show ?thesis
    using seed_mac_spec [of demo_eth nic_path ?addr "[]" EFI_SUCCESS "config_bytes default_config"]
    by auto
qed

theorem bmc_link_untouched_witness:
  "\<exists>before after r. run_state (notifications demo_eth [[1], [2, 3]] False) [] =
     (r, before @ EthSetData 2 (DataPolicy Ip4Config2PolicyDhcp) EFI_SUCCESS # after) \<and>
     (\<exists>h p. EthDevicePath h (Some p) \<in> set before \<and> onboard p \<and> Some 2 \<in> {None, Some h})"
proof -
  obtain before r where run: "run_state (notifications demo_eth [[1], [2, 3]] False) [] =
      (r, [] @ before @ EthSetData 2 (DataPolicy Ip4Config2PolicyDhcp) EFI_SUCCESS # [EthLocated 3])"
    using demo_notifications by auto
  then show ?thesis
    using bmc_link_untouched [OF run] by auto
qed

end
