(* ===== verification/EthInterface.thy ===== *)
theory EthInterface
  imports RedfishSync "HOL-Library.Multiset"
begin

text \<open>
  The Redfish feature driver for the EthernetInterface resource:
  RedfishEthernetInterfaceDxe/EthernetInterfaceCommon.c (what is consumed from a resource, the payload
  that provisions one, the check and the identification) and EthernetInterfaceDxe.c (the operations of the
  resource protocol and the life of the driver).

  The Redfish client library, its JSON to structure converter, the HII property helpers, JsonLib and the
  boot services are the environment.  A JSON text is the value it denotes, a string its content before the
  terminator, None a null pointer.  The fields Uri, Payload and Json of the private structure carry
  values from an operation into its helper only and are arguments here.  A resource
  is given back by an event that names its kind.
\<close>

section \<open>The environment\<close>

datatype ei_res = FLang | FString | FJsonValue | FJsonText | FResponse | FStructure | FLocation | FLangList | FEtag | FPending | FVersion
  | FReturnedLang | FExchangeList | FExchangeLang

text \<open>The consumed structure.  An element of the address list is a JSON blob, with its text, or something else.\<close>

datatype cs_element = CsJson "json option option" | CsOther

record eth_cs =
  odata_id :: string
  odata_etag :: "string option"
  DHCPv4 :: "bool option option"
  IPv4StaticAddresses :: "cs_element list"
  StaticNameServers :: "u8 list list"

record http_response =
  r_Payload :: "json option"
  r_Etag :: "string option"
  r_Location :: "string option"

type_synonym lang_list = "(nat \<times> string) list"

text \<open>The collection structure of the collection driver: its member count, if given, and its members.\<close>

datatype coll_member = MemberUri string | MemberOther

record coll_cs =
  Members_count :: "int option"
  Members :: "coll_member list"

datatype ei_event =
    EiGetLang string string "string option"
  | EiApplyString string "u8 list" efi_status
  | EiApplyBool string bool efi_status
  | EiJsonLoad bool
  | EiToStructure efi_status
  | EiCheckEtag bool
  | EiPropString string "u8 list option"
  | EiPropBool string "bool option"
  | EiNewPayload bool
  | EiAlloc bool
  | EiDump bool
  | EiPost string json efi_status
  | EiPatch string json efi_status
  | EiLocation "string option"
  | EiSetUri string string efi_status
  | EiLangList efi_status lang_list
  | EiSetConfigureLang lang_list
  | EiConfigLanguage string "string option"
  | EiGet string efi_status
  | EiSetEtag string
  | EiPending "string option"
  | EiSetSettingsUri string string
  | EiHeaderEtag "string option"
  | EiIdentify bool
  | EiCreateService bool
  | EiCleanupService
  | EiCloseEvent
  | EiLocateJsonStruct bool
  | EiOpenHandler efi_status bool
  | EiUninstall efi_status
  | EiInstall efi_status
  | EiNotifyEvent
  | EiAllocPrivate bool
  | EiFreePrivate
  | EiSchemaInfo efi_status
  | EiArrayIndex efi_status
  | EiAllocExchange bool
  | EiReturnLang nat string bool
  | EiSupportedSchema efi_status
  | EiCollectionGet string efi_status
  | EiCollection efi_status coll_cs
  | EiMemberUri bool
  | EiVersion "string option"
  | EiAllocUri bool
  | EiCollectionUri "string option"
  | EiRegister efi_status
  | EiUnregister
  | EiFault
  | EiFree ei_res

type_synonym ei_trace = "ei_event list"

record ei_env =
  e_GetLang :: "ei_trace \<Rightarrow> string \<Rightarrow> string \<Rightarrow> string option"
  e_ApplyString :: "ei_trace \<Rightarrow> string \<Rightarrow> u8 list \<Rightarrow> efi_status"
  e_ApplyBool :: "ei_trace \<Rightarrow> string \<Rightarrow> bool \<Rightarrow> efi_status"
  e_JsonLoad :: "ei_trace \<Rightarrow> bool"
  e_ToStructure :: "ei_trace \<Rightarrow> json \<Rightarrow> efi_status \<times> eth_cs"
  e_CheckEtag :: "ei_trace \<Rightarrow> string \<Rightarrow> string option \<Rightarrow> string option \<Rightarrow> bool"
  e_PropString :: "ei_trace \<Rightarrow> string \<Rightarrow> string \<Rightarrow> u8 list option"
  e_PropBool :: "ei_trace \<Rightarrow> string \<Rightarrow> string \<Rightarrow> bool option"
  e_JsonAlloc :: "ei_trace \<Rightarrow> bool"
  e_Dump :: "ei_trace \<Rightarrow> bool"
  e_EiPost :: "ei_trace \<Rightarrow> string \<Rightarrow> json \<Rightarrow> efi_status \<times> http_response"
  e_EiPatch :: "ei_trace \<Rightarrow> string \<Rightarrow> json \<Rightarrow> efi_status"
  e_SetUri :: "ei_trace \<Rightarrow> string \<Rightarrow> string \<Rightarrow> efi_status"
  e_LangList :: "ei_trace \<Rightarrow> efi_status \<times> lang_list"
  e_ConfigLanguage :: "ei_trace \<Rightarrow> string \<Rightarrow> string option"
  e_EiGet :: "ei_trace \<Rightarrow> string \<Rightarrow> efi_status \<times> http_response"
  e_Pending :: "ei_trace \<Rightarrow> json option \<Rightarrow> (string \<times> http_response) option"
  e_IdentifyResource :: "ei_trace \<Rightarrow> string \<Rightarrow> json option \<Rightarrow> bool"
  e_EiCreateService :: "ei_trace \<Rightarrow> bool"
  e_LocateJsonStruct :: "ei_trace \<Rightarrow> bool"
  e_OpenHandler :: "ei_trace \<Rightarrow> efi_status \<times> bool"
  e_Uninstall :: "ei_trace \<Rightarrow> efi_status"
  e_Install :: "ei_trace \<Rightarrow> efi_status"
  e_AllocPrivate :: "ei_trace \<Rightarrow> bool"

type_synonym 'a ei = "(ei_event, 'a) prog"

definition free :: "ei_res \<Rightarrow> unit ei" where
  "free r = tell (EiFree r)"

definition get_config_language :: "ei_env \<Rightarrow> string \<Rightarrow> string option ei" where
  "get_config_language E Uri = ask (\<lambda>t. e_ConfigLanguage E t Uri) (EiConfigLanguage Uri)"

definition get_lang_list :: "ei_env \<Rightarrow> (efi_status \<times> lang_list) ei" where
  "get_lang_list E = ask (e_LangList E) (\<lambda>(s, l). EiLangList s l)"

definition json_alloc :: "ei_env \<Rightarrow> bool ei" where
  "json_alloc E = ask (e_JsonAlloc E) EiAlloc"

section \<open>Consuming\<close>

definition ETH_LANG_DHCP_ENABLED :: string where "ETH_LANG_DHCP_ENABLED = ''DHCPv4/DHCPEnabled''"
definition ETH_LANG_ADDRESS :: string where "ETH_LANG_ADDRESS = ''IPv4StaticAddresses/[1]/Address''"
definition ETH_LANG_SUBNET_MASK :: string where "ETH_LANG_SUBNET_MASK = ''IPv4StaticAddresses/[1]/SubnetMask''"
definition ETH_LANG_GATEWAY :: string where "ETH_LANG_GATEWAY = ''IPv4StaticAddresses/[1]/Gateway''"
definition ETH_LANG_DNS1 :: string where "ETH_LANG_DNS1 = ''StaticNameServers/[1]''"
definition ETH_LANG_DNS2 :: string where "ETH_LANG_DNS2 = ''StaticNameServers/[2]''"

definition ConsumeStringProperty :: "ei_env \<Rightarrow> string \<Rightarrow> string \<Rightarrow> u8 list option \<Rightarrow> unit ei" where
  "ConsumeStringProperty E OdataId PropertyName Value = do {
     ConfigureLang \<leftarrow> ask (\<lambda>t. e_GetLang E t OdataId PropertyName) (EiGetLang OdataId PropertyName);
     case ConfigureLang of
       None \<Rightarrow> State_Monad.return ()
     | Some Lang \<Rightarrow> do {
         let v = (case Value of None \<Rightarrow> [] | Some v \<Rightarrow> v);
         _ \<leftarrow> ask (\<lambda>t. e_ApplyString E t Lang v) (EiApplyString Lang v);
         free FLang
       }
   }"

definition JsonObjectAsciiMember :: "json \<Rightarrow> string \<Rightarrow> u8 list option" where
  "JsonObjectAsciiMember Object Key =
     (if \<not> JsonValueIsObject Object then None
      else (case JsonObjectGetValue Object Key of
          None \<Rightarrow> None
        | Some Value \<Rightarrow> map_option cstr (JsonValueGetAsciiString Value)))"

definition ConsumeStaticAddresses :: "ei_env \<Rightarrow> eth_cs \<Rightarrow> unit ei" where
  "ConsumeStaticAddresses E Cs =
     (case IPv4StaticAddresses Cs of
        [] \<Rightarrow> do {
          _ \<leftarrow> ConsumeStringProperty E (odata_id Cs) ETH_LANG_ADDRESS None;
          _ \<leftarrow> ConsumeStringProperty E (odata_id Cs) ETH_LANG_SUBNET_MASK None;
          ConsumeStringProperty E (odata_id Cs) ETH_LANG_GATEWAY None
        }
      | CsOther # _ \<Rightarrow> State_Monad.return ()
      | CsJson None # _ \<Rightarrow> State_Monad.return ()
      | CsJson (Some Parsed) # _ \<Rightarrow> do {
          Loaded \<leftarrow> ask (\<lambda>t. if e_JsonLoad E t then Parsed else None) (\<lambda>v. EiJsonLoad (v \<noteq> None));
          case Loaded of
            None \<Rightarrow> State_Monad.return ()
          | Some Element \<Rightarrow> do {
              _ \<leftarrow> ConsumeStringProperty E (odata_id Cs) ETH_LANG_ADDRESS (JsonObjectAsciiMember Element ''Address'');
              _ \<leftarrow> ConsumeStringProperty E (odata_id Cs) ETH_LANG_SUBNET_MASK (JsonObjectAsciiMember Element ''SubnetMask'');
              _ \<leftarrow> ConsumeStringProperty E (odata_id Cs) ETH_LANG_GATEWAY (JsonObjectAsciiMember Element ''Gateway'');
              free FJsonValue
            }
        })"

definition consume_dhcp :: "ei_env \<Rightarrow> eth_cs \<Rightarrow> unit ei" where
  "consume_dhcp E Cs =
     (case DHCPv4 Cs of
        Some (Some DHCPEnabled) \<Rightarrow> do {
          ConfigureLang \<leftarrow> ask (\<lambda>t. e_GetLang E t (odata_id Cs) ETH_LANG_DHCP_ENABLED) (EiGetLang (odata_id Cs) ETH_LANG_DHCP_ENABLED);
          case ConfigureLang of
            None \<Rightarrow> State_Monad.return ()
          | Some Lang \<Rightarrow> do {
              _ \<leftarrow> ask (\<lambda>t. e_ApplyBool E t Lang DHCPEnabled) (EiApplyBool Lang DHCPEnabled);
              free FLang
            }
        }
      | _ \<Rightarrow> State_Monad.return ())"

definition consume_name_servers :: "ei_env \<Rightarrow> eth_cs \<Rightarrow> unit ei" where
  "consume_name_servers E Cs =
     (case StaticNameServers Cs of
        [] \<Rightarrow> State_Monad.return ()
      | NameServer # Rest \<Rightarrow> do {
          _ \<leftarrow> ConsumeStringProperty E (odata_id Cs) ETH_LANG_DNS1 (Some NameServer);
          ConsumeStringProperty E (odata_id Cs) ETH_LANG_DNS2 (case Rest of [] \<Rightarrow> None | Next # _ \<Rightarrow> Some Next)
        })"

text \<open>
  The arguments of the private structure that are used: whether the converter protocol was found, and the
  URI.  The result None is a call through a null protocol pointer.
\<close>

definition RedfishConsumeResourceCommon ::
  "ei_env \<Rightarrow> bool \<Rightarrow> string \<Rightarrow> json option \<Rightarrow> string option \<Rightarrow> efi_status option ei" where
  "RedfishConsumeResourceCommon E JsonStructProtocol Uri Json HeaderEtag =
     (case Json of
        None \<Rightarrow> State_Monad.return (Some EFI_INVALID_PARAMETER)
      | Some j \<Rightarrow>
          if \<not> JsonStructProtocol then do { tell EiFault; State_Monad.return None }
          else do {
            (Status, Cs) \<leftarrow> ask (\<lambda>t. e_ToStructure E t j) (\<lambda>(s, _). EiToStructure s);
            if EFI_ERROR Status then State_Monad.return (Some Status)
            else do {
              Same \<leftarrow> ask (\<lambda>t. e_CheckEtag E t Uri HeaderEtag (odata_etag Cs)) EiCheckEtag;
              if Same then do { free FStructure; State_Monad.return (Some EFI_SUCCESS) }
              else do {
                _ \<leftarrow> consume_dhcp E Cs;
                _ \<leftarrow> ConsumeStaticAddresses E Cs;
                _ \<leftarrow> consume_name_servers E Cs;
                free FStructure;
                State_Monad.return (Some EFI_SUCCESS)
              }
            }
          })"

section \<open>Provisioning\<close>

definition FetchStringProperty :: "ei_env \<Rightarrow> string \<Rightarrow> string \<Rightarrow> u8 list option ei" where
  "FetchStringProperty E PropertyName ConfigureLang = do {
     Value \<leftarrow> ask (\<lambda>t. e_PropString E t PropertyName ConfigureLang) (EiPropString PropertyName);
     if Value = Some [] then do { free FString; State_Monad.return None }
     else State_Monad.return Value
   }"

type_synonym json_members = "(u8 list \<times> json) list"

text \<open>A member with a string value, if the value can be allocated; a null value leaves the object as it is.\<close>

definition set_string :: "ei_env \<Rightarrow> json_members \<Rightarrow> string \<Rightarrow> u8 list option \<Rightarrow> json_members ei" where
  "set_string E ms Key Value =
     (case Value of
        None \<Rightarrow> State_Monad.return ms
      | Some v \<Rightarrow> do { ok \<leftarrow> json_alloc E; State_Monad.return (if ok then ms @ [(ascii Key, JStr v)] else ms) })"

definition free_string :: "u8 list option \<Rightarrow> unit ei" where
  "free_string Value = (if Value \<noteq> None then free FString else State_Monad.return ())"

definition append_string :: "ei_env \<Rightarrow> json list \<Rightarrow> u8 list option \<Rightarrow> json list ei" where
  "append_string E js Value =
     (case Value of
        None \<Rightarrow> State_Monad.return js
      | Some v \<Rightarrow> do { ok \<leftarrow> json_alloc E; State_Monad.return (if ok then js @ [JStr v] else js) })"

definition build_identity :: "ei_env \<Rightarrow> u8 list option \<Rightarrow> json_members ei" where
  "build_identity E ResourceId =
     (case ResourceId of
        None \<Rightarrow> State_Monad.return []
      | Some Member \<Rightarrow> do {
          ms \<leftarrow> set_string E [] ''@odata.type'' (Some (ascii ''#EthernetInterface.v1_8_0.EthernetInterface''));
          ms \<leftarrow> set_string E ms ''Id'' (Some Member);
          set_string E ms ''Name'' (Some (ascii ''Ethernet Interface''))
        })"

definition build_mac :: "ei_env \<Rightarrow> string \<Rightarrow> json_members \<Rightarrow> (json_members \<times> bool) ei" where
  "build_mac E ConfigureLang ms = do {
     Mac \<leftarrow> FetchStringProperty E ''MACAddress'' ConfigureLang;
     ms \<leftarrow> set_string E ms ''MACAddress'' Mac;
     _ \<leftarrow> free_string Mac;
     State_Monad.return (ms, Mac \<noteq> None)
   }"

definition build_dhcp :: "ei_env \<Rightarrow> string \<Rightarrow> json_members \<times> bool \<Rightarrow> (json_members \<times> bool) ei" where
  "build_dhcp E ConfigureLang r = do {
     DhcpEnabled \<leftarrow> ask (\<lambda>t. e_PropBool E t ''DHCPv4/DHCPEnabled'' ConfigureLang) (EiPropBool ''DHCPv4/DHCPEnabled'');
     case DhcpEnabled of
       None \<Rightarrow> State_Monad.return r
     | Some d \<Rightarrow> do {
         Dhcp \<leftarrow> json_alloc E;
         r \<leftarrow> (if Dhcp then do {
                 ok \<leftarrow> json_alloc E;
                 State_Monad.return
                   (fst r @ [(ascii ''DHCPv4'', JObj (if ok then [(ascii ''DHCPEnabled'', JBool d)] else []))], True)
               } else State_Monad.return r);
         free FString;
         State_Monad.return r
       }
   }"

definition build_addresses :: "ei_env \<Rightarrow> string \<Rightarrow> json_members \<times> bool \<Rightarrow> (json_members \<times> bool) ei" where
  "build_addresses E ConfigureLang r = do {
     Address \<leftarrow> FetchStringProperty E ''IPv4StaticAddresses/[1]/Address'' ConfigureLang;
     SubnetMask \<leftarrow> FetchStringProperty E ''IPv4StaticAddresses/[1]/SubnetMask'' ConfigureLang;
     Gateway \<leftarrow> FetchStringProperty E ''IPv4StaticAddresses/[1]/Gateway'' ConfigureLang;
     StaticAddresses \<leftarrow> json_alloc E;
     r \<leftarrow> (if StaticAddresses then do {
             es \<leftarrow> (if Address = None then State_Monad.return []
                   else do {
                     AddressEntry \<leftarrow> json_alloc E;
                     if \<not> AddressEntry then State_Monad.return []
                     else do {
                       as \<leftarrow> set_string E [] ''Address'' Address;
                       as \<leftarrow> set_string E as ''SubnetMask'' SubnetMask;
                       as \<leftarrow> set_string E as ''Gateway'' Gateway;
                       State_Monad.return [JObj as]
                     }
                   });
             State_Monad.return (fst r @ [(ascii ''IPv4StaticAddresses'', JArr es)], True)
           } else State_Monad.return r);
     _ \<leftarrow> free_string Address;
     _ \<leftarrow> free_string SubnetMask;
     _ \<leftarrow> free_string Gateway;
     State_Monad.return r
   }"

definition build_name_servers :: "ei_env \<Rightarrow> string \<Rightarrow> json_members \<times> bool \<Rightarrow> (json_members \<times> bool) ei" where
  "build_name_servers E ConfigureLang r = do {
     Dns1 \<leftarrow> FetchStringProperty E ''StaticNameServers/[1]'' ConfigureLang;
     Dns2 \<leftarrow> FetchStringProperty E ''StaticNameServers/[2]'' ConfigureLang;
     NameServers \<leftarrow> json_alloc E;
     r \<leftarrow> (if NameServers then do {
             js \<leftarrow> append_string E [] Dns1;
             js \<leftarrow> append_string E js Dns2;
             State_Monad.return (fst r @ [(ascii ''StaticNameServers'', JArr js)], True)
           } else State_Monad.return r);
     _ \<leftarrow> free_string Dns1;
     _ \<leftarrow> free_string Dns2;
     State_Monad.return r
   }"

definition BuildEthernetInterfacePayload :: "ei_env \<Rightarrow> string \<Rightarrow> u8 list option \<Rightarrow> (efi_status \<times> json option) ei" where
  "BuildEthernetInterfacePayload E ConfigureLang ResourceId = do {
     Payload \<leftarrow> ask (e_JsonAlloc E) EiNewPayload;
     if \<not> Payload then State_Monad.return (EFI_OUT_OF_RESOURCES, None)
     else do {
       ms \<leftarrow> build_identity E ResourceId;
       r \<leftarrow> build_mac E ConfigureLang ms;
       r \<leftarrow> build_dhcp E ConfigureLang r;
       r \<leftarrow> build_addresses E ConfigureLang r;
       (ms, AnyProperty) \<leftarrow> build_name_servers E ConfigureLang r;
       if \<not> AnyProperty then do { free FJsonValue; State_Monad.return (EFI_NOT_FOUND, None) }
       else do {
         ResultJson \<leftarrow> ask (e_Dump E) EiDump;
         free FJsonValue;
         State_Monad.return (if ResultJson then (EFI_SUCCESS, Some (JObj ms)) else (EFI_OUT_OF_RESOURCES, None))
       }
     }
   }"

definition ei_post :: "ei_env \<Rightarrow> string \<Rightarrow> json \<Rightarrow> (efi_status \<times> http_response) ei" where
  "ei_post E Uri Json = ask (\<lambda>t. e_EiPost E t Uri Json) (\<lambda>(s, _). EiPost Uri Json s)"

text \<open>
  The identifier is printed into 16 characters.  The instance number is cut to 32 bits after the
  decrement.
\<close>

definition ResourceId :: "ascii_lib \<Rightarrow> nat \<Rightarrow> u8 list" where
  "ResourceId L Instance =
     AsciiSPrint L 16 [Lit ''eth'', Dec (int ((if Instance = 0 then 0 else Instance - 1) mod 2 ^ 32))]"

definition ProvisioningEthernetInterfaceResource :: "ei_env \<Rightarrow> ascii_lib \<Rightarrow> string \<Rightarrow> nat \<Rightarrow> string \<Rightarrow> efi_status ei" where
  "ProvisioningEthernetInterfaceResource E L Uri Instance ConfigureLang = do {
     (Status, Json) \<leftarrow> BuildEthernetInterfacePayload E ConfigureLang (Some (ResourceId L Instance));
     case Json of
       None \<Rightarrow> State_Monad.return Status
     | Some j \<Rightarrow> do {
         (Status, Response) \<leftarrow> ei_post E Uri j;
         Status \<leftarrow> (if EFI_ERROR Status then State_Monad.return Status
           else do {
             Location \<leftarrow> ask (\<lambda>t. r_Location Response) EiLocation;
             case Location of
               None \<Rightarrow> State_Monad.return EFI_DEVICE_ERROR
             | Some NewResourceLocation \<Rightarrow> do {
                 Status \<leftarrow> ask (\<lambda>t. e_SetUri E t ConfigureLang NewResourceLocation) (EiSetUri ConfigureLang NewResourceLocation);
                 free FLocation;
                 State_Monad.return Status
               }
           });
         free FResponse;
         free FJsonText;
         State_Monad.return Status
       }
   }"

fun provision_loop :: "ei_env \<Rightarrow> ascii_lib \<Rightarrow> string \<Rightarrow> lang_list \<Rightarrow> efi_status \<Rightarrow> efi_status ei" where
  "provision_loop E L Uri [] Status = State_Monad.return Status"
| "provision_loop E L Uri ((Index, ConfigureLang) # List) Status = do {
     Status \<leftarrow> ProvisioningEthernetInterfaceResource E L Uri Index ConfigureLang;
     free FLang;
     provision_loop E L Uri List Status
   }"

definition ProvisioningEthernetInterfaceResources :: "ei_env \<Rightarrow> ascii_lib \<Rightarrow> string \<Rightarrow> efi_status ei" where
  "ProvisioningEthernetInterfaceResources E L Uri = do {
     (Status, List) \<leftarrow> get_lang_list E;
     if EFI_ERROR Status \<or> List = [] then State_Monad.return EFI_NOT_FOUND
     else do {
       tell (EiSetConfigureLang List);
       Status \<leftarrow> provision_loop E L Uri List Status;
       free FLangList;
       State_Monad.return Status
     }
   }"

definition ProvisioningEthernetInterfaceExistResource :: "ei_env \<Rightarrow> string \<Rightarrow> efi_status ei" where
  "ProvisioningEthernetInterfaceExistResource E Uri = do {
     ConfigureLang \<leftarrow> get_config_language E Uri;
     case ConfigureLang of
       None \<Rightarrow> State_Monad.return EFI_NOT_FOUND
     | Some Lang \<Rightarrow> do {
         (Status, Json) \<leftarrow> BuildEthernetInterfacePayload E Lang None;
         Status \<leftarrow> (case Json of
             None \<Rightarrow> State_Monad.return Status
           | Some j \<Rightarrow> do {
               Status \<leftarrow> ask (\<lambda>t. e_EiPatch E t Uri j) (EiPatch Uri j);
               free FResponse;
               free FJsonText;
               State_Monad.return Status
             });
         free FLang;
         State_Monad.return Status
       }
   }"

definition RedfishProvisioningResourceCommon :: "ei_env \<Rightarrow> ascii_lib \<Rightarrow> string \<Rightarrow> bool \<Rightarrow> efi_status ei" where
  "RedfishProvisioningResourceCommon E L Uri ResourceExist =
     (if ResourceExist then ProvisioningEthernetInterfaceExistResource E Uri
      else ProvisioningEthernetInterfaceResources E L Uri)"

section \<open>Check, update, identify\<close>

definition RedfishCheckResourceCommon :: "ei_env \<Rightarrow> json option \<Rightarrow> efi_status ei" where
  "RedfishCheckResourceCommon E Json =
     (case Json of
        None \<Rightarrow> State_Monad.return EFI_INVALID_PARAMETER
      | Some j \<Rightarrow> do {
          Resource \<leftarrow> ask (e_JsonLoad E) EiJsonLoad;
          if \<not> Resource then State_Monad.return EFI_DEVICE_ERROR
          else do {
            let Status = (if JsonObjectGetValue j ''DHCPv4'' \<noteq> None then EFI_SUCCESS else EFI_NOT_FOUND);
            free FJsonValue;
            State_Monad.return Status
          }
        })"

definition RedfishUpdateResourceCommon :: "ei_env \<Rightarrow> string \<Rightarrow> efi_status ei" where
  "RedfishUpdateResourceCommon E Uri = ProvisioningEthernetInterfaceExistResource E Uri"

fun free_langs :: "lang_list \<Rightarrow> unit ei" where
  "free_langs [] = State_Monad.return ()"
| "free_langs (_ # List) = do { _ \<leftarrow> free FLang; free_langs List }"

definition RedfishIdentifyResourceCommon :: "ei_env \<Rightarrow> string \<Rightarrow> json option \<Rightarrow> efi_status ei" where
  "RedfishIdentifyResourceCommon E Uri Json = do {
     Supported \<leftarrow> ask (\<lambda>t. e_IdentifyResource E t Uri Json) EiIdentify;
     if \<not> Supported then State_Monad.return EFI_UNSUPPORTED
     else do {
       (Status, List) \<leftarrow> get_lang_list E;
       if EFI_ERROR Status \<or> List = [] then State_Monad.return EFI_UNSUPPORTED
       else do {
         let ConfigureLang = snd (hd List);
         Status \<leftarrow> ask (\<lambda>t. e_SetUri E t ConfigureLang Uri) (EiSetUri ConfigureLang Uri);
         _ \<leftarrow> (if EFI_ERROR Status then State_Monad.return () else tell (EiSetConfigureLang List));
         _ \<leftarrow> free_langs List;
         free FLangList;
         State_Monad.return Status
       }
     }
   }"

section \<open>The operations of the resource protocol\<close>

record ei_private =
  RedfishService :: bool
  JsonStructProtocol :: bool
  PrivateEvent :: bool

definition ei_get :: "ei_env \<Rightarrow> string \<Rightarrow> (efi_status \<times> http_response) ei" where
  "ei_get E Uri = ask (\<lambda>t. e_EiGet E t Uri) (\<lambda>(s, _). EiGet Uri s)"

text \<open>The payload as text: none for a null payload or when the dump fails.\<close>

definition dump_payload :: "ei_env \<Rightarrow> json option \<Rightarrow> json option ei" where
  "dump_payload E Payload = ask (\<lambda>t. if e_Dump E t then Payload else None) (\<lambda>j. EiDump (j \<noteq> None))"

definition free_json :: "json option \<Rightarrow> unit ei" where
  "free_json Json = (if Json \<noteq> None then free FJsonText else State_Monad.return ())"

text \<open>The header's ETag, a copy of which the caller frees.\<close>

definition response_etag :: "http_response \<Rightarrow> string option ei" where
  "response_etag Response = ask (\<lambda>t. r_Etag Response) EiHeaderEtag"

definition RedfishResourceProvisioningResource ::
  "ei_env \<Rightarrow> ascii_lib \<Rightarrow> ei_private option \<Rightarrow> string \<Rightarrow> bool \<Rightarrow> efi_status ei" where
  "RedfishResourceProvisioningResource E L This Uri PostMode =
     (case This of
        None \<Rightarrow> State_Monad.return EFI_INVALID_PARAMETER
      | Some Private \<Rightarrow>
          if Uri = [] then State_Monad.return EFI_INVALID_PARAMETER
          else if \<not> RedfishService Private then State_Monad.return EFI_NOT_READY
          else do {
            (Status, Response) \<leftarrow> ei_get E Uri;
            if EFI_ERROR Status then State_Monad.return Status
            else do {
              Status \<leftarrow> RedfishProvisioningResourceCommon E L Uri (\<not> PostMode);
              _ \<leftarrow> (if EFI_ERROR Status then State_Monad.return () else tell (EiSetEtag Uri));
              free FResponse;
              State_Monad.return Status
            }
          })"

definition RedfishResourceConsumeResource :: "ei_env \<Rightarrow> ei_private option \<Rightarrow> string \<Rightarrow> efi_status option ei" where
  "RedfishResourceConsumeResource E This Uri =
     (case This of
        None \<Rightarrow> State_Monad.return (Some EFI_INVALID_PARAMETER)
      | Some Private \<Rightarrow>
          if Uri = [] then State_Monad.return (Some EFI_INVALID_PARAMETER)
          else if \<not> RedfishService Private then State_Monad.return (Some EFI_NOT_READY)
          else do {
            (Status, Response) \<leftarrow> ei_get E Uri;
            if EFI_ERROR Status then State_Monad.return (Some Status)
            else do {
              Pending \<leftarrow> ask (\<lambda>t. e_Pending E t (r_Payload Response)) (\<lambda>p. EiPending (map_option fst p));
              _ \<leftarrow> (case Pending of None \<Rightarrow> State_Monad.return () | Some (PendingUri, _) \<Rightarrow> tell (EiSetSettingsUri Uri PendingUri));
              let (SettingUri, ExpectedResponse) = (case Pending of None \<Rightarrow> (Uri, Response) | Some p \<Rightarrow> p);
              Json \<leftarrow> dump_payload E (r_Payload ExpectedResponse);
              Etag \<leftarrow> response_etag ExpectedResponse;
              r \<leftarrow> RedfishConsumeResourceCommon E (JsonStructProtocol Private) SettingUri Json Etag;
              case r of
                None \<Rightarrow> State_Monad.return None
              | Some Status \<Rightarrow> do {
                  free FResponse;
                  free FResponse;
                  _ \<leftarrow> free_json Json;
                  _ \<leftarrow> (if Etag \<noteq> None then free FEtag else State_Monad.return ());
                  _ \<leftarrow> (if Pending \<noteq> None then free FPending else State_Monad.return ());
                  State_Monad.return (Some Status)
                }
            }
          })"

definition RedfishResourceUpdate :: "ei_env \<Rightarrow> ei_private option \<Rightarrow> string \<Rightarrow> efi_status ei" where
  "RedfishResourceUpdate E This Uri =
     (case This of
        None \<Rightarrow> State_Monad.return EFI_INVALID_PARAMETER
      | Some Private \<Rightarrow>
          if Uri = [] then State_Monad.return EFI_INVALID_PARAMETER
          else if \<not> RedfishService Private then State_Monad.return EFI_NOT_READY
          else do {
            (Status, Response) \<leftarrow> ei_get E Uri;
            if EFI_ERROR Status then State_Monad.return Status
            else do {
              Json \<leftarrow> dump_payload E (r_Payload Response);
              Status \<leftarrow> RedfishUpdateResourceCommon E Uri;
              _ \<leftarrow> (if EFI_ERROR Status then State_Monad.return () else tell (EiSetEtag Uri));
              free FResponse;
              _ \<leftarrow> free_json Json;
              State_Monad.return Status
            }
          })"

definition RedfishResourceCheck :: "ei_env \<Rightarrow> ei_private option \<Rightarrow> string \<Rightarrow> efi_status ei" where
  "RedfishResourceCheck E This Uri =
     (case This of
        None \<Rightarrow> State_Monad.return EFI_INVALID_PARAMETER
      | Some Private \<Rightarrow>
          if Uri = [] then State_Monad.return EFI_INVALID_PARAMETER
          else if \<not> RedfishService Private then State_Monad.return EFI_NOT_READY
          else do {
            (Status, Response) \<leftarrow> ei_get E Uri;
            if EFI_ERROR Status then State_Monad.return Status
            else do {
              Json \<leftarrow> dump_payload E (r_Payload Response);
              Etag \<leftarrow> response_etag Response;
              Status \<leftarrow> RedfishCheckResourceCommon E Json;
              _ \<leftarrow> (if Etag \<noteq> None then free FEtag else State_Monad.return ());
              free FResponse;
              _ \<leftarrow> free_json Json;
              State_Monad.return Status
            }
          })"

definition RedfishResourceIdentify :: "ei_env \<Rightarrow> ei_private option \<Rightarrow> string \<Rightarrow> efi_status ei" where
  "RedfishResourceIdentify E This Uri =
     (case This of
        None \<Rightarrow> State_Monad.return EFI_INVALID_PARAMETER
      | Some Private \<Rightarrow>
          if Uri = [] then State_Monad.return EFI_INVALID_PARAMETER
          else if \<not> RedfishService Private then State_Monad.return EFI_NOT_READY
          else do {
            (Status, Response) \<leftarrow> ei_get E Uri;
            if EFI_ERROR Status then State_Monad.return Status
            else do {
              Json \<leftarrow> dump_payload E (r_Payload Response);
              Status \<leftarrow> RedfishIdentifyResourceCommon E Uri Json;
              free FResponse;
              _ \<leftarrow> free_json Json;
              State_Monad.return Status
            }
          })"

definition RESOURCE_SCHEMA :: string where "RESOURCE_SCHEMA = ''EthernetInterface''"
definition RESOURCE_SCHEMA_MAJOR :: string where "RESOURCE_SCHEMA_MAJOR = ''1''"
definition RESOURCE_SCHEMA_MINOR :: string where "RESOURCE_SCHEMA_MINOR = ''8''"
definition RESOURCE_SCHEMA_ERRATA :: string where "RESOURCE_SCHEMA_ERRATA = ''0''"

text \<open>Schema, major, minor and errata number; the arguments tell whether the pointers are given.\<close>

definition RedfishResourceGetInfo :: "bool \<Rightarrow> bool \<Rightarrow> efi_status \<times> (string \<times> string \<times> string \<times> string) option" where
  "RedfishResourceGetInfo HasThis HasInfo =
     (if \<not> HasThis \<or> \<not> HasInfo then (EFI_INVALID_PARAMETER, None)
      else (EFI_SUCCESS, Some (RESOURCE_SCHEMA, RESOURCE_SCHEMA_MAJOR, RESOURCE_SCHEMA_MINOR, RESOURCE_SCHEMA_ERRATA)))"

section \<open>The life of the driver\<close>

definition RedfishResourceInit :: "ei_env \<Rightarrow> ei_private \<Rightarrow> (efi_status \<times> ei_private) ei" where
  "RedfishResourceInit E Private = do {
     Service \<leftarrow> ask (e_EiCreateService E) EiCreateService;
     State_Monad.return (if Service then EFI_SUCCESS else EFI_DEVICE_ERROR, Private\<lparr>RedfishService := Service\<rparr>)
   }"

definition RedfishResourceStop :: "ei_private \<Rightarrow> (efi_status \<times> ei_private) ei" where
  "RedfishResourceStop Private = do {
     _ \<leftarrow> (if PrivateEvent Private then tell EiCloseEvent else State_Monad.return ());
     _ \<leftarrow> (if RedfishService Private then tell EiCleanupService else State_Monad.return ());
     State_Monad.return (EFI_SUCCESS, Private\<lparr>PrivateEvent := False, RedfishService := False\<rparr>)
   }"

text \<open>The callbacks work on the global pointer to the private structure.\<close>

definition EfiRestJasonStructureProtocolIsReady :: "ei_env \<Rightarrow> ei_private option \<Rightarrow> ei_private option ei" where
  "EfiRestJasonStructureProtocolIsReady E mPrivate =
     (case mPrivate of
        None \<Rightarrow> State_Monad.return None
      | Some Private \<Rightarrow>
          if JsonStructProtocol Private then State_Monad.return mPrivate
          else do {
            Found \<leftarrow> ask (e_LocateJsonStruct E) EiLocateJsonStruct;
            tell EiCloseEvent;
            State_Monad.return (Some (Private\<lparr>JsonStructProtocol := Found\<rparr>))
          })"

definition RedfishResourceUnload :: "ei_env \<Rightarrow> ei_private option \<Rightarrow> (efi_status \<times> ei_private option) ei" where
  "RedfishResourceUnload E mPrivate =
     (case mPrivate of
        None \<Rightarrow> State_Monad.return (EFI_NOT_READY, None)
      | Some Private \<Rightarrow> do {
          (Status, ConfigHandler) \<leftarrow> ask (e_OpenHandler E) (\<lambda>(s, h). EiOpenHandler s h);
          if EFI_ERROR Status \<or> \<not> ConfigHandler then State_Monad.return (Status, mPrivate)
          else do {
            _ \<leftarrow> RedfishResourceStop Private;
            Status \<leftarrow> ask (e_Uninstall E) EiUninstall;
            tell EiFreePrivate;
            State_Monad.return (Status, None)
          }
        })"

text \<open>The status is None after a write through the null pointer of a failed allocation.\<close>

definition RedfishResourceEntryPoint :: "ei_env \<Rightarrow> ei_private option \<Rightarrow> (efi_status option \<times> ei_private option) ei" where
  "RedfishResourceEntryPoint E mPrivate =
     (if mPrivate \<noteq> None then State_Monad.return (Some EFI_ALREADY_STARTED, mPrivate)
      else do {
        Allocated \<leftarrow> ask (e_AllocPrivate E) EiAllocPrivate;
        if \<not> Allocated then do { tell EiFault; State_Monad.return (None, None) }
        else do {
          Status \<leftarrow> ask (e_Install E) EiInstall;
          tell EiNotifyEvent;
          State_Monad.return (Some Status, Some \<lparr>RedfishService = False, JsonStructProtocol = False, PrivateEvent = False\<rparr>)
        }
      })"

section \<open>What is acquired is given back\<close>

fun acquires :: "ei_event \<Rightarrow> ei_res multiset" where
  "acquires (EiGetLang _ _ l) = (if l = None then {#} else {#FLang#})"
| "acquires (EiJsonLoad ok) = (if ok then {#FJsonValue#} else {#})"
| "acquires (EiToStructure s) = (if EFI_ERROR s then {#} else {#FStructure#})"
| "acquires (EiPropString _ v) = (if v = None then {#} else {#FString#})"
| "acquires (EiPropBool _ v) = (if v = None then {#} else {#FString#})"
| "acquires (EiNewPayload ok) = (if ok then {#FJsonValue#} else {#})"
| "acquires (EiDump ok) = (if ok then {#FJsonText#} else {#})"
| "acquires (EiPost _ _ _) = {#FResponse#}"
| "acquires (EiPatch _ _ _) = {#FResponse#}"
| "acquires (EiLocation l) = (if l = None then {#} else {#FLocation#})"
| "acquires (EiLangList s l) = (if EFI_ERROR s \<or> l = [] then {#} else add_mset FLangList (replicate_mset (length l) FLang))"
| "acquires (EiConfigLanguage _ l) = (if l = None then {#} else {#FLang#})"
| "acquires (EiGet _ s) = (if EFI_ERROR s then {#} else {#FResponse#})"
| "acquires (EiPending p) = (if p = None then {#FResponse#} else {#FResponse, FPending#})"
| "acquires (EiHeaderEtag e) = (if e = None then {#} else {#FEtag#})"
| "acquires (EiCollectionGet _ _) = {#FResponse#}"
| "acquires (EiCollection s _) = (if EFI_ERROR s then {#} else {#FStructure#})"
| "acquires (EiMemberUri ok) = (if ok then {#FString#} else {#})"
| "acquires (EiArrayIndex s) = (if EFI_ERROR s \<and> s \<noteq> EFI_NOT_FOUND then {#} else {#FReturnedLang#})"
| "acquires (EiAllocExchange ok) = (if ok then {#FExchangeList#} else {#})"
| "acquires (EiReturnLang _ _ ok) = (if ok then {#FExchangeLang#} else {#})"
| "acquires (EiVersion v) = (if v = None then {#} else {#FVersion#})"
| "acquires _ = {#}"

fun releases :: "ei_event \<Rightarrow> ei_res multiset" where
  "releases (EiFree r) = {#r#}"
| "releases _ = {#}"

text \<open>
  What an event leaves behind for good: the language without its index that GetArrayIndexFromArrayTypeConfigureLang
  hands out, the list in the exchange structure of the caller with the copied language in it, and
  the configure language of the exit on which that list could not be allocated.
\<close>

fun keeps :: "ei_event \<Rightarrow> ei_res multiset" where
  "keeps (EiArrayIndex s) = (if EFI_ERROR s \<and> s \<noteq> EFI_NOT_FOUND then {#} else {#FReturnedLang#})"
| "keeps (EiAllocExchange ok) = (if ok then {#FExchangeList#} else {#FLang#})"
| "keeps (EiReturnLang _ _ ok) = (if ok then {#FExchangeLang#} else {#})"
| "keeps _ = {#}"

definition acquired :: "ei_trace \<Rightarrow> ei_res multiset" where
  "acquired es = sum_list (map acquires es)"

definition released :: "ei_trace \<Rightarrow> ei_res multiset" where
  "released es = sum_list (map releases es)"

definition kept :: "ei_trace \<Rightarrow> ei_res multiset" where
  "kept es = sum_list (map keeps es)"

lemma account_simps [simp]:
  "acquired [] = {#}" "acquired (e # es) = acquires e + acquired es" "acquired (xs @ ys) = acquired xs + acquired ys"
  "released [] = {#}" "released (e # es) = releases e + released es" "released (xs @ ys) = released xs + released ys"
  "kept [] = {#}" "kept (e # es) = keeps e + kept es" "kept (xs @ ys) = kept xs + kept ys"
  by (simp_all add: acquired_def released_def kept_def)

abbreviation balanced :: "ei_trace \<Rightarrow> bool" where
  "balanced es \<equiv> acquired es = released es"

fun is_post :: "ei_event \<Rightarrow> bool" where
  "is_post (EiPost _ _ _) = True"
| "is_post _ = False"

text \<open>A run that creates no resource, and one that in addition gives back all it acquires and keeps nothing.\<close>

definition postless :: "ei_trace \<Rightarrow> bool" where
  "postless es = list_all (\<lambda>e. \<not> is_post e) es"

lemma postless_simps [simp]: "postless []" "postless (e # es) \<longleftrightarrow> \<not> is_post e \<and> postless es"
  "postless (xs @ ys) \<longleftrightarrow> postless xs \<and> postless ys"
  by (simp_all add: postless_def)

abbreviation tidy :: "ei_trace \<Rightarrow> bool" where
  "tidy es \<equiv> balanced es \<and> postless es \<and> kept es = {#}"

lemma string_balanced: "yields (ConsumeStringProperty E i n v) (\<lambda>_ es. tidy es)"
  unfolding ConsumeStringProperty_def free_def by (auto intro!: yields_intros)

lemma dhcp_balanced: "yields (consume_dhcp E Cs) (\<lambda>_ es. tidy es)"
  unfolding consume_dhcp_def free_def by (auto split: option.splits intro!: yields_intros)

lemma name_servers_balanced: "yields (consume_name_servers E Cs) (\<lambda>_ es. tidy es)"
  unfolding consume_name_servers_def
  by (auto split: list.splits intro!: yields_intros yields_bind [OF string_balanced] yields_weaken [OF string_balanced])

lemma addresses_balanced: "yields (ConsumeStaticAddresses E Cs) (\<lambda>_ es. tidy es)"
  unfolding ConsumeStaticAddresses_def free_def
  by (auto split: list.splits cs_element.splits option.splits
      intro!: yields_intros yields_bind [OF string_balanced] yields_weaken [OF string_balanced])

lemma consume_balanced: "yields (RedfishConsumeResourceCommon E True u j h) (\<lambda>r es. tidy es \<and> r \<noteq> None)"
  unfolding RedfishConsumeResourceCommon_def free_def
  by (auto split: option.splits intro!: yields_intros yields_bind [OF dhcp_balanced] yields_bind [OF addresses_balanced]
      yields_bind [OF name_servers_balanced])

lemma fetch_nets: "yields (FetchStringProperty E n l) (\<lambda>v es. acquired es = released es + (if v = None then {#} else {#FString#}) \<and> postless es \<and> kept es = {#} \<and> v \<noteq> Some [])"
  unfolding FetchStringProperty_def free_def by (auto intro!: yields_intros)

lemma set_string_balanced: "yields (set_string E ms k v) (\<lambda>_ es. tidy es)"
  unfolding set_string_def json_alloc_def by (auto split: option.splits intro!: yields_intros)

lemma append_string_balanced: "yields (append_string E js v) (\<lambda>_ es. tidy es)"
  unfolding append_string_def json_alloc_def by (auto split: option.splits intro!: yields_intros)

lemma free_string_nets: "yields (free_string v) (\<lambda>_ es. released es = acquired es + (if v = None then {#} else {#FString#}) \<and> postless es \<and> kept es = {#})"
  unfolding free_string_def free_def by (auto intro!: yields_intros)

lemma json_alloc_balanced: "yields (json_alloc E) (\<lambda>_ es. tidy es)"
  unfolding json_alloc_def by (auto intro!: yields_intros)

lemmas build_steps = yields_bind [OF set_string_balanced] yields_bind [OF append_string_balanced] yields_bind [OF json_alloc_balanced]
  yields_bind [OF fetch_nets] yields_bind [OF free_string_nets]

lemma identity_balanced: "yields (build_identity E i) (\<lambda>_ es. tidy es)"
  unfolding build_identity_def
  by (auto split: option.splits intro!: yields_intros build_steps yields_weaken [OF set_string_balanced])

lemma mac_balanced: "yields (build_mac E l ms) (\<lambda>_ es. tidy es)"
  unfolding build_mac_def by (auto intro!: yields_return build_steps)

lemma build_dhcp_balanced: "yields (build_dhcp E l r) (\<lambda>_ es. tidy es)"
  unfolding build_dhcp_def json_alloc_def free_def by (auto split: option.splits intro!: yields_flat yields_intros)

lemma build_addresses_balanced: "yields (build_addresses E l r) (\<lambda>_ es. tidy es)"
  unfolding build_addresses_def by (intro yields_flat yields_if yields_return build_steps) auto

lemma build_name_servers_balanced: "yields (build_name_servers E l r) (\<lambda>_ es. tidy es)"
  unfolding build_name_servers_def by (intro yields_flat yields_if yields_return build_steps) auto

text \<open>A built payload is handed to the caller as text; without one there is an error and nothing to free.\<close>

lemma build_nets:
  "yields (BuildEthernetInterfacePayload E l i)
     (\<lambda>(s, j) es. acquired es = released es + (if j = None then {#} else {#FJsonText#}) \<and> postless es \<and> kept es = {#} \<and> (j = None \<longleftrightarrow> EFI_ERROR s))"
  unfolding BuildEthernetInterfacePayload_def free_def
  by (auto split: if_splits intro!: yields_intros yields_bind [OF identity_balanced] yields_bind [OF mac_balanced] yields_bind [OF build_dhcp_balanced]
      yields_bind [OF build_addresses_balanced] yields_bind [OF build_name_servers_balanced])

lemma provision_one_balanced: "yields (ProvisioningEthernetInterfaceResource E L u n l) (\<lambda>_ es. balanced es \<and> kept es = {#})"
  unfolding ProvisioningEthernetInterfaceResource_def ei_post_def free_def
  apply (rule yields_bind [OF build_nets])
  apply (auto intro!: yields_flat yields_intros)
  done

lemma provision_loop_nets:
  "yields (provision_loop E L u ls s) (\<lambda>_ es. released es = acquired es + replicate_mset (length ls) FLang \<and> kept es = {#})"
proof (induction ls arbitrary: s)
  case (Cons a ls)
  show ?case
    by (cases a) (auto simp: free_def intro!: yields_bind [OF provision_one_balanced] yields_tell_bind yields_weaken [OF Cons])
qed (simp add: yields_return)

lemma provision_all_balanced: "yields (ProvisioningEthernetInterfaceResources E L u) (\<lambda>_ es. balanced es \<and> kept es = {#})"
  unfolding ProvisioningEthernetInterfaceResources_def get_lang_list_def free_def
  by (auto split: if_splits intro!: yields_intros yields_bind [OF provision_loop_nets])

lemma provision_exist_balanced: "yields (ProvisioningEthernetInterfaceExistResource E u) (\<lambda>_ es. tidy es)"
  unfolding ProvisioningEthernetInterfaceExistResource_def get_config_language_def free_def
  apply (intro yields_ask_bind yields_option yields_return)
   apply simp
  apply (rule yields_bind [OF build_nets])
  apply (auto intro!: yields_flat yields_intros)
  done

lemma provision_balanced: "yields (RedfishProvisioningResourceCommon E L u b) (\<lambda>_ es. balanced es \<and> kept es = {#} \<and> (b \<longrightarrow> postless es))"
  unfolding RedfishProvisioningResourceCommon_def
  by (cases b) (auto intro: yields_weaken [OF provision_all_balanced] yields_weaken [OF provision_exist_balanced])

lemma check_balanced: "yields (RedfishCheckResourceCommon E j) (\<lambda>_ es. tidy es)"
  unfolding RedfishCheckResourceCommon_def free_def by (auto simp: Let_def split: option.splits intro!: yields_intros)

lemma free_langs_nets: "yields (free_langs ls) (\<lambda>_ es. released es = acquired es + replicate_mset (length ls) FLang \<and> postless es \<and> kept es = {#})"
proof (induction ls)
  case (Cons a ls)
  show ?case
    by (auto simp: free_def intro!: yields_tell_bind yields_weaken [OF Cons])
qed (simp add: yields_return)

lemma identify_balanced: "yields (RedfishIdentifyResourceCommon E u j) (\<lambda>_ es. tidy es)"
  unfolding RedfishIdentifyResourceCommon_def get_lang_list_def
  by (auto simp: Let_def free_def [of FLangList] split: if_splits intro!: yields_flat yields_intros yields_bind [OF free_langs_nets])

lemma free_json_nets: "yields (free_json j) (\<lambda>_ es. released es = acquired es + (if j = None then {#} else {#FJsonText#}) \<and> postless es \<and> kept es = {#})"
  unfolding free_json_def free_def by (auto intro!: yields_intros)

lemma dump_nets: "yields (dump_payload E p) (\<lambda>j es. acquired es = released es + (if j = None then {#} else {#FJsonText#}) \<and> postless es \<and> kept es = {#})"
  unfolding dump_payload_def by (auto intro!: yields_intros)

lemma etag_nets: "yields (response_etag r) (\<lambda>e es. acquired es = released es + (if e = None then {#} else {#FEtag#}) \<and> postless es \<and> kept es = {#})"
  unfolding response_etag_def by (auto intro!: yields_intros)

lemmas ei_operations = RedfishResourceProvisioningResource_def RedfishResourceUpdate_def RedfishResourceCheck_def
  RedfishResourceIdentify_def RedfishUpdateResourceCommon_def ei_get_def free_def

text \<open>The four operations that return a status give back all they acquire, whatever they are answered.\<close>

lemma operations_balanced:
  "yields (RedfishResourceProvisioningResource E L P u b) (\<lambda>_ es. balanced es \<and> kept es = {#} \<and> (\<not> b \<longrightarrow> postless es))"
  "yields (RedfishResourceUpdate E P u) (\<lambda>_ es. tidy es)"
  "yields (RedfishResourceCheck E P u) (\<lambda>_ es. tidy es)"
  "yields (RedfishResourceIdentify E P u) (\<lambda>_ es. tidy es)"
  unfolding ei_operations
     apply (auto split: option.splits intro!: yields_flat yields_intros yields_bind [OF provision_balanced])
    apply (auto intro!: yields_flat yields_intros yields_bind [OF dump_nets] yields_bind [OF provision_exist_balanced] yields_bind [OF free_json_nets]
      yields_bind [OF etag_nets] yields_bind [OF check_balanced] yields_bind [OF identify_balanced])
  done

text \<open>The consuming operation as well, once the converter has been found.\<close>

lemma consume_op_balanced:
  assumes "case P of None \<Rightarrow> True | Some p \<Rightarrow> JsonStructProtocol p"
  shows "yields (RedfishResourceConsumeResource E P u) (\<lambda>r es. tidy es \<and> r \<noteq> None)"
  using assms
  unfolding RedfishResourceConsumeResource_def ei_get_def free_def
  by (auto simp: Let_def split: option.splits prod.splits intro!: yields_flat yields_intros yields_bind [OF dump_nets]
      yields_bind [OF etag_nets] yields_bind [OF consume_balanced] yields_bind [OF free_json_nets])

section \<open>The payload\<close>

text \<open>
  The questions behind an instance: the answer to each string property and to the DHCP property, the
  same at every time; and memory for every JSON value.
\<close>

definition questions :: "ei_env \<Rightarrow> string \<Rightarrow> (string \<Rightarrow> u8 list option) \<Rightarrow> bool option \<Rightarrow> bool" where
  "questions E l P D \<longleftrightarrow> (\<forall>t n. e_PropString E t n l = P n) \<and> (\<forall>t n. e_PropBool E t n l = D) \<and> (\<forall>t. e_JsonAlloc E t \<and> e_Dump E t)"

definition fetched :: "(string \<Rightarrow> u8 list option) \<Rightarrow> string \<Rightarrow> u8 list option" where
  "fetched P n = (if P n = Some [] then None else P n)"

definition member :: "string \<Rightarrow> u8 list option \<Rightarrow> json_members" where
  "member k v = (case v of None \<Rightarrow> [] | Some s \<Rightarrow> [(ascii k, JStr s)])"

definition strings :: "u8 list option \<Rightarrow> json list" where
  "strings v = (case v of None \<Rightarrow> [] | Some s \<Rightarrow> [JStr s])"

definition address_entry :: "(string \<Rightarrow> u8 list option) \<Rightarrow> json list" where
  "address_entry P = (if fetched P ETH_LANG_ADDRESS = None then []
     else [JObj (member ''Address'' (fetched P ETH_LANG_ADDRESS) @ member ''SubnetMask'' (fetched P ETH_LANG_SUBNET_MASK) @
       member ''Gateway'' (fetched P ETH_LANG_GATEWAY))])"

definition payload :: "u8 list option \<Rightarrow> (string \<Rightarrow> u8 list option) \<Rightarrow> bool option \<Rightarrow> json_members" where
  "payload i P D =
     (case i of None \<Rightarrow> [] | Some m \<Rightarrow> [(ascii ''@odata.type'', JStr (ascii ''#EthernetInterface.v1_8_0.EthernetInterface'')),
        (ascii ''Id'', JStr m), (ascii ''Name'', JStr (ascii ''Ethernet Interface''))]) @
     member ''MACAddress'' (fetched P ''MACAddress'') @
     (case D of None \<Rightarrow> [] | Some d \<Rightarrow> [(ascii ''DHCPv4'', JObj [(ascii ''DHCPEnabled'', JBool d)])]) @
     [(ascii ''IPv4StaticAddresses'', JArr (address_entry P)),
      (ascii ''StaticNameServers'', JArr (strings (fetched P ETH_LANG_DNS1) @ strings (fetched P ETH_LANG_DNS2)))]"

lemmas eth_langs = ETH_LANG_ADDRESS_def ETH_LANG_SUBNET_MASK_def ETH_LANG_GATEWAY_def ETH_LANG_DNS1_def ETH_LANG_DNS2_def
  ETH_LANG_DHCP_ENABLED_def

lemma questions_ask:
  assumes "questions E l P D"
  shows "yields (FetchStringProperty E n l) (\<lambda>v _. v = fetched P n)" "yields (json_alloc E) (\<lambda>ok _. ok)"
  using assms unfolding questions_def FetchStringProperty_def json_alloc_def free_def fetched_def
  by (auto simp: yields_def)

lemma questions_set:
  assumes "questions E l P D"
  shows "yields (set_string E ms k v) (\<lambda>r _. r = ms @ member k v)" "yields (append_string E js v) (\<lambda>r _. r = js @ strings v)"
    "yields (free_string v) (\<lambda>_ _. True)"
  using assms
  by (auto simp: set_string_def append_string_def free_string_def free_def member_def strings_def split: option.splits
      intro!: yields_intros yields_bind [OF questions_ask(2)])

lemma questions_build:
  assumes "questions E l P D"
  shows "yields (BuildEthernetInterfacePayload E l i) (\<lambda>r _. r = (EFI_SUCCESS, Some (JObj (payload i P D))))"
proof -
  note q = assms [unfolded questions_def]
  note steps = yields_bind [OF questions_ask(1) [OF assms]] yields_bind [OF questions_ask(2) [OF assms]]
    yields_bind [OF questions_set(1) [OF assms]] yields_bind [OF questions_set(2) [OF assms]] yields_bind [OF questions_set(3) [OF assms]]
  have id: "yields (build_identity E i) (\<lambda>r _. r = (case i of None \<Rightarrow> [] | Some m \<Rightarrow>
      [(ascii ''@odata.type'', JStr (ascii ''#EthernetInterface.v1_8_0.EthernetInterface'')),
        (ascii ''Id'', JStr m), (ascii ''Name'', JStr (ascii ''Ethernet Interface''))]))"
    unfolding build_identity_def
    by (auto simp: member_def split: option.splits intro!: yields_intros steps yields_weaken [OF questions_set(1) [OF assms]])
  have mac: "yields (build_mac E l ms) (\<lambda>r _. r = (ms @ member ''MACAddress'' (fetched P ''MACAddress''), fetched P ''MACAddress'' \<noteq> None))" for ms
    unfolding build_mac_def by (auto intro!: yields_return steps)
  have dhcp: "yields (build_dhcp E l r) (\<lambda>r' _. r' = (fst r @ (case D of None \<Rightarrow> [] | Some d \<Rightarrow> [(ascii ''DHCPv4'', JObj [(ascii ''DHCPEnabled'', JBool d)])]),
      snd r \<or> D \<noteq> None))" for r
    unfolding build_dhcp_def free_def
    apply (rule yields_ask_const [where v = D])
    using q by (auto split: option.splits intro!: yields_flat yields_intros steps)
  have addr: "yields (build_addresses E l r) (\<lambda>r' _. r' = (fst r @ [(ascii ''IPv4StaticAddresses'', JArr (address_entry P))], True))" for r
    unfolding build_addresses_def address_entry_def eth_langs
    by (intro yields_flat yields_if yields_return steps) auto
  have dns: "yields (build_name_servers E l r)
      (\<lambda>r' _. r' = (fst r @ [(ascii ''StaticNameServers'', JArr (strings (fetched P ETH_LANG_DNS1) @ strings (fetched P ETH_LANG_DNS2)))], True))" for r
    unfolding build_name_servers_def eth_langs
    by (intro yields_flat yields_if yields_return steps) auto
  show ?thesis
    unfolding BuildEthernetInterfacePayload_def free_def
    apply (rule yields_ask_const [where v = True])
    using q apply simp
    apply simp
    apply (rule yields_bind [OF id], rule yields_bind [OF mac], rule yields_bind [OF dhcp], rule yields_bind [OF addr], rule yields_bind [OF dns])
    apply (auto simp: payload_def intro!: yields_tell_bind yields_return yields_ask_const [where v = True])
    using q by simp
qed

section \<open>What is applied\<close>

datatype setting = SBool bool | SString "u8 list"

text \<open>The values handed to the HII services, under their configure languages, and those among them that were taken.\<close>

fun handed_by :: "ei_event \<Rightarrow> (string \<times> setting) list" where
  "handed_by (EiApplyString l v _) = [(l, SString v)]"
| "handed_by (EiApplyBool l b _) = [(l, SBool b)]"
| "handed_by _ = []"

fun refused :: "ei_event \<Rightarrow> bool" where
  "refused (EiApplyString _ _ s) = EFI_ERROR s"
| "refused (EiApplyBool _ _ s) = EFI_ERROR s"
| "refused _ = False"

definition handed :: "ei_trace \<Rightarrow> (string \<times> setting) list" where
  "handed es = concat (map handed_by es)"

definition applied :: "ei_trace \<Rightarrow> (string \<times> setting) list" where
  "applied es = handed (filter (\<lambda>e. \<not> refused e) es)"

lemma handed_simps [simp]: "handed [] = []" "handed (e # es) = handed_by e @ handed es"
  "handed (xs @ ys) = handed xs @ handed ys"
  by (simp_all add: handed_def)

lemma applied_simps [simp]: "applied [] = []" "applied (e # es) = (if refused e then [] else handed_by e) @ applied es"
  "applied (xs @ ys) = applied xs @ applied ys"
  by (simp_all add: applied_def)

text \<open>HII services that take every value.\<close>

definition accepts :: "ei_env \<Rightarrow> bool" where
  "accepts E \<longleftrightarrow> (\<forall>t l v. \<not> EFI_ERROR (e_ApplyString E t l v)) \<and> (\<forall>t l b. \<not> EFI_ERROR (e_ApplyBool E t l b))"

definition content :: "u8 list option \<Rightarrow> u8 list" where
  "content v = (case v of None \<Rightarrow> [] | Some s \<Rightarrow> s)"

text \<open>What a structure asks for, as pairs of a configure-language tail and a value.\<close>

definition settings :: "eth_cs \<Rightarrow> (string \<times> setting) list" where
  "settings Cs =
     (case DHCPv4 Cs of Some (Some d) \<Rightarrow> [(ETH_LANG_DHCP_ENABLED, SBool d)] | _ \<Rightarrow> []) @
     (case IPv4StaticAddresses Cs of
        [] \<Rightarrow> [(ETH_LANG_ADDRESS, SString []), (ETH_LANG_SUBNET_MASK, SString []), (ETH_LANG_GATEWAY, SString [])]
      | CsJson (Some (Some el)) # _ \<Rightarrow>
          [(ETH_LANG_ADDRESS, SString (content (JsonObjectAsciiMember el ''Address''))),
           (ETH_LANG_SUBNET_MASK, SString (content (JsonObjectAsciiMember el ''SubnetMask''))),
           (ETH_LANG_GATEWAY, SString (content (JsonObjectAsciiMember el ''Gateway'')))]
      | _ \<Rightarrow> []) @
     (case StaticNameServers Cs of
        [] \<Rightarrow> []
      | n # ns \<Rightarrow> [(ETH_LANG_DNS1, SString n), (ETH_LANG_DNS2, SString (case ns of [] \<Rightarrow> [] | m # _ \<Rightarrow> m))])"

text \<open>The settings whose question is published, under their configure language.\<close>

definition published :: "(string \<Rightarrow> string option) \<Rightarrow> (string \<times> setting) list \<Rightarrow> (string \<times> setting) list" where
  "published G ss = concat (map (\<lambda>(n, s). case G n of None \<Rightarrow> [] | Some l \<Rightarrow> [(l, s)]) ss)"

lemma published_simps [simp]: "published G [] = []"
  "published G ((n, s) # ss) = (case G n of None \<Rightarrow> [] | Some l \<Rightarrow> [(l, s)]) @ published G ss"
  "published G (xs @ ys) = published G xs @ published G ys"
  by (simp_all add: published_def)

definition languages :: "ei_env \<Rightarrow> string \<Rightarrow> (string \<Rightarrow> string option) \<Rightarrow> bool" where
  "languages E i G \<longleftrightarrow> (\<forall>t n. e_GetLang E t i n = G n) \<and> (\<forall>t. e_JsonLoad E t)"

lemma taken_bind:
  "(\<And>s. accepts E \<longrightarrow> \<not> EFI_ERROR s \<Longrightarrow> yields (f s) (\<lambda>r es. Q r (EiApplyString l v s # es))) \<Longrightarrow>
   yields (State_Monad.bind (ask (\<lambda>t. e_ApplyString E t l v) (EiApplyString l v)) f) Q"
  "(\<And>s. accepts E \<longrightarrow> \<not> EFI_ERROR s \<Longrightarrow> yields (f s) (\<lambda>r es. Q r (EiApplyBool l b s # es))) \<Longrightarrow>
   yields (State_Monad.bind (ask (\<lambda>t. e_ApplyBool E t l b) (EiApplyBool l b)) f) Q"
  by (rule yields_ask_from [where P = "\<lambda>s. accepts E \<longrightarrow> \<not> EFI_ERROR s"]; simp add: accepts_def)+

lemma string_applied:
  assumes "languages E i G"
  shows "yields (ConsumeStringProperty E i n v) (\<lambda>_ es. handed es = published G [(n, SString (content v))] \<and> (accepts E \<longrightarrow> applied es = handed es))"
  unfolding ConsumeStringProperty_def free_def
  apply (rule yields_ask_const [where v = "G n"])
  using assms apply (simp add: languages_def)
  by (cases "G n") (auto simp: content_def Let_def intro!: yields_return yields_tell taken_bind)

lemma dhcp_applied:
  assumes "languages E (odata_id Cs) G"
  shows "yields (consume_dhcp E Cs) (\<lambda>_ es. handed es =
    published G (case DHCPv4 Cs of Some (Some d) \<Rightarrow> [(ETH_LANG_DHCP_ENABLED, SBool d)] | _ \<Rightarrow> []) \<and> (accepts E \<longrightarrow> applied es = handed es))"
proof (cases "\<exists>d. DHCPv4 Cs = Some (Some d)")
  case True
  then obtain d where d: "DHCPv4 Cs = Some (Some d)" by blast
  show ?thesis
    unfolding consume_dhcp_def free_def d option.case
    apply (rule yields_ask_const [where v = "G ETH_LANG_DHCP_ENABLED"])
    using assms apply (simp add: languages_def)
    by (cases "G ETH_LANG_DHCP_ENABLED") (auto intro!: yields_return yields_tell taken_bind)
qed (auto simp: consume_dhcp_def split: option.splits intro!: yields_return)

lemma name_servers_applied:
  assumes "languages E (odata_id Cs) G"
  shows "yields (consume_name_servers E Cs) (\<lambda>_ es. handed es = published G (case StaticNameServers Cs of
        [] \<Rightarrow> []
      | n # ns \<Rightarrow> [(ETH_LANG_DNS1, SString n), (ETH_LANG_DNS2, SString (case ns of [] \<Rightarrow> [] | m # _ \<Rightarrow> m))]) \<and> (accepts E \<longrightarrow> applied es = handed es))"
  unfolding consume_name_servers_def
  by (auto simp: content_def split: list.splits intro!: yields_return yields_bind [OF string_applied [OF assms]]
      yields_weaken [OF string_applied [OF assms]])

lemma addresses_applied:
  assumes "languages E (odata_id Cs) G"
  shows "yields (ConsumeStaticAddresses E Cs) (\<lambda>_ es. handed es = published G (case IPv4StaticAddresses Cs of
        [] \<Rightarrow> [(ETH_LANG_ADDRESS, SString []), (ETH_LANG_SUBNET_MASK, SString []), (ETH_LANG_GATEWAY, SString [])]
      | CsJson (Some (Some el)) # _ \<Rightarrow>
          [(ETH_LANG_ADDRESS, SString (content (JsonObjectAsciiMember el ''Address''))),
           (ETH_LANG_SUBNET_MASK, SString (content (JsonObjectAsciiMember el ''SubnetMask''))),
           (ETH_LANG_GATEWAY, SString (content (JsonObjectAsciiMember el ''Gateway'')))]
      | _ \<Rightarrow> []) \<and> (accepts E \<longrightarrow> applied es = handed es))"
proof -
  have none: "content None = []" by (simp add: content_def)
  note step = yields_bind [OF string_applied [OF assms]] yields_weaken [OF string_applied [OF assms]]
  show ?thesis
  proof (cases "IPv4StaticAddresses Cs")
    case Nil
    then show ?thesis
      unfolding ConsumeStaticAddresses_def by (auto simp: none intro!: step)
  next
    case (Cons e es)
    show ?thesis
    proof (cases e)
      case (CsJson x)
      show ?thesis
      proof (cases x)
        case (Some p)
        show ?thesis
          unfolding ConsumeStaticAddresses_def Cons CsJson Some list.case cs_element.case option.case free_def
          apply (rule yields_ask_const [where v = p])
          using assms by (auto simp: languages_def split: option.splits intro!: step yields_intros)
      qed (use Cons CsJson in \<open>auto simp: ConsumeStaticAddresses_def intro!: yields_return\<close>)
    qed (use Cons in \<open>auto simp: ConsumeStaticAddresses_def intro!: yields_return\<close>)
  qed
qed

lemma consume_applied:
  assumes "\<And>t. e_ToStructure E t j = (EFI_SUCCESS, Cs)" "\<And>t. \<not> e_CheckEtag E t u h (odata_etag Cs)" "languages E (odata_id Cs) G"
  shows "yields (RedfishConsumeResourceCommon E True u (Some j) h) (\<lambda>r es. r = Some EFI_SUCCESS \<and> handed es = published G (settings Cs) \<and>
    (accepts E \<longrightarrow> applied es = handed es))"
  unfolding RedfishConsumeResourceCommon_def free_def option.case
  apply (simp only: simp_thms if_False if_True)
  apply (rule yields_ask_const [OF assms(1)])
  apply (simp only: prod.case EFI_ERROR.simps if_False)
  apply (rule yields_ask_const [where v = False])
  using assms(2) apply simp
  apply (simp only: if_False)
  apply (rule yields_bind [OF dhcp_applied [OF assms(3)]], rule yields_bind [OF addresses_applied [OF assms(3)]],
      rule yields_bind [OF name_servers_applied [OF assms(3)]])
  apply (auto simp: settings_def intro!: yields_tell_bind yields_return)
  done

section \<open>A provisioned resource read back\<close>

text \<open>
  The structure the converter makes of a resource carries the properties of its JSON text: documented
  behaviour of the converter, for the properties this driver reads.
\<close>

fun json_bool :: "json option \<Rightarrow> bool option" where
  "json_bool (Some (JBool b)) = Some b"
| "json_bool _ = None"

fun json_array :: "json option \<Rightarrow> json list" where
  "json_array (Some (JArr js)) = js"
| "json_array _ = []"

fun json_text :: "json \<Rightarrow> u8 list list" where
  "json_text (JStr s) = [s]"
| "json_text _ = []"

definition mirrors :: "json \<Rightarrow> eth_cs \<Rightarrow> bool" where
  "mirrors j Cs \<longleftrightarrow>
     DHCPv4 Cs = map_option (\<lambda>d. json_bool (JsonObjectGetValue d ''DHCPEnabled'')) (JsonObjectGetValue j ''DHCPv4'') \<and>
     IPv4StaticAddresses Cs = map (\<lambda>e. CsJson (Some (Some e))) (json_array (JsonObjectGetValue j ''IPv4StaticAddresses'')) \<and>
     StaticNameServers Cs = concat (map json_text (json_array (JsonObjectGetValue j ''StaticNameServers'')))"

lemma key_eq: "ascii k = ascii k' \<longleftrightarrow> k = k'"
proof -
  have "unat (of_char c :: u8) = of_char c" for c
    using nat_of_char_less_256 [of c] by (simp add: unat_of_nat flip: of_nat_of_char [of c, where ?'a = "8 word"])
  then have "inj (of_char :: char \<Rightarrow> u8)"
    by (metis injI of_char_eq_iff)
  then show ?thesis
    unfolding ascii_def by (rule inj_map_eq_map)
qed

lemma payload_members:
  "JsonObjectGetValue (JObj (payload i P D)) ''DHCPv4'' = map_option (\<lambda>d. JObj [(ascii ''DHCPEnabled'', JBool d)]) D"
  "JsonObjectGetValue (JObj (payload i P D)) ''IPv4StaticAddresses'' = Some (JArr (address_entry P))"
  "JsonObjectGetValue (JObj (payload i P D)) ''StaticNameServers'' =
     Some (JArr (strings (fetched P ETH_LANG_DNS1) @ strings (fetched P ETH_LANG_DNS2)))"
  by (auto simp: payload_def member_def key_eq split: option.splits)

text \<open>The marker of the check is in a provisioned resource exactly when the DHCP question is published.\<close>

lemma check_marker: "JsonObjectGetValue (JObj (payload i P D)) ''DHCPv4'' \<noteq> None \<longleftrightarrow> D \<noteq> None"
  unfolding payload_members by simp

text \<open>The value a question holds now.\<close>

definition current_setting :: "(string \<Rightarrow> u8 list option) \<Rightarrow> bool option \<Rightarrow> string \<Rightarrow> setting" where
  "current_setting P D n = (if n = ETH_LANG_DHCP_ENABLED then SBool (D = Some True) else SString (content (P n)))"

text \<open>A mask or gateway only with an address, and a second name server only with a first.\<close>

definition without_gaps :: "(string \<Rightarrow> u8 list option) \<Rightarrow> bool" where
  "without_gaps P \<longleftrightarrow>
     (fetched P ETH_LANG_ADDRESS = None \<longrightarrow> fetched P ETH_LANG_SUBNET_MASK = None \<and> fetched P ETH_LANG_GATEWAY = None) \<and>
     (fetched P ETH_LANG_DNS1 = None \<longrightarrow> fetched P ETH_LANG_DNS2 = None)"

lemma content_fetched [simp]: "content (fetched P n) = content (P n)"
  by (auto simp: content_def fetched_def split: option.splits)

lemma fetched_none: "fetched P n = None \<Longrightarrow> content (P n) = []"
  using content_fetched [of P n] by (simp add: content_def del: content_fetched)

definition entry :: "(string \<Rightarrow> u8 list option) \<Rightarrow> json" where
  "entry P = JObj (member ''Address'' (fetched P ETH_LANG_ADDRESS) @ member ''SubnetMask'' (fetched P ETH_LANG_SUBNET_MASK) @
     member ''Gateway'' (fetched P ETH_LANG_GATEWAY))"

lemma member_lookup:
  "map_of (member k v @ ms) (ascii k') = (if k = k' \<and> v \<noteq> None then map_option JStr v else map_of ms (ascii k'))"
  by (auto simp: member_def key_eq split: option.splits)

lemma member_end: "map_of (member k v) (ascii k') = (if k = k' then map_option JStr v else None)"
  by (auto simp: member_def key_eq split: option.splits)

lemma ascii_member:
  "map_of ms (ascii k) = map_option JStr v \<Longrightarrow> (\<And>s. v = Some s \<Longrightarrow> 0 \<notin> set s) \<Longrightarrow>
   content (JsonObjectAsciiMember (JObj ms) k) = content v"
  by (cases v) (simp_all add: JsonObjectAsciiMember_def content_def)

lemma entry_members:
  assumes "\<And>n v. P n = Some v \<Longrightarrow> 0 \<notin> set v"
  shows "content (JsonObjectAsciiMember (entry P) ''Address'') = content (P ETH_LANG_ADDRESS)"
    "content (JsonObjectAsciiMember (entry P) ''SubnetMask'') = content (P ETH_LANG_SUBNET_MASK)"
    "content (JsonObjectAsciiMember (entry P) ''Gateway'') = content (P ETH_LANG_GATEWAY)"
proof -
  have nul: "fetched P n = Some v \<Longrightarrow> 0 \<notin> set v" for n v
    using assms [of n v] by (simp add: fetched_def split: if_splits)
  have get: "content (JsonObjectAsciiMember (JObj ms) k) = content (P n)" if "map_of ms (ascii k) = map_option JStr (fetched P n)" for ms k n
    using ascii_member [OF that] nul by simp
  show "content (JsonObjectAsciiMember (entry P) ''Address'') = content (P ETH_LANG_ADDRESS)"
    "content (JsonObjectAsciiMember (entry P) ''SubnetMask'') = content (P ETH_LANG_SUBNET_MASK)"
    "content (JsonObjectAsciiMember (entry P) ''Gateway'') = content (P ETH_LANG_GATEWAY)"
    unfolding entry_def by (rule get; simp add: member_lookup member_end del: map_of_append)+
qed

lemma address_entry_eq: "address_entry P = (if fetched P ETH_LANG_ADDRESS = None then [] else [entry P])"
  by (simp add: address_entry_def entry_def)

lemma langs_distinct: "ETH_LANG_ADDRESS \<noteq> ETH_LANG_DHCP_ENABLED" "ETH_LANG_SUBNET_MASK \<noteq> ETH_LANG_DHCP_ENABLED"
  "ETH_LANG_GATEWAY \<noteq> ETH_LANG_DHCP_ENABLED" "ETH_LANG_DNS1 \<noteq> ETH_LANG_DHCP_ENABLED" "ETH_LANG_DNS2 \<noteq> ETH_LANG_DHCP_ENABLED"
  by (simp_all add: eth_langs)

text \<open>
  The questions a provisioned resource carries: DHCP if it is published, the three of the static address
  always, the name servers if the first is set.
\<close>

definition covered :: "(string \<Rightarrow> u8 list option) \<Rightarrow> bool option \<Rightarrow> string list" where
  "covered P D = (if D = None then [] else [ETH_LANG_DHCP_ENABLED]) @ [ETH_LANG_ADDRESS, ETH_LANG_SUBNET_MASK, ETH_LANG_GATEWAY] @
     (if fetched P ETH_LANG_DNS1 = None then [] else [ETH_LANG_DNS1, ETH_LANG_DNS2])"

definition string_questions :: "string list" where
  "string_questions = [ETH_LANG_ADDRESS, ETH_LANG_SUBNET_MASK, ETH_LANG_GATEWAY, ETH_LANG_DNS1, ETH_LANG_DNS2]"

lemma covered_all:
  assumes "without_gaps P" "n \<in> set string_questions" "n \<notin> set (covered P D)"
  shows "content (P n) = []"
  using assms by (auto simp: covered_def string_questions_def without_gaps_def fetched_none split: if_splits)

lemma mirrored_settings:
  assumes "mirrors (JObj (payload i P D)) Cs" "without_gaps P" "\<And>n v. P n = Some v \<Longrightarrow> 0 \<notin> set v"
  shows "settings Cs = map (\<lambda>n. (n, current_setting P D n)) (covered P D)"
proof -
  have d: "DHCPv4 Cs = map_option Some D"
    using assms(1) unfolding mirrors_def payload_members by (cases D) auto
  have a: "IPv4StaticAddresses Cs = (if fetched P ETH_LANG_ADDRESS = None then [] else [CsJson (Some (Some (entry P)))])"
    using assms(1) unfolding mirrors_def payload_members by (simp add: address_entry_eq)
  have ns: "StaticNameServers Cs = (case fetched P ETH_LANG_DNS1 of None \<Rightarrow> [] | Some v \<Rightarrow> [v]) @ (case fetched P ETH_LANG_DNS2 of None \<Rightarrow> [] | Some v \<Rightarrow> [v])"
    using assms(1) unfolding mirrors_def payload_members by (auto simp: strings_def split: option.splits)
  have dhcp: "(case DHCPv4 Cs of Some (Some b) \<Rightarrow> [(ETH_LANG_DHCP_ENABLED, SBool b)] | _ \<Rightarrow> []) =
      (case D of None \<Rightarrow> [] | Some b \<Rightarrow> [(ETH_LANG_DHCP_ENABLED, SBool b)])"
    unfolding d by (cases D) simp_all
  have addr: "(case IPv4StaticAddresses Cs of
        [] \<Rightarrow> [(ETH_LANG_ADDRESS, SString []), (ETH_LANG_SUBNET_MASK, SString []), (ETH_LANG_GATEWAY, SString [])]
      | CsJson (Some (Some el)) # _ \<Rightarrow>
          [(ETH_LANG_ADDRESS, SString (content (JsonObjectAsciiMember el ''Address''))),
           (ETH_LANG_SUBNET_MASK, SString (content (JsonObjectAsciiMember el ''SubnetMask''))),
           (ETH_LANG_GATEWAY, SString (content (JsonObjectAsciiMember el ''Gateway'')))]
      | _ \<Rightarrow> []) =
      map (\<lambda>n. (n, SString (content (P n)))) [ETH_LANG_ADDRESS, ETH_LANG_SUBNET_MASK, ETH_LANG_GATEWAY]"
    unfolding a using assms(2) by (cases "fetched P ETH_LANG_ADDRESS")
      (simp_all add: without_gaps_def fetched_none entry_members [OF assms(3)])
  have dns: "(case StaticNameServers Cs of
        [] \<Rightarrow> []
      | n # ns \<Rightarrow> [(ETH_LANG_DNS1, SString n), (ETH_LANG_DNS2, SString (case ns of [] \<Rightarrow> [] | m # _ \<Rightarrow> m))]) =
      (if fetched P ETH_LANG_DNS1 = None then [] else map (\<lambda>n. (n, SString (content (fetched P n)))) [ETH_LANG_DNS1, ETH_LANG_DNS2])"
    unfolding ns using assms(2)
    by (cases "fetched P ETH_LANG_DNS1"; cases "fetched P ETH_LANG_DNS2") (simp_all add: without_gaps_def content_def del: content_fetched)
  show ?thesis
    using langs_distinct unfolding settings_def dhcp addr dns covered_def
    by (cases D) (auto simp: current_setting_def)
qed

text \<open>
  C16: A resource that this driver provisioned and that comes back unchanged changes nothing when it is
  consumed: what is handed to the HII services is exactly, in order and under the configure language of
  each published question, the value the question already holds, for the DHCP question, for the address,
  mask and gateway, and for both name servers when the first is set.  A question left out is the DHCP
  question that could not be read or a string that is empty, so none that holds a value is lost.
  This holds when no mask or gateway is set without an address and no second name server without a first:
  the payload cannot carry those, and consuming it would clear or move them.
\<close>

theorem provision_consume_roundtrip:
  assumes "questions E l P D" "languages E (odata_id Cs) G" "without_gaps P" "\<And>n v. P n = Some v \<Longrightarrow> 0 \<notin> set v"
    and "fst (run_state (BuildEthernetInterfacePayload E l i) t0) = (s, Some j)"
    and "mirrors j Cs" "\<And>t. e_ToStructure E t j = (EFI_SUCCESS, Cs)" "\<And>t. \<not> e_CheckEtag E t u h (odata_etag Cs)"
  shows "\<exists>es. run_state (RedfishConsumeResourceCommon E True u (Some j) h) t = (Some EFI_SUCCESS, t @ es) \<and>
    handed es = published G (map (\<lambda>n. (n, current_setting P D n)) (covered P D)) \<and>
    (D \<noteq> None \<longrightarrow> ETH_LANG_DHCP_ENABLED \<in> set (covered P D)) \<and>
    (\<forall>n\<in>set string_questions. n \<notin> set (covered P D) \<longrightarrow> content (P n) = [])"
proof -
  obtain es0 where "run_state (BuildEthernetInterfacePayload E l i) t0 = ((EFI_SUCCESS, Some (JObj (payload i P D))), t0 @ es0)"
    using questions_build [OF assms(1), of i] by (rule yieldsD [where t = t0]) auto
  then have j: "j = JObj (payload i P D)"
    using assms(5) by simp
  obtain es where "run_state (RedfishConsumeResourceCommon E True u (Some j) h) t = (Some EFI_SUCCESS, t @ es)"
      "handed es = published G (settings Cs)"
    using consume_applied [OF assms(7,8,2)] by (rule yieldsD [where t = t]) blast
  moreover have "settings Cs = map (\<lambda>n. (n, current_setting P D n)) (covered P D)"
    using assms(3,4,6) unfolding j by (intro mirrored_settings)
  moreover have "D \<noteq> None \<longrightarrow> ETH_LANG_DHCP_ENABLED \<in> set (covered P D)"
    by (simp add: covered_def)
  ultimately show ?thesis
    using covered_all [OF assms(3)] by auto
qed

section \<open>An interface with a static address\<close>

definition demo_questions :: "string \<Rightarrow> u8 list option" where
  "demo_questions n =
     (if n = ETH_LANG_ADDRESS then Some (ascii ''10.0.0.2'') else if n = ETH_LANG_SUBNET_MASK then Some (ascii ''255.0.0.0'')
      else if n = ETH_LANG_DNS1 then Some (ascii ''10.0.0.1'') else Some [])"

definition demo_cs :: eth_cs where
  "demo_cs = \<lparr>odata_id = ''/redfish/v1/Systems/1/EthernetInterfaces/eth0'', odata_etag = None, DHCPv4 = Some (Some False),
     IPv4StaticAddresses = [CsJson (Some (Some (JObj [(ascii ''Address'', JStr (ascii ''10.0.0.2'')), (ascii ''SubnetMask'', JStr (ascii ''255.0.0.0''))])))],
     StaticNameServers = [ascii ''10.0.0.1'']\<rparr>"

definition demo_langs :: "string \<Rightarrow> string option" where
  "demo_langs n = Some (''/EthernetInterfaces/{1}/'' @ n)"

definition demo_ei :: ei_env where
  "demo_ei = \<lparr>e_GetLang = \<lambda>_ _ n. demo_langs n, e_ApplyString = \<lambda>_ _ _. EFI_SUCCESS, e_ApplyBool = \<lambda>_ _ _. EFI_SUCCESS, e_JsonLoad = \<lambda>_. True,
     e_ToStructure = \<lambda>_ _. (EFI_SUCCESS, demo_cs), e_CheckEtag = \<lambda>_ _ _ _. False, e_PropString = \<lambda>_ n _. demo_questions n,
     e_PropBool = \<lambda>_ _ _. Some False, e_JsonAlloc = \<lambda>_. True, e_Dump = \<lambda>_. True,
     e_EiPost = \<lambda>_ _ _. (EFI_SUCCESS, \<lparr>r_Payload = None, r_Etag = None, r_Location = Some ''eth0''\<rparr>), e_EiPatch = \<lambda>_ _ _. EFI_SUCCESS,
     e_SetUri = \<lambda>_ _ _. EFI_SUCCESS, e_LangList = \<lambda>_. (EFI_SUCCESS, [(1, ''/EthernetInterfaces/{1}/'')]),
     e_ConfigLanguage = \<lambda>_ _. Some ''/EthernetInterfaces/{1}/'',
     e_EiGet = \<lambda>_ _. (EFI_SUCCESS, \<lparr>r_Payload = Some (JObj []), r_Etag = None, r_Location = None\<rparr>), e_Pending = \<lambda>_ _. None,
     e_IdentifyResource = \<lambda>_ _ _. True, e_EiCreateService = \<lambda>_. True, e_LocateJsonStruct = \<lambda>_. True, e_OpenHandler = \<lambda>_. (EFI_SUCCESS, True),
     e_Uninstall = \<lambda>_. EFI_SUCCESS, e_Install = \<lambda>_. EFI_SUCCESS, e_AllocPrivate = \<lambda>_. True\<rparr>"

lemma demo_ei_ok: "questions demo_ei l demo_questions (Some False)" "languages demo_ei i demo_langs" "without_gaps demo_questions"
  "demo_questions n = Some v \<Longrightarrow> 0 \<notin> set v"
  by (auto simp: questions_def languages_def demo_ei_def without_gaps_def fetched_def demo_questions_def ascii_def eth_langs split: if_splits)

lemma demo_mirrors: "mirrors (JObj (payload i demo_questions (Some False))) demo_cs"
  unfolding mirrors_def payload_members
  by (simp add: demo_cs_def address_entry_eq entry_def member_def strings_def fetched_def demo_questions_def eth_langs ascii_def)

theorem provision_consume_roundtrip_witness:
  "\<exists>es j s. fst (run_state (BuildEthernetInterfacePayload demo_ei ''/EthernetInterfaces/{1}/'' None) []) = (s, Some j) \<and>
    run_state (RedfishConsumeResourceCommon demo_ei True ''/eth0'' (Some j) None) [] = (Some EFI_SUCCESS, es) \<and>
    handed es = published demo_langs [(ETH_LANG_DHCP_ENABLED, SBool False), (ETH_LANG_ADDRESS, SString (ascii ''10.0.0.2'')),
      (ETH_LANG_SUBNET_MASK, SString (ascii ''255.0.0.0'')), (ETH_LANG_GATEWAY, SString []),
      (ETH_LANG_DNS1, SString (ascii ''10.0.0.1'')), (ETH_LANG_DNS2, SString [])]"
proof -
  let ?j = "JObj (payload None demo_questions (Some False))"
  obtain es where "run_state (BuildEthernetInterfacePayload demo_ei ''/EthernetInterfaces/{1}/'' None) [] = ((EFI_SUCCESS, Some ?j), [] @ es)"
    using questions_build [OF demo_ei_ok(1), of _ None] by (rule yieldsD [where t = "[]"]) auto
  then have build: "fst (run_state (BuildEthernetInterfacePayload demo_ei ''/EthernetInterfaces/{1}/'' None) []) = (EFI_SUCCESS, Some ?j)"
    by simp
  have env: "\<And>t. e_ToStructure demo_ei t ?j = (EFI_SUCCESS, demo_cs)" "\<And>t u h. \<not> e_CheckEtag demo_ei t u h (odata_etag demo_cs)"
    by (simp_all add: demo_ei_def)
  have current: "map (\<lambda>n. (n, current_setting demo_questions (Some False) n)) (covered demo_questions (Some False)) =
      [(ETH_LANG_DHCP_ENABLED, SBool False), (ETH_LANG_ADDRESS, SString (ascii ''10.0.0.2'')),
      (ETH_LANG_SUBNET_MASK, SString (ascii ''255.0.0.0'')), (ETH_LANG_GATEWAY, SString []),
      (ETH_LANG_DNS1, SString (ascii ''10.0.0.1'')), (ETH_LANG_DNS2, SString [])]"
    by (simp add: covered_def current_setting_def content_def fetched_def demo_questions_def eth_langs ascii_def)
  obtain es' where "run_state (RedfishConsumeResourceCommon demo_ei True ''/eth0'' (Some ?j) None) [] = (Some EFI_SUCCESS, [] @ es')"
    "handed es' = published demo_langs (map (\<lambda>n. (n, current_setting demo_questions (Some False) n)) (covered demo_questions (Some False)))"
    by (rule exE [OF provision_consume_roundtrip [OF demo_ei_ok(1,2,3) _ build demo_mirrors env,
          where u = "''/eth0''" and h = None and t = "[]"]]) (erule demo_ei_ok(4), blast)
  then show ?thesis
    using build unfolding current append_Nil by blast
qed

end
