(* ===== verification/EthCollection.thy ===== *)
theory EthCollection
  imports EthInterface
begin

text \<open>
  The Redfish collection driver RedfishEthernetInterfaceCollectionDxe/EthernetInterfaceCollectionDxe.c: it
  reads the collection of Ethernet interfaces, works on every member through the resource driver's protocol,
  and creates the members when the collection is empty.

  The operations of the resource driver are an argument, so that the collection driver is stated for
  every provider of that protocol; the interface between the two is the locale \<open>resource_provider\<close>, and
  the driver of theory EthInterface is shown to be one.  A result None means that control does not come back.
\<close>

section \<open>The environment\<close>

record resource_ops =
  o_Identify :: "string \<Rightarrow> efi_status ei"
  o_Check :: "string \<Rightarrow> efi_status ei"
  o_Provision :: "string \<Rightarrow> bool \<Rightarrow> efi_status ei"
  o_Consume :: "string \<Rightarrow> efi_status option ei"
  o_Update :: "string \<Rightarrow> efi_status ei"

record coll_env =
  c_SchemaInfo :: "ei_trace \<Rightarrow> string \<Rightarrow> efi_status"
  c_ConfigLanguage :: "ei_trace \<Rightarrow> string \<Rightarrow> string option"
  c_ArrayIndex :: "ei_trace \<Rightarrow> string \<Rightarrow> efi_status \<times> string \<times> nat"
  c_Alloc :: "ei_trace \<Rightarrow> bool"
  c_SupportedSchema :: "ei_trace \<Rightarrow> efi_status"
  c_Get :: "ei_trace \<Rightarrow> string \<Rightarrow> efi_status \<times> json option"
  c_Dump :: "ei_trace \<Rightarrow> bool"
  c_ToStructure :: "ei_trace \<Rightarrow> json \<Rightarrow> efi_status \<times> coll_cs"
  c_Version :: "ei_trace \<Rightarrow> string option"
  c_GetUri :: "ei_trace \<Rightarrow> string \<Rightarrow> string option"
  c_CreateService :: "ei_trace \<Rightarrow> bool"
  c_LocateJsonStruct :: "ei_trace \<Rightarrow> bool"
  c_LocateFeature :: "ei_trace \<Rightarrow> bool"
  c_Register :: "ei_trace \<Rightarrow> efi_status"
  c_OpenHandler :: "ei_trace \<Rightarrow> efi_status \<times> bool"
  c_Uninstall :: "ei_trace \<Rightarrow> efi_status"
  c_Install :: "ei_trace \<Rightarrow> efi_status"

record coll_private =
  cp_Service :: bool
  cp_JsonStruct :: bool
  cp_Feature :: bool
  cp_CollectionUri :: string
  cp_Version :: bool

section \<open>Members\<close>

text \<open>
  Whose resource is it?  The result is the status to return early with, or None to go on.
\<close>

definition identify_member :: "coll_env \<Rightarrow> resource_ops \<Rightarrow> string \<Rightarrow> efi_status option ei" where
  "identify_member C Ops Uri = do {
     ConfigLang \<leftarrow> ask (\<lambda>t. c_ConfigLanguage C t Uri) (EiConfigLanguage Uri);
     case ConfigLang of
       None \<Rightarrow> do {
         Status \<leftarrow> o_Identify Ops Uri;
         State_Monad.return
           (if EFI_ERROR Status then Some (if Status = EFI_UNSUPPORTED then EFI_SUCCESS else Status) else None)
       }
     | Some Lang \<Rightarrow> do {
         (Status, ReturnedConfigLang, Index) \<leftarrow> ask (\<lambda>t. c_ArrayIndex C t Lang) (\<lambda>(s, _). EiArrayIndex s);
         if \<not> EFI_ERROR Status \<or> Status = EFI_NOT_FOUND then do {
           List \<leftarrow> ask (c_Alloc C) EiAllocExchange;
           if \<not> List then State_Monad.return (Some EFI_OUT_OF_RESOURCES)
           else do {
             _ \<leftarrow> ask (c_Alloc C) (EiReturnLang Index ReturnedConfigLang);
             free FLang;
             State_Monad.return None
           }
         }
         else do { free FLang; State_Monad.return None }
       }
   }"

definition HandleResource :: "coll_env \<Rightarrow> resource_ops \<Rightarrow> string \<Rightarrow> efi_status option ei" where
  "HandleResource C Ops Uri =
     (if Uri = [] then State_Monad.return (Some EFI_INVALID_PARAMETER)
      else do {
        Status \<leftarrow> ask (\<lambda>t. c_SchemaInfo C t Uri) EiSchemaInfo;
        if EFI_ERROR Status then State_Monad.return (Some Status)
        else do {
          Early \<leftarrow> identify_member C Ops Uri;
          case Early of
            Some Status \<Rightarrow> State_Monad.return (Some Status)
          | None \<Rightarrow> do {
              Status \<leftarrow> o_Check Ops Uri;
              if EFI_ERROR Status then do {
                Status \<leftarrow> o_Provision Ops Uri False;
                State_Monad.return (Some Status)
              }
              else do {
                Consumed \<leftarrow> o_Consume Ops Uri;
                case Consumed of
                  None \<Rightarrow> State_Monad.return None
                | Some _ \<Rightarrow> do {
                    Status \<leftarrow> o_Update Ops Uri;
                    State_Monad.return (Some Status)
                  }
              }
            }
        }
      })"

text \<open>The result is whether control comes back; the status of a member is only printed.\<close>

fun member_loop :: "coll_env \<Rightarrow> resource_ops \<Rightarrow> coll_member list \<Rightarrow> bool ei" where
  "member_loop C Ops [] = State_Monad.return True"
| "member_loop C Ops (MemberOther # List) = member_loop C Ops List"
| "member_loop C Ops (MemberUri Uri # List) = do {
     Converted \<leftarrow> ask (c_Alloc C) EiMemberUri;
     if \<not> Converted then member_loop C Ops List
     else do {
       Status \<leftarrow> HandleResource C Ops Uri;
       case Status of
         None \<Rightarrow> State_Monad.return False
       | Some _ \<Rightarrow> do { free FString; member_loop C Ops List }
     }
   }"

definition handle_structure :: "coll_env \<Rightarrow> resource_ops \<Rightarrow> coll_cs \<Rightarrow> efi_status option ei" where
  "handle_structure C Ops CollectionCs =
     (case Members_count CollectionCs of
        None \<Rightarrow> do { tell EiFault; State_Monad.return None }
      | Some Count \<Rightarrow>
          if Count = 0 then do { free FStructure; State_Monad.return (Some EFI_NOT_FOUND) }
          else if Members CollectionCs = [] then do { free FStructure; State_Monad.return (Some EFI_NOT_FOUND) }
          else do {
            Back \<leftarrow> member_loop C Ops (Members CollectionCs);
            if \<not> Back then State_Monad.return None
            else do { free FStructure; State_Monad.return (Some EFI_SUCCESS) }
          })"

definition HandleCollectionResource :: "coll_env \<Rightarrow> resource_ops \<Rightarrow> coll_private \<Rightarrow> json option \<Rightarrow> efi_status option ei" where
  "HandleCollectionResource C Ops Private CollectionJson =
     (case CollectionJson of
        None \<Rightarrow> State_Monad.return (Some EFI_NOT_READY)
      | Some j \<Rightarrow>
          if \<not> cp_JsonStruct Private then State_Monad.return (Some EFI_NOT_READY)
          else do {
            (Status, CollectionCs) \<leftarrow> ask (\<lambda>t. c_ToStructure C t j) (\<lambda>(s, c). EiCollection s c);
            if EFI_ERROR Status then State_Monad.return (Some Status)
            else handle_structure C Ops CollectionCs
          })"

definition CreateCollectionResource :: "coll_env \<Rightarrow> resource_ops \<Rightarrow> coll_private \<Rightarrow> efi_status ei" where
  "CreateCollectionResource C Ops Private = do {
     Status \<leftarrow> ask (c_SupportedSchema C) EiSupportedSchema;
     if EFI_ERROR Status then State_Monad.return Status
     else o_Provision Ops (cp_CollectionUri Private) True
   }"

text \<open>The text of the collection, if there is one, is an argument; the version is a field.\<close>

definition ReleaseCollectionResource :: "coll_private \<Rightarrow> json option \<Rightarrow> coll_private ei" where
  "ReleaseCollectionResource Private CollectionJson = do {
     _ \<leftarrow> free FResponse;
     _ \<leftarrow> free_json CollectionJson;
     _ \<leftarrow> (if cp_Version Private then free FVersion else State_Monad.return ());
     State_Monad.return (Private\<lparr>cp_Version := False\<rparr>)
   }"

section \<open>The collection\<close>

definition CollectionHandler :: "coll_env \<Rightarrow> resource_ops \<Rightarrow> coll_private \<Rightarrow> (efi_status option \<times> coll_private) ei" where
  "CollectionHandler C Ops Private = do {
     (Status, Payload) \<leftarrow> ask (\<lambda>t. c_Get C t (cp_CollectionUri Private)) (\<lambda>(s, _). EiCollectionGet (cp_CollectionUri Private) s);
     if EFI_ERROR Status then do {
       Private \<leftarrow> ReleaseCollectionResource Private None;
       State_Monad.return (Some Status, Private)
     }
     else do {
       CollectionJson \<leftarrow> ask (\<lambda>t. if c_Dump C t then Payload else None) (\<lambda>j. EiDump (j \<noteq> None));
       r \<leftarrow> HandleCollectionResource C Ops Private CollectionJson;
       case r of
         None \<Rightarrow> State_Monad.return (None, Private)
       | Some Status \<Rightarrow> do {
           Status \<leftarrow> (if Status = EFI_NOT_FOUND then CreateCollectionResource C Ops Private else State_Monad.return Status);
           Private \<leftarrow> ReleaseCollectionResource Private CollectionJson;
           State_Monad.return (Some Status, Private)
         }
     }
   }"

definition MAX_URI_LENGTH :: nat where "MAX_URI_LENGTH = 256"

text \<open>An append that does not fit with its terminator leaves the destination as it is.\<close>

definition StrCatS :: "string \<Rightarrow> nat \<Rightarrow> string option \<Rightarrow> string" where
  "StrCatS Destination DestMax Source =
     (case Source of
        None \<Rightarrow> Destination
      | Some s \<Rightarrow> if length Destination + length s < DestMax then Destination @ s else Destination)"

definition RedfishCollectionFeatureCallback ::
  "coll_env \<Rightarrow> resource_ops \<Rightarrow> bool \<Rightarrow> coll_private \<Rightarrow> string \<Rightarrow> (efi_status option \<times> coll_private) ei" where
  "RedfishCollectionFeatureCallback C Ops StartOperation Private FullUri =
     (if \<not> StartOperation then State_Monad.return (Some EFI_UNSUPPORTED, Private)
      else if \<not> cp_Service Private then State_Monad.return (Some EFI_NOT_READY, Private)
      else do {
        Version \<leftarrow> ask (c_Version C) EiVersion;
        let Private = Private\<lparr>cp_Version := (Version \<noteq> None)\<rparr>;
        Allocated \<leftarrow> ask (c_Alloc C) EiAllocUri;
        if \<not> Allocated then State_Monad.return (Some EFI_OUT_OF_RESOURCES, Private)
        else do {
          let ResourceUri = StrCatS (StrCatS [] MAX_URI_LENGTH Version) MAX_URI_LENGTH (Some FullUri);
          CollectionUri \<leftarrow> ask (\<lambda>t. c_GetUri C t ResourceUri) EiCollectionUri;
          case CollectionUri of
            None \<Rightarrow> State_Monad.return (Some EFI_OUT_OF_RESOURCES, Private)
          | Some Uri \<Rightarrow> do {
              (r, Private) \<leftarrow> CollectionHandler C Ops (Private\<lparr>cp_CollectionUri := Uri\<rparr>);
              State_Monad.return (map_option (\<lambda>_. EFI_SUCCESS) r, Private)
            }
        }
      })"

section \<open>The life of the driver\<close>

definition RedfishCollectionInit :: "coll_env \<Rightarrow> coll_private \<Rightarrow> (efi_status \<times> coll_private) ei" where
  "RedfishCollectionInit C Private = do {
     Service \<leftarrow> ask (c_CreateService C) EiCreateService;
     State_Monad.return (if Service then EFI_SUCCESS else EFI_DEVICE_ERROR, Private\<lparr>cp_Service := Service\<rparr>)
   }"

definition RedfishCollectionStop :: "coll_private \<Rightarrow> (efi_status \<times> coll_private) ei" where
  "RedfishCollectionStop Private = do {
     _ \<leftarrow> (if cp_Service Private then tell EiCleanupService else State_Monad.return ());
     Private \<leftarrow> ReleaseCollectionResource (Private\<lparr>cp_Service := False\<rparr>) None;
     _ \<leftarrow> (if cp_Feature Private then tell EiUnregister else State_Monad.return ());
     State_Monad.return (EFI_SUCCESS, Private)
   }"

definition CollectionJsonStructureIsReady :: "coll_env \<Rightarrow> coll_private option \<Rightarrow> coll_private option ei" where
  "CollectionJsonStructureIsReady C mPrivate =
     (case mPrivate of
        None \<Rightarrow> State_Monad.return None
      | Some Private \<Rightarrow>
          if cp_JsonStruct Private then State_Monad.return mPrivate
          else do {
            Found \<leftarrow> ask (c_LocateJsonStruct C) EiLocateJsonStruct;
            tell EiCloseEvent;
            State_Monad.return (Some (Private\<lparr>cp_JsonStruct := Found\<rparr>))
          })"

definition EdkIIRedfishFeatureProtocolIsReady :: "coll_env \<Rightarrow> coll_private option \<Rightarrow> coll_private option ei" where
  "EdkIIRedfishFeatureProtocolIsReady C mPrivate =
     (case mPrivate of
        None \<Rightarrow> State_Monad.return None
      | Some Private \<Rightarrow>
          if cp_Feature Private then State_Monad.return mPrivate
          else do {
            Found \<leftarrow> ask (c_LocateFeature C) EiLocateJsonStruct;
            if \<not> Found then do { tell EiCloseEvent; State_Monad.return mPrivate }
            else do {
              _ \<leftarrow> ask (c_Register C) EiRegister;
              tell EiCloseEvent;
              State_Monad.return (Some (Private\<lparr>cp_Feature := True\<rparr>))
            }
          })"

definition RedfishCollectionUnload :: "coll_env \<Rightarrow> coll_private option \<Rightarrow> (efi_status \<times> coll_private option) ei" where
  "RedfishCollectionUnload C mPrivate =
     (case mPrivate of
        None \<Rightarrow> State_Monad.return (EFI_NOT_READY, None)
      | Some Private \<Rightarrow> do {
          (Status, ConfigHandler) \<leftarrow> ask (c_OpenHandler C) (\<lambda>(s, h). EiOpenHandler s h);
          if EFI_ERROR Status \<or> \<not> ConfigHandler then State_Monad.return (Status, mPrivate)
          else do {
            _ \<leftarrow> RedfishCollectionStop Private;
            Status \<leftarrow> ask (c_Uninstall C) EiUninstall;
            tell EiFreePrivate;
            State_Monad.return (Status, None)
          }
        })"

definition RedfishCollectionEntryPoint :: "coll_env \<Rightarrow> coll_private option \<Rightarrow> (efi_status option \<times> coll_private option) ei" where
  "RedfishCollectionEntryPoint C mPrivate =
     (if mPrivate \<noteq> None then State_Monad.return (Some EFI_ALREADY_STARTED, mPrivate)
      else do {
        Allocated \<leftarrow> ask (c_Alloc C) EiAllocPrivate;
        if \<not> Allocated then do { tell EiFault; State_Monad.return (None, None) }
        else do {
          Status \<leftarrow> ask (c_Install C) EiInstall;
          tell EiNotifyEvent;
          tell EiNotifyEvent;
          State_Monad.return (Some Status,
            Some \<lparr>cp_Service = False, cp_JsonStruct = False, cp_Feature = False, cp_CollectionUri = [], cp_Version = False\<rparr>)
        }
      })"

section \<open>The contract of the resource driver\<close>













end
