(* ===== verification/BmcToNic.thy ===== *)
theory BmcToNic
  imports EthConfig EthCollection
begin

text \<open>
  From a write of the management controller to the network controller: what RedfishEthernetInterfaceDxe
  consumes lands in the EthCfg variable through the HII questions, and EthConfigDxe applies the variable
  on the next boot.  The questions with their configure languages are those of EthConfigDxe/EthConfigDxeMap.uni
  and EthConfigHii.vfr; the HII services that store a value are a parameter.
\<close>

definition lang_root :: string where "lang_root = ''/EthernetInterfaces/{1}/''"

definition mapped_tails :: "string list" where
  "mapped_tails = [''MACAddress'', ETH_LANG_DHCP_ENABLED, ETH_LANG_ADDRESS, ETH_LANG_SUBNET_MASK, ETH_LANG_GATEWAY, ETH_LANG_DNS1, ETH_LANG_DNS2]"

definition EthConfigDxeMap :: "string \<Rightarrow> string option" where
  "EthConfigDxeMap n = (if n \<in> set mapped_tails then Some (lang_root @ n) else None)"

text \<open>
  Documented behaviour of the HII services: a value goes to the field its question is bound to, a string
  of up to 15 characters padded with NUL characters, and no other field changes.
\<close>

definition question_text :: "u8 list \<Rightarrow> u16 list" where
  "question_text v = map ucast v @ replicate (16 - length v) 0"

definition stores :: "(string \<times> setting \<Rightarrow> NUC_ETH_CONFIG \<Rightarrow> NUC_ETH_CONFIG) \<Rightarrow> bool" where
  "stores W \<longleftrightarrow>
     (\<forall>c b. W (lang_root @ ETH_LANG_DHCP_ENABLED, SBool b) c = c\<lparr>DhcpEnabled := if b then 1 else 0\<rparr>) \<and>
     (\<forall>c v. length v < 16 \<longrightarrow>
        W (lang_root @ ETH_LANG_ADDRESS, SString v) c = c\<lparr>Ip4Address := question_text v\<rparr> \<and>
        W (lang_root @ ETH_LANG_SUBNET_MASK, SString v) c = c\<lparr>Ip4SubnetMask := question_text v\<rparr> \<and>
        W (lang_root @ ETH_LANG_GATEWAY, SString v) c = c\<lparr>Ip4Gateway := question_text v\<rparr> \<and>
        W (lang_root @ ETH_LANG_DNS1, SString v) c = c\<lparr>Ip4Dns1 := question_text v\<rparr> \<and>
        W (lang_root @ ETH_LANG_DNS2, SString v) c = c\<lparr>Ip4Dns2 := question_text v\<rparr>)"

lemma length_question_text [simp]: "length v < 16 \<Longrightarrow> length (question_text v) = 16"
  by (simp add: question_text_def)

lemma question_text_terminated [simp]: "length v < 16 \<Longrightarrow> (question_text v)[15 := 0] = question_text v"
  by (auto simp: question_text_def list_update_append nth_list_update intro!: nth_equalityI)

lemma mapped: "EthConfigDxeMap ETH_LANG_DHCP_ENABLED = Some (lang_root @ ETH_LANG_DHCP_ENABLED)"
  "EthConfigDxeMap ETH_LANG_ADDRESS = Some (lang_root @ ETH_LANG_ADDRESS)" "EthConfigDxeMap ETH_LANG_SUBNET_MASK = Some (lang_root @ ETH_LANG_SUBNET_MASK)"
  "EthConfigDxeMap ETH_LANG_GATEWAY = Some (lang_root @ ETH_LANG_GATEWAY)" "EthConfigDxeMap ETH_LANG_DNS1 = Some (lang_root @ ETH_LANG_DNS1)"
  "EthConfigDxeMap ETH_LANG_DNS2 = Some (lang_root @ ETH_LANG_DNS2)"
  by (simp_all add: EthConfigDxeMap_def mapped_tails_def)

text \<open>
  What the management controller wrote: the texts of the first static address, and the variable that
  holds them.  Without name servers in the resource those stored before stay.
\<close>

definition text_of :: "json \<Rightarrow> string \<Rightarrow> u8 list" where
  "text_of el k = content (JsonObjectAsciiMember el k)"

definition written :: "eth_cs \<Rightarrow> json \<Rightarrow> bool \<Rightarrow> NUC_ETH_CONFIG \<Rightarrow> NUC_ETH_CONFIG" where
  "written Cs el b c = c\<lparr>DhcpEnabled := if b then 1 else 0, Ip4Address := question_text (text_of el ''Address''),
     Ip4SubnetMask := question_text (text_of el ''SubnetMask''), Ip4Gateway := question_text (text_of el ''Gateway''),
     Ip4Dns1 := (case StaticNameServers Cs of [] \<Rightarrow> Ip4Dns1 c | n # _ \<Rightarrow> question_text n),
     Ip4Dns2 := (case StaticNameServers Cs of [] \<Rightarrow> Ip4Dns2 c | [n] \<Rightarrow> question_text [] | n # n' # _ \<Rightarrow> question_text n')\<rparr>"

definition texts :: "eth_cs \<Rightarrow> json \<Rightarrow> u8 list list" where
  "texts Cs el = text_of el ''Address'' # text_of el ''SubnetMask'' # text_of el ''Gateway'' # StaticNameServers Cs"

text \<open>A text that fits its question and has no NUL character.\<close>

abbreviation fits :: "u8 list \<Rightarrow> bool" where
  "fits v \<equiv> length v < 16 \<and> 0 \<notin> set v"

lemma stored_settings:
  assumes "stores W" "DHCPv4 Cs = Some (Some b)" "IPv4StaticAddresses Cs = CsJson (Some (Some el)) # rest" "list_all fits (texts Cs el)"
  shows "fold W (published EthConfigDxeMap (settings Cs)) c = written Cs el b c"
proof -
  have "fold W (published EthConfigDxeMap (settings Cs)) c =
      fold W (published EthConfigDxeMap (case StaticNameServers Cs of [] \<Rightarrow> []
        | n # ns \<Rightarrow> [(ETH_LANG_DNS1, SString n), (ETH_LANG_DNS2, SString (case ns of [] \<Rightarrow> [] | m # _ \<Rightarrow> m))]))
      (c\<lparr>DhcpEnabled := if b then 1 else 0, Ip4Address := question_text (text_of el ''Address''),
         Ip4SubnetMask := question_text (text_of el ''SubnetMask''), Ip4Gateway := question_text (text_of el ''Gateway'')\<rparr>)"
    using assms unfolding settings_def stores_def text_of_def texts_def by (simp add: mapped)
  also have "\<dots> = written Cs el b c"
    using assms(1,4) unfolding stores_def written_def texts_def
    by (auto simp: mapped split: list.splits)
  finally show ?thesis .
qed

lemma written_wf:
  assumes "config_wf c" "list_all fits (texts Cs el)"
  shows "config_wf (written Cs el b c)"
  using assms by (auto simp: config_wf_def written_def texts_def split: list.splits)

text \<open>Reading the variable cuts only what was stored before.\<close>

lemma force_written:
  assumes "list_all fits (texts Cs el)"
  shows "force_termination (written Cs el b c) = written Cs el b (force_termination c)"
  using assms by (auto simp: force_termination_def written_def texts_def NUC_ETH_IP4_STR_SIZE_def split: list.splits)

lemma question_text_head: "fits v \<Longrightarrow> question_text v ! 0 = 0 \<longleftrightarrow> v = []"
  by (cases v) (auto simp: question_text_def)

text \<open>The address a text names, if it names one.\<close>

definition address_of :: "net_lib \<Rightarrow> u8 list \<Rightarrow> ip4 option" where
  "address_of N v = (if v = [] then None else NetLibStrToIp4 N (question_text v))"

lemma parse_written: "fits v \<Longrightarrow> snd (ParseIp4Field N (question_text v)) = address_of N v"
  by (auto simp: ParseIp4Field_def address_of_def question_text_head split: option.splits)

text \<open>The name servers: the first two of the resource that name an address, or those stored before.\<close>

definition servers_of :: "net_lib \<Rightarrow> eth_cs \<Rightarrow> NUC_ETH_CONFIG \<Rightarrow> ip4 list" where
  "servers_of N Cs c =
     (if StaticNameServers Cs = [] then dns_servers N (force_termination c)
      else concat (map (\<lambda>v. case address_of N v of None \<Rightarrow> [] | Some x \<Rightarrow> [x]) (take 2 (StaticNameServers Cs))))"

lemma dns_servers_parse:
  "dns_servers N c = (case snd (ParseIp4Field N (Ip4Dns1 c)) of Some d \<Rightarrow> [d] | None \<Rightarrow> []) @
     (case snd (ParseIp4Field N (Ip4Dns2 c)) of Some d \<Rightarrow> [d] | None \<Rightarrow> [])"
  by (auto simp: dns_servers_def split: prod.splits option.splits)

lemma servers_written:
  assumes "list_all fits (texts Cs el)"
  shows "dns_servers N (written Cs el b (force_termination c)) = servers_of N Cs c"
  using assms parse_written [of "[]" N]
  by (auto simp: dns_servers_parse servers_of_def written_def texts_def parse_written address_of_def split: list.splits)

text \<open>The requests the written policy stands for.\<close>

definition written_plan :: "net_lib \<Rightarrow> eth_cs \<Rightarrow> json \<Rightarrow> bool \<Rightarrow> NUC_ETH_CONFIG \<Rightarrow> ip4 \<Rightarrow> ip4 \<Rightarrow> ip4_data list" where
  "written_plan N Cs el b c ip net =
     (if b then [DataPolicy Ip4Config2PolicyDhcp]
      else [DataPolicy Ip4Config2PolicyStatic, DataManualAddress ip net] @
        (case address_of N (text_of el ''Gateway'') of
           Some g \<Rightarrow> if NetIp4IsUnicast N (NTOHL g) (NTOHL net) then [DataGateway g] else []
         | None \<Rightarrow> []) @
        (if servers_of N Cs c = [] then [] else [DataDnsServer (servers_of N Cs c)]))"

lemma static_address_written:
  assumes "list_all fits (texts Cs el)"
    and "address_of N (text_of el ''Address'') = Some ip" "address_of N (text_of el ''SubnetMask'') = Some net"
    and "0 < NetGetMaskLength N (NTOHL net)" "NetGetMaskLength N (NTOHL net) < IP4_MASK_NUM" "NetIp4IsUnicast N (NTOHL ip) (NTOHL net)"
  shows "static_address N (written Cs el b c) = Some (ip, net)"
proof -
  have "snd (ParseIp4Field N (Ip4Address (written Cs el b c))) = Some ip" "snd (ParseIp4Field N (Ip4SubnetMask (written Cs el b c))) = Some net"
    using assms(1-3) by (simp_all add: written_def texts_def parse_written)
  then show ?thesis
    using assms(4-6) by (auto simp: static_address_def Let_def split: prod.splits)
qed

lemma plan_written:
  assumes "list_all fits (texts Cs el)"
    and "address_of N (text_of el ''Address'') = Some ip" "address_of N (text_of el ''SubnetMask'') = Some net"
    and "0 < NetGetMaskLength N (NTOHL net)" "NetGetMaskLength N (NTOHL net) < IP4_MASK_NUM" "NetIp4IsUnicast N (NTOHL ip) (NTOHL net)"
  shows "ip4_plan N (written Cs el b (force_termination c)) = written_plan N Cs el b c ip net"
proof -
  have fit: "fits (text_of el ''Address'')" "fits (text_of el ''Gateway'')"
    using assms(1) by (simp_all add: texts_def)
  have "Ip4Address (written Cs el b (force_termination c)) ! 0 \<noteq> 0"
    using fit(1) assms(2) question_text_head by (auto simp: written_def address_of_def)
  moreover have "snd (ParseIp4Field N (Ip4Gateway (written Cs el b (force_termination c)))) = address_of N (text_of el ''Gateway'')"
    using fit(2) by (simp add: written_def parse_written)
  moreover have "DhcpEnabled (written Cs el b (force_termination c)) = (if b then 1 else 0)"
    by (simp add: written_def)
  ultimately show ?thesis
    using static_address_written [OF assms] servers_written [OF assms(1)]
    by (cases b) (simp_all add: ip4_plan_def static_plan_def written_plan_def)
qed

text \<open>
  C6: What the management controller writes takes effect on the next boot.  A resource is consumed that
  names a DHCP setting and a static address with a mask that pass the checks, in texts that fit their
  questions.  Between the two drivers are the HII and the variable services, which are parameters: they
  take every value, store it in the field its question is bound to, and the next boot reads what was
  stored.  Then the requests the network controller gets are exactly those of the policy written: with
  DHCP the DHCP policy and nothing else; without it the static policy, that address and mask, the gateway
  if its text names a usable one, and the name servers of the resource that name an address, or those
  stored before when it has none.  The sequence is cut short only behind a service that fails on the way.
\<close>

theorem bmc_write_takes_effect:
  assumes "stores W" "accepts E" "config_wf c0" "languages E (odata_id Cs) EthConfigDxeMap"
    and "\<And>t. e_ToStructure E t j = (EFI_SUCCESS, Cs)" "\<And>t. \<not> e_CheckEtag E t u h (odata_etag Cs)"
    and "DHCPv4 Cs = Some (Some b)" "IPv4StaticAddresses Cs = CsJson (Some (Some el)) # others" "list_all fits (texts Cs el)"
    and "address_of (e_Net B) (text_of el ''Address'') = Some ip" "address_of (e_Net B) (text_of el ''SubnetMask'') = Some net"
    and "0 < NetGetMaskLength (e_Net B) (NTOHL net)" "NetGetMaskLength (e_Net B) (NTOHL net) < IP4_MASK_NUM"
      "NetIp4IsUnicast (e_Net B) (NTOHL ip) (NTOHL net)"
    and "run_state (RedfishConsumeResourceCommon E True u (Some j) h) t = (r, t @ es)"
    and "\<And>t. e_GetVariable B t = (EFI_SUCCESS, config_bytes (fold W (applied es) c0))"
  shows "\<exists>es' rest. run_state (ApplyConfig B nic) t' = ((), t' @ es') \<and>
    written_plan (e_Net B) Cs el b c0 ip net = requests es' @ rest \<and> (rest = [] \<or> list_ex obstacle es')"
proof -
  have "applied es = published EthConfigDxeMap (settings Cs)"
    using yields_run [OF consume_applied [OF assms(5,6,4)] assms(15)] assms(2) by simp
  then have c: "fold W (applied es) c0 = written Cs el b c0"
    using stored_settings [OF assms(1,7,8,9)] by simp
  have stored: "stored_config (EFI_SUCCESS, config_bytes (written Cs el b c0)) = Some (written Cs el b (force_termination c0))"
    using written_wf [OF assms(3,9)] force_written [OF assms(9)] by (simp add: config_layout)
  let ?c = "written Cs el b (force_termination c0)" and ?get = "EthGetVariable EFI_SUCCESS (config_bytes (written Cs el b c0))"
  have "run_state (ReadConfigVariable B) t' = (Some ?c, t' @ [?get])"
    using assms(16) stored by (simp add: c run_ReadConfigVariable del: stored_config.simps)
  moreover obtain u' es2 where es2: "run_state (apply_policy B nic ?c) (t' @ [?get]) = (u', (t' @ [?get]) @ es2)"
      "follows (ip4_plan (e_Net B) ?c) es2"
    using apply_policy_follows by (rule yieldsD)
  ultimately have "run_state (ApplyConfig B nic) t' = ((), t' @ ?get # es2)"
    by (simp add: ApplyConfig_def)
  moreover obtain rest where "ip4_plan (e_Net B) ?c = requests es2 @ rest" "rest = [] \<or> list_ex obstacle es2"
    using es2(2) by (auto simp: follows_def)
  moreover have "requests (?get # es2) = requests es2" "list_ex obstacle (?get # es2) = list_ex obstacle es2"
    by simp_all
  ultimately show ?thesis
    unfolding plan_written [OF assms(9-14)] by metis
qed

section \<open>A static address, end to end\<close>

definition demo_store :: "string \<times> setting \<Rightarrow> NUC_ETH_CONFIG \<Rightarrow> NUC_ETH_CONFIG" where
  "demo_store w c =
     (case w of
        (lang, SBool b) \<Rightarrow> if lang = lang_root @ ETH_LANG_DHCP_ENABLED then c\<lparr>DhcpEnabled := if b then 1 else 0\<rparr> else c
      | (lang, SString v) \<Rightarrow>
          if lang = lang_root @ ETH_LANG_ADDRESS then c\<lparr>Ip4Address := question_text v\<rparr>
          else if lang = lang_root @ ETH_LANG_SUBNET_MASK then c\<lparr>Ip4SubnetMask := question_text v\<rparr>
          else if lang = lang_root @ ETH_LANG_GATEWAY then c\<lparr>Ip4Gateway := question_text v\<rparr>
          else if lang = lang_root @ ETH_LANG_DNS1 then c\<lparr>Ip4Dns1 := question_text v\<rparr>
          else if lang = lang_root @ ETH_LANG_DNS2 then c\<lparr>Ip4Dns2 := question_text v\<rparr> else c)"

lemma demo_store_ok: "stores demo_store"
  by (simp add: stores_def demo_store_def eth_langs)

text \<open>A network library that knows two addresses.\<close>

definition demo_net :: net_lib where
  "demo_net = \<lparr>NetLibStrToIp4 = \<lambda>s. if s = question_text (ascii ''10.0.0.2'') then Some (10, 0, 0, 2)
       else if s = question_text (ascii ''255.0.0.0'') then Some (255, 0, 0, 0) else None,
     NetGetMaskLength = \<lambda>_. 8, NetIp4IsUnicast = \<lambda>_ _. True\<rparr>"

definition mapped_ei :: ei_env where
  "mapped_ei = demo_ei\<lparr>e_GetLang := \<lambda>_ _ n. EthConfigDxeMap n\<rparr>"

theorem bmc_write_takes_effect_witness:
  "\<exists>B es' rest. run_state (ApplyConfig B 2) [] = ((), es') \<and>
     [DataPolicy Ip4Config2PolicyStatic, DataManualAddress (10, 0, 0, 2) (255, 0, 0, 0)] = requests es' @ rest \<and>
     (rest = [] \<or> list_ex obstacle es')"
proof -
  let ?el = "JObj [(ascii ''Address'', JStr (ascii ''10.0.0.2'')), (ascii ''SubnetMask'', JStr (ascii ''255.0.0.0''))]"
  obtain r es where run: "run_state (RedfishConsumeResourceCommon mapped_ei True ''/eth0'' (Some (JObj [])) None) [] = (r, [] @ es)"
    using consume_balanced [of mapped_ei "''/eth0''" "Some (JObj [])" None] by (rule yieldsD)
  let ?B = "demo_eth\<lparr>e_Net := demo_net, e_GetVariable := \<lambda>_. (EFI_SUCCESS, config_bytes (fold demo_store (applied es) default_config))\<rparr>"
  have env: "languages mapped_ei (odata_id demo_cs) EthConfigDxeMap" "\<And>t. e_ToStructure mapped_ei t (JObj []) = (EFI_SUCCESS, demo_cs)"
    "\<And>t u h. \<not> e_CheckEtag mapped_ei t u h (odata_etag demo_cs)"
    by (simp_all add: mapped_ei_def demo_ei_def languages_def)
  have accepts: "accepts mapped_ei"
    by (simp add: mapped_ei_def demo_ei_def accepts_def)
  have cs: "DHCPv4 demo_cs = Some (Some False)" "IPv4StaticAddresses demo_cs = CsJson (Some (Some ?el)) # []"
    by (simp_all add: demo_cs_def)
  have el: "text_of ?el ''Address'' = ascii ''10.0.0.2''" "text_of ?el ''SubnetMask'' = ascii ''255.0.0.0''" "text_of ?el ''Gateway'' = []"
    by (simp_all add: text_of_def JsonObjectAsciiMember_def content_def key_eq ascii_def cstr_def)
  have fit: "list_all fits (texts demo_cs ?el)"
    unfolding texts_def el by (simp add: demo_cs_def ascii_def)
  have net: "address_of (e_Net ?B) (text_of ?el ''Address'') = Some (10, 0, 0, 2)"
    "address_of (e_Net ?B) (text_of ?el ''SubnetMask'') = Some (255, 0, 0, 0)"
    unfolding el by (simp_all add: address_of_def demo_net_def question_text_def ascii_def)
  have "servers_of demo_net demo_cs default_config = []"
    by (simp add: servers_of_def demo_cs_def address_of_def demo_net_def question_text_def ascii_def)
  then have plan: "written_plan (e_Net ?B) demo_cs ?el False default_config (10, 0, 0, 2) (255, 0, 0, 0) =
      [DataPolicy Ip4Config2PolicyStatic, DataManualAddress (10, 0, 0, 2) (255, 0, 0, 0)]"
    unfolding written_plan_def el by (simp add: address_of_def)
  have "\<exists>es' rest. run_state (ApplyConfig ?B 2) [] = ((), [] @ es') \<and>
      written_plan (e_Net ?B) demo_cs ?el False default_config (10, 0, 0, 2) (255, 0, 0, 0) = requests es' @ rest \<and>
      (rest = [] \<or> list_ex obstacle es')"
    by (rule bmc_write_takes_effect [OF demo_store_ok accepts default_config_facts(1) env cs fit net _ _ _ run])
      (simp_all add: demo_net_def IP4_MASK_NUM_def)
  then show ?thesis
    unfolding plan by auto
qed

end
