(* ===== verification/FlashTools.thy ===== *)
theory FlashTools
  imports NucPrelude
begin

text \<open>
  The host tools that guard a write of the flash chip: scripts/ifd-layout.py, which reads the region
  table of the Intel flash descriptor and compares the BIOS region with the expected bounds, and
  scripts/extract-vbt.py, which cuts the video BIOS table out of a factory dump.

  A dump is the list of its bytes and a Python integer an \<open>int\<close>.  The command line comes parsed: whether
  a layout file is asked for, and the expected bounds if given.  What is printed is the list of the
  values in it.  Every way a tool ends without its output is a value of \<open>tool_error\<close>; StructError is the
  exception of a read past the end of the dump.
\<close>

datatype tool_error =
    TooSmall | NoDescriptor | NoBiosRegion | BoundsDiffer
  | NoSignature | BadVbtSize | BadHeaderSize | StructError

definition unpack_u32 :: "u8 list \<Rightarrow> nat \<Rightarrow> tool_error + int" where
  "unpack_u32 data off =
     (if off + 4 \<le> length data
      then Inr (uint (from_le32 (data ! off) (data ! (off + 1)) (data ! (off + 2)) (data ! (off + 3))))
      else Inl StructError)"

definition unpack_u16 :: "u8 list \<Rightarrow> nat \<Rightarrow> tool_error + int" where
  "unpack_u16 data off =
     (if off + 2 \<le> length data then Inr (uint (from_le16 (data ! off) (data ! (off + 1)))) else Inl StructError)"

section \<open>The flash descriptor\<close>

definition FLVALSIG_OFFSET :: nat where "FLVALSIG_OFFSET = 0x10"
definition FLVALSIG :: int where "FLVALSIG = 0x0FF0A55A"

definition REGION_NAMES :: "string list" where
  "REGION_NAMES = [''fd'', ''bios'', ''me'', ''gbe'', ''pd'']"

type_synonym region = "string \<times> int \<times> int \<times> bool"

definition region_of :: "string \<Rightarrow> int \<Rightarrow> region" where
  "region_of name reg =
     (let base = push_bit 12 (reg AND 0x7FFF);
          limit = push_bit 12 (drop_bit 16 reg AND 0x7FFF) OR 0xFFF
      in (name, base, limit, base \<le> limit))"

fun region_loop :: "u8 list \<Rightarrow> nat \<Rightarrow> string list \<Rightarrow> tool_error + region list" where
  "region_loop data off [] = Inr []"
| "region_loop data off (name # names) =
     (if off + 4 > length data then Inr []
      else case unpack_u32 data off of
          Inl e \<Rightarrow> Inl e
        | Inr reg \<Rightarrow> (case region_loop data (off + 4) names of
              Inl e \<Rightarrow> Inl e
            | Inr regions \<Rightarrow> Inr (region_of name reg # regions)))"

definition decode :: "u8 list \<Rightarrow> tool_error + region list" where
  "decode data =
     (if length data < 0x1000 then Inl TooSmall
      else case unpack_u32 data FLVALSIG_OFFSET of
          Inl e \<Rightarrow> Inl e
        | Inr sig \<Rightarrow>
            if sig \<noteq> FLVALSIG then Inl NoDescriptor
            else (case unpack_u32 data 0x14 of
                Inl e \<Rightarrow> Inl e
              | Inr flmap0 \<Rightarrow> region_loop data (nat (push_bit 4 (drop_bit 16 flmap0 AND 0xFF))) REGION_NAMES))"

datatype ifd_output =
    LayoutFile "(int \<times> int \<times> string) list"
  | RegionTable nat "(string \<times> (int \<times> int \<times> int) option) list"

definition check_bios :: "region list \<Rightarrow> (int \<times> int) option \<Rightarrow> tool_error option" where
  "check_bios used expect_bios =
     (case expect_bios of
        None \<Rightarrow> None
      | Some (want_base, want_limit) \<Rightarrow>
          (case List.find (\<lambda>r. fst r = ''bios'') used of
             None \<Rightarrow> Some NoBiosRegion
           | Some (_, base, limit, _) \<Rightarrow>
               if (base, limit) \<noteq> (want_base, want_limit) then Some BoundsDiffer else None))"

definition ifd_main :: "bool \<Rightarrow> (int \<times> int) option \<Rightarrow> u8 list \<Rightarrow> tool_error + ifd_output" where
  "ifd_main layout expect_bios data =
     (case decode data of
        Inl e \<Rightarrow> Inl e
      | Inr regions \<Rightarrow>
          let used = filter (\<lambda>(_, _, _, valid). valid) regions in
          case check_bios used expect_bios of
            Some e \<Rightarrow> Inl e
          | None \<Rightarrow>
              if layout
              then Inr (LayoutFile (map (\<lambda>(name, base, limit, _). (base, limit, name)) (sort_key (\<lambda>(_, base, _, _). base) used)))
              else Inr (RegionTable (length data) (map (\<lambda>(name, base, limit, valid).
                (name, if valid then Some (base, limit, (limit - base + 1) div 1024) else None)) regions)))"

section \<open>The video BIOS table\<close>

definition SIGNATURE :: "u8 list" where "SIGNATURE = [0x24, 0x56, 0x42, 0x54]"

text \<open>The method find of a byte string: the first position where the pattern stands.\<close>

fun find_bytes :: "u8 list \<Rightarrow> u8 list \<Rightarrow> nat option" where
  "find_bytes pat [] = (if pat = [] then Some 0 else None)"
| "find_bytes pat (x # xs) =
     (if take (length pat) (x # xs) = pat then Some 0 else map_option Suc (find_bytes pat xs))"

record vbt_output =
  vbt :: "u8 list"
  vbt_warning :: bool
  vbt_signature :: "u8 list"
  vbt_version :: "int \<times> int"
  vbt_offset :: nat
  vbt_size :: int

definition rstrip :: "u8 list \<Rightarrow> u8 list" where
  "rstrip s = rev (dropWhile (\<lambda>b. b = 0 \<or> b = 0x20) (rev s))"

definition vbt_main :: "u8 list \<Rightarrow> tool_error + vbt_output" where
  "vbt_main data =
     (case find_bytes SIGNATURE data of
        None \<Rightarrow> Inl NoSignature
      | Some off \<Rightarrow>
          (case (unpack_u16 data (off + 20), unpack_u16 data (off + 22), unpack_u16 data (off + 24)) of
             (Inr version, Inr header_size, Inr vsize) \<Rightarrow>
               if \<not> (0 < vsize \<and> vsize \<le> int (length data) - int off) then Inl BadVbtSize
               else if header_size < 22 \<or> header_size > vsize then Inl BadHeaderSize
               else Inr \<lparr>vbt = take (nat vsize) (drop off data),
                 vbt_warning = (find_bytes SIGNATURE (drop (off + 1) data) \<noteq> None),
                 vbt_signature = rstrip (take 20 (drop off data)),
                 vbt_version = (version div 100, version mod 100), vbt_offset = off, vbt_size = vsize\<rparr>
           | _ \<Rightarrow> Inl StructError))"

section \<open>What the layout contains\<close>

text \<open>The value of the four bytes at a position, and the regions a descriptor declares, in arithmetic terms.\<close>

definition word_at :: "u8 list \<Rightarrow> nat \<Rightarrow> int" where
  "word_at data p = uint (from_le32 (data ! p) (data ! (p + 1)) (data ! (p + 2)) (data ! (p + 3)))"

definition has_descriptor :: "u8 list \<Rightarrow> bool" where
  "has_descriptor data \<longleftrightarrow> 0x1000 \<le> length data \<and> word_at data 0x10 = 0x0FF0A55A"

definition register_at :: "u8 list \<Rightarrow> nat \<Rightarrow> nat" where
  "register_at data i = nat (16 * (word_at data 0x14 div 2 ^ 16 mod 2 ^ 8)) + 4 * i"

definition declared :: "u8 list \<Rightarrow> (int \<times> int \<times> string) set" where
  "declared data = {(base, limit, name). base \<le> limit \<and> (\<exists>i < 5. register_at data i + 4 \<le> length data \<and>
     name = REGION_NAMES ! i \<and> base = 4096 * (word_at data (register_at data i) mod 2 ^ 15) \<and>
     limit = 4096 * (word_at data (register_at data i) div 2 ^ 16 mod 2 ^ 15) + 4095)}"

lemma unpack_u32_eq: "unpack_u32 data off = (if off + 4 \<le> length data then Inr (word_at data off) else Inl StructError)"
  by (simp add: unpack_u32_def word_at_def)

lemma and_mask_mod: "(x :: int) AND 0x7FFF = x mod 2 ^ 15" "x AND 0xFF = x mod 2 ^ 8"
  using take_bit_eq_mask [of 15 x] take_bit_eq_mask [of 8 x] by (simp_all add: take_bit_eq_mod mask_eq_exp_minus_1)

lemma or_low_bits: "push_bit 12 (x :: int) OR 0xFFF = 4096 * x + 4095"
proof -
  have "push_bit 12 x OR mask 12 = push_bit 12 x + mask 12"
    by (rule disjunctive_add [symmetric]) (auto simp: bit_push_bit_iff_int bit_mask_iff)
  then show ?thesis
    by (simp add: push_bit_eq_mult mask_eq_exp_minus_1)
qed

lemma region_of_eq:
  "region_of name reg = (name, 4096 * (reg mod 2 ^ 15), 4096 * (reg div 2 ^ 16 mod 2 ^ 15) + 4095,
     4096 * (reg mod 2 ^ 15) \<le> 4096 * (reg div 2 ^ 16 mod 2 ^ 15) + 4095)"
  unfolding region_of_def Let_def and_mask_mod or_low_bits by (simp add: push_bit_eq_mult drop_bit_eq_div mult.commute)

lemma region_loop_regions:
  "\<exists>rs. region_loop data off names = Inr rs \<and> map fst rs = take (length rs) names \<and>
     set rs = {region_of (names ! i) (word_at data (off + 4 * i)) |i. i < length names \<and> off + 4 * i + 4 \<le> length data}"
proof (induction names arbitrary: off)
  case (Cons name names)
  show ?case
  proof (cases "off + 4 \<le> length data")
    case True
    obtain rs where rs: "region_loop data (off + 4) names = Inr rs" "map fst rs = take (length rs) names"
        "set rs = {region_of (names ! i) (word_at data (off + 4 + 4 * i)) |i. i < length names \<and> off + 4 + 4 * i + 4 \<le> length data}"
      using Cons [of "off + 4"] by blast
    have "{region_of ((name # names) ! i) (word_at data (off + 4 * i)) |i. i < length (name # names) \<and> off + 4 * i + 4 \<le> length data} =
        insert (region_of name (word_at data off)) (set rs)" (is "?L = ?R")
    proof
      show "?L \<subseteq> ?R"
        unfolding rs(3) by (clarsimp, case_tac i) (auto simp: algebra_simps)
      have "r \<in> ?L" if "r \<in> set rs" for r
        using that unfolding rs(3) by (clarsimp, rule_tac x = "Suc i" in exI) (simp add: algebra_simps)
      moreover have "region_of name (word_at data off) \<in> ?L"
        using True by (intro CollectI exI [of _ 0]) simp
      ultimately show "?R \<subseteq> ?L"
        by blast
    qed
    moreover have "fst (region_of name (word_at data off)) = name"
      by (simp add: region_of_eq)
    ultimately show ?thesis
      using True rs(1,2) by (simp add: unpack_u32_eq)
  qed auto
qed simp


lemma decode_regions:
  assumes "has_descriptor data"
  shows "\<exists>rs. decode data = Inr rs \<and> distinct (map fst rs) \<and>
    set rs = {region_of (REGION_NAMES ! i) (word_at data (register_at data i)) |i. i < 5 \<and> register_at data i + 4 \<le> length data}"
proof -
  define off where "off = nat (16 * (word_at data 0x14 div 2 ^ 16 mod 2 ^ 8))"
  obtain rs where rs: "region_loop data off REGION_NAMES = Inr rs" "map fst rs = take (length rs) REGION_NAMES"
      "set rs = {region_of (REGION_NAMES ! i) (word_at data (off + 4 * i)) |i. i < length REGION_NAMES \<and> off + 4 * i + 4 \<le> length data}"
    using region_loop_regions [of data off REGION_NAMES] by blast
  have "decode data = region_loop data off REGION_NAMES"
    using assms unfolding decode_def has_descriptor_def off_def unpack_u32_eq and_mask_mod
    by (simp add: FLVALSIG_OFFSET_def FLVALSIG_def push_bit_eq_mult drop_bit_eq_div mult.commute)
  moreover have "distinct REGION_NAMES" "length REGION_NAMES = 5"
    by (simp_all add: REGION_NAMES_def)
  ultimately show ?thesis
    using rs by (simp add: register_at_def off_def)
qed

lemma decode_refused: "\<not> has_descriptor data \<Longrightarrow> \<exists>e. decode data = Inl e"
  by (auto simp: decode_def has_descriptor_def unpack_u32_eq FLVALSIG_OFFSET_def FLVALSIG_def)

lemma declared_regions:
  assumes "set rs = {region_of (REGION_NAMES ! i) (word_at data (register_at data i)) |i. i < 5 \<and> register_at data i + 4 \<le> length data}"
  shows "(base, limit, name) \<in> declared data \<longleftrightarrow> (name, base, limit, True) \<in> set rs"
  unfolding assms declared_def region_of_eq by auto

lemma check_bios_none:
  assumes "distinct (map fst rs)"
  shows "check_bios (filter (\<lambda>(_, _, _, valid). valid) rs) (Some (b, l)) = None \<longleftrightarrow> (''bios'', b, l, True) \<in> set rs"
proof -
  have uniq: "r = r'" if "r \<in> set rs" "r' \<in> set rs" "fst r = fst r'" for r r'
    using assms that by (auto simp: distinct_map inj_on_def)
  define used where "used = filter (\<lambda>(_, _, _, valid). valid) rs"
  have used: "r \<in> set used \<longleftrightarrow> r \<in> set rs \<and> snd (snd (snd r))" for r
    unfolding used_def by (cases r) simp
  show ?thesis
    unfolding used_def [symmetric]
  proof (cases "List.find (\<lambda>r. fst r = ''bios'') used")
    case None
    then have "r \<in> set rs \<Longrightarrow> snd (snd (snd r)) \<Longrightarrow> fst r \<noteq> ''bios''" for r
      using used unfolding find_None_iff by blast
    from this [of "(''bios'', b, l, True)"] show "check_bios used (Some (b, l)) = None \<longleftrightarrow> (''bios'', b, l, True) \<in> set rs"
      unfolding check_bios_def None by auto
  next
    case (Some r)
    then have "r \<in> set used" "fst r = ''bios''"
      unfolding find_Some_iff by auto
    moreover obtain n b' l' v where "r = (n, b', l', v)"
      by (rule prod_cases4)
    ultimately have r: "r = (''bios'', b', l', True)" "r \<in> set rs"
      using used [of r] by auto
    show "check_bios used (Some (b, l)) = None \<longleftrightarrow> (''bios'', b, l, True) \<in> set rs"
      using r uniq [of r "(''bios'', b, l, True)"] unfolding check_bios_def Some by auto
  qed
qed

text \<open>
  C26: Asked for a layout with the expected bounds of the BIOS region, the tool produces one exactly for a
  dump with a flash descriptor that declares a BIOS region with these bounds.  The layout then
  lists every declared region once, in the order of their bases, with bounds on 4 KiB boundaries as the registers give
  them; a register past the end of the dump declares nothing.
\<close>

theorem flash_layout_checked:
  "case ifd_main True (Some (b, l)) data of
     Inl e \<Rightarrow> \<not> (has_descriptor data \<and> (b, l, ''bios'') \<in> declared data)
   | Inr out \<Rightarrow> has_descriptor data \<and> (b, l, ''bios'') \<in> declared data \<and>
       (\<exists>ls. out = LayoutFile ls \<and> set ls = declared data \<and> distinct ls \<and> sorted (map fst ls))"
proof (cases "has_descriptor data")
  case True
  then obtain rs where rs: "decode data = Inr rs" "distinct (map fst rs)"
      "set rs = {region_of (REGION_NAMES ! i) (word_at data (register_at data i)) |i. i < 5 \<and> register_at data i + 4 \<le> length data}"
    using decode_regions by blast
  define used where "used = filter (\<lambda>(_, _, _, valid). valid) rs"
  define ls where "ls = map (\<lambda>(name, base, limit, _). (base, limit, name)) (sort_key (\<lambda>(_, base, _, _). base) used)"
  have "set ls = declared data"
    using declared_regions [OF rs(3)] unfolding ls_def used_def by (force simp: image_iff)
  moreover have "sorted (map fst ls)"
    using sorted_sort_key [of "\<lambda>(_, base, _, _). base" used] unfolding ls_def by (simp add: comp_def case_prod_unfold)
  moreover have "distinct (map fst used)"
    using rs(2) unfolding used_def by (simp add: distinct_map_filter)
  then have "distinct ls"
    unfolding ls_def by (auto simp: distinct_map inj_on_def case_prod_unfold)
  ultimately show ?thesis
    using True rs(1) check_bios_none [OF rs(2), of b l] declared_regions [OF rs(3), of b l "''bios''"]
    by (auto simp: ifd_main_def ls_def used_def split: option.splits)
qed (use decode_refused [of data] in \<open>auto simp: ifd_main_def\<close>)

section \<open>What is cut out\<close>

text \<open>A table by its own header: the signature, a size field equal to its length and a header that fits.\<close>

definition vbt_wf :: "u8 list \<Rightarrow> bool" where
  "vbt_wf v \<longleftrightarrow> 26 \<le> length v \<and> take 4 v = SIGNATURE \<and> uint (from_le16 (v ! 24) (v ! 25)) = int (length v) \<and>
     22 \<le> uint (from_le16 (v ! 22) (v ! 23)) \<and> uint (from_le16 (v ! 22) (v ! 23)) \<le> int (length v)"

lemma length_SIGNATURE [simp]: "length SIGNATURE = 4" "SIGNATURE \<noteq> []"
  by (simp_all add: SIGNATURE_def)

lemma find_bytes_first:
  "find_bytes pat data = Some n \<Longrightarrow> take (length pat) (drop n data) = pat \<and> (\<forall>i < n. take (length pat) (drop i data) \<noteq> pat)"
proof (induction pat data arbitrary: n rule: find_bytes.induct)
  case (2 pat x xs)
  show ?case
  proof (cases "take (length pat) (x # xs) = pat")
    case False
    with "2.prems" obtain m where "n = Suc m" "find_bytes pat xs = Some m"
      by auto
    with "2.IH" [OF False] False show ?thesis
      by (auto simp: less_Suc_eq_0_disj)
  qed (use "2.prems" in simp)
qed (simp split: if_splits)

lemma find_bytes_at:
  assumes "pat \<noteq> []" "take (length pat) (drop n data) = pat" "\<forall>i < n. take (length pat) (drop i data) \<noteq> pat"
  shows "find_bytes pat data = Some n"
  using assms
proof (induction pat data arbitrary: n rule: find_bytes.induct)
  case (2 pat x xs)
  show ?case
  proof (cases n)
    case (Suc m)
    then have "take (length pat) (x # xs) \<noteq> pat"
      using "2.prems"(3) by (metis drop0 zero_less_Suc)
    moreover have "take (length pat) (drop i xs) \<noteq> pat" if "i < m" for i
      using "2.prems"(3) Suc that by (metis Suc_less_eq drop_Suc_Cons)
    then have "find_bytes pat xs = Some m"
      using "2.IH" [OF calculation "2.prems"(1), of m] "2.prems"(2) Suc by simp
    ultimately show ?thesis
      using Suc by simp
  qed (use "2.prems" in simp)
qed auto

text \<open>
  Whatever is written stands in the dump at the first signature, and is a well-formed table if it is long
  enough for the fields of its header, which the checks of the tool do not ensure for 22 to 25 bytes.  A
  well-formed table is recovered from every dump that has no signature before it.
\<close>

theorem vbt_sound:
  assumes "vbt_main data = Inr r"
  shows "vbt r = take (length (vbt r)) (drop (vbt_offset r) data) \<and> find_bytes SIGNATURE data = Some (vbt_offset r) \<and>
    (26 \<le> length (vbt r) \<longrightarrow> vbt_wf (vbt r))"
proof -
  obtain off where off: "find_bytes SIGNATURE data = Some off"
    using assms by (auto simp: vbt_main_def split: option.splits)
  then have "take 4 (drop off data) = SIGNATURE"
    using find_bytes_first [OF off] by simp
  moreover define h s where "h = uint (from_le16 (data ! (off + 22)) (data ! (off + 23)))"
    and "s = uint (from_le16 (data ! (off + 24)) (data ! (off + 25)))"
  moreover have in_dump: "0 < s" "s \<le> int (length data) - int off" "22 \<le> h" "h \<le> s" "vbt r = take (nat s) (drop off data)" "vbt_offset r = off"
    using assms off unfolding h_def s_def by (auto simp: vbt_main_def unpack_u16_def add.commute [of off] split: if_splits)
  moreover have "length (vbt r) = nat s"
    using in_dump(1,2,5) by simp
  ultimately show ?thesis
    using off by (auto simp: vbt_wf_def add.assoc)
qed

theorem vbt_recovered:
  assumes "vbt_wf v" "\<forall>i < length pre. take 4 (drop i (pre @ v @ post)) \<noteq> SIGNATURE"
  shows "\<exists>r. vbt_main (pre @ v @ post) = Inr r \<and> vbt r = v \<and> vbt_offset r = length pre"
proof -
  have "find_bytes SIGNATURE (pre @ v @ post) = Some (length pre)"
    using assms by (intro find_bytes_at) (auto simp: vbt_wf_def)
  moreover have "v \<noteq> []"
    using assms(1) by (auto simp: vbt_wf_def)
  ultimately show ?thesis
    using assms(1) by (simp add: vbt_main_def vbt_wf_def unpack_u16_def nth_append)
qed

end
