(* ===== verification/Spec2Isabelle.thy ===== *)
theory Spec2Isabelle
  imports CapsuleSafety AcmBinding OverrideLiveness HostInterface Mainboard TpmDsm BmcToNic FlashTools
begin

text \<open>
  Verification library for the firmware of the NUC BIOS build: the EDK2 package NucRedfishPkg
  (src/meta-nuc-bios/recipes-bsp/edk2-uefipayload/files/NucRedfishPkg), the coreboot mainboard port
  (src/meta-nuc-bios/recipes-bsp/coreboot/files/mainboard) and the tools that read a flash dump
  (src/scripts).  Paths below are relative to these directories.

  \<^bold>\<open>The program.\<close>  coreboot brings up the board: it programs the power policy, the fan and the
  firmware TPM from the options of a setup menu.  The UEFI payload then talks to a management controller
  over a USB network link.  The controller's address is published in an SMBIOS record; one driver
  exchanges the inventory and the boot override with the controller, two more keep the network settings of the
  onboard controller in step with a Redfish resource, another applies these settings, and a serial
  driver carries the console.  Before an operating system starts, a library applies the firmware
  capsules that were staged on the disks and resets.

  \<^bold>\<open>How code is modelled.\<close>  Theory NucPrelude has the fixed-width integers as words, the status codes
  with the macro \<open>EFI_ERROR\<close>, GUIDs and little-endian bytes, and the interaction of code with services.  A
  function that calls services is a program in the state monad of HOL-Library whose state is the trace of all
  calls so far; each service is a field of an environment record, a function of that trace, so that the answers are
  arbitrary unless a theorem says otherwise.  The judgement \<open>yields m Q\<close> states that the program \<open>m\<close>
  ends after every trace and that its result and the events it appended satisfy \<open>Q\<close>; the rules of
  \<open>yields_intros\<close> and \<open>yields_flat\<close> follow the program text.  Pure code is a function; a read or write outside a
  buffer, and control that does not come back, is the result None.

  \<^bold>\<open>Capsules.\<close>
  \<^item> CapsuleParse: Library/NucCapsuleOnDiskLib/NucCapsuleParse.c.  The header check, the payload version
    and the file name test, each shown equal to a specification in terms of the bytes; no read leaves the buffer.
  \<^item> CapsuleOnDisk: NucCapsuleOnDiskLib.c, from the files of a volume to the ReadyToBoot notification.
    The abstract protocol of applying one capsule is an inductive predicate that ApplyOneCapsule refines.
  \<^item> CapsuleSafety: what precedes a reset, a submission and a deletion; every file and buffer is
    released, but for the entry buffer of a directory enumeration that ends early; the number of submissions is bounded by the limit of eight for each volume.

  \<^bold>\<open>Serial port.\<close>
  \<^item> RxRing: the ring of UsbCdcAcmDxe/SerialIo.c, an instance of the locale \<open>bounded_fifo\<close>.
  \<^item> SerialIo: the protocol functions and the poll callback.  The stream the reader sees is the
    stream the device sent, for every interleaving; Reset keeps the ring well-formed however often it is preempted by polls.
  \<^item> DevicePaths, AcmBinding: UsbCdcAcmDxe/UsbCdcAcmDxe.c.  Start acquires everything or nothing, up to a
    publication that cannot be withdrawn, and Stop gives it all back.

  \<^bold>\<open>Inventory.\<close>  NucRedfishSyncDxe/NucRedfishInventory.c.
  \<^item> AsciiText: C strings, and the bounded print and append as a parameter with documented behaviour.
  \<^item> SmbiosInventory: the host identity, memory and processors.  The last two collectors are
    instances of the locale \<open>bounded_collector\<close>.
  \<^item> InventoryJson: the request bodies.  An inductive relation between texts and JSON values says what
    a body denotes.
  \<^item> DriveInventory, FirmwareStatus: drives, and the platform's firmware management instance.

  \<^bold>\<open>The exchange.\<close>  NucRedfishSyncDxe/NucRedfishSyncDxe.c.
  \<^item> BootOptions: which boot option a boot override names.
  \<^item> RedfishSync: the requests, the override and the handler that runs once in a boot.  A machine is reset
    only for an override that the controller let go of; the exchange always ends and leaves nothing allocated but
    a list of boot options without an entry.
  \<^item> OverrideLiveness: with a well-formed machine and a link that comes up in time the override is honoured.

  \<^bold>\<open>Network settings.\<close>
  \<^item> HostInterface: Library/NucRedfishHostInterfaceLib, Library/NucRedfishCredentialLib and ConnectRedfishApp.
  \<^item> EthConfig: EthConfigDxe/EthConfigDxe.c and Include/Guid/NucEthConfig.h.  The stored settings are applied in
    order to the onboard controller; the link to the management controller is never touched.
  \<^item> EthInterface: RedfishEthernetInterfaceDxe.  Consuming a resource that was provisioned and not changed hands the HII
    services exactly the values the questions have, unless a mask, gateway or second name server stands alone.
  \<^item> EthCollection: RedfishEthernetInterfaceCollectionDxe, for every provider of the resource operations
    (locale \<open>resource_provider\<close>), of which EthInterface is an instance.  A pass over the collection creates members only
    in a collection reported empty, and what it leaves allocated is named exactly: the language and the exchange list of a
    member with a history record.
  \<^item> BmcToNic: the composition.  With HII and variable services that store what they are given, a setting written on
    the controller is exactly what the network controller is asked for on the next boot.

  \<^bold>\<open>Mainboard.\<close>
  \<^item> Ptt: mainboard/ptt.c.  A clear of the TPM needs a request that was reset first; the ACPI table is
    well-formed and present exactly when the TPM is.
  \<^item> TpmDsm: mainboard/acpi/tpm.asl.  The start method rings the doorbell as ptt.c does.
  \<^item> Mainboard: bootblock.c, smihandler.c, ramstage.c, cfr.c, mainboard.c and pei\_data.c.  The fan gets the
    curve the menu names; the defaults of the fan, SATA and TPM code agree with those of the menu.

  \<^bold>\<open>Tools.\<close>
  \<^item> FlashTools: ifd-layout.py and extract-vbt.py, with their error exits as values.

  \<^bold>\<open>Bounds.\<close>  Loops over finite data are structural recursion.  The retries of the service root
  are counted by the constant of the source.  The wait for the TPM is bounded by 40000
  turns, which at 50 microseconds a turn exceed the two seconds of its stopwatch.  A wait
  on an event or a queue (the address notification, the handles of a notification) is the finite list of answers
  that the service gives before it ends.

  \<^bold>\<open>Not modelled.\<close>  Console and debug output; the tables of gpio.c, hda\_verb.c and of the USB ports in
  pei\_data.c, which hold no code; parse\_uuid and the other functions of coreboot, EDK2 and the
  Redfish client, which are parameters; the patches to those trees, since the functions they change are not in the
  repository; the form EthConfigHii.vfr beyond the languages of its questions; the recipes and shell scripts, which
  only run other programs.  Concurrency is the interleaving of timer callbacks with calls, which the serial port theories cover.
\<close>

end
